theory Spec2Isabelle
  imports Main
begin

section \<open>JavaScript values\<close>

text \<open>
  The cache service passes JSON documents around untyped: upstream responses, the
  document read back from Redis, the local file \<^verbatim>\<open>repos\<close>. A value is one of
  JavaScript's JSON-shaped values; an object is the list of its properties in insertion
  order, the first binding of a key being the property's value. Numbers that the service
  itself produces are integers (counts, minutes), so numbers are modelled as integers.
\<close>

datatype json =
    JUndefined
  | JNull
  | JBool bool
  | JNum int
  | JStr string
  | JArr "json list"
  | JObj "(string \<times> json) list"

text \<open>What the service can throw, and what a rejected promise carries.\<close>

datatype error =
    TypeError
  | RangeError
  | SyntaxError
  | URIError
  | RequestFailed string
  | InvalidReposResponse
  | UnsupportedReadme
  | StoreError
  | FileError

text \<open>Truthiness, as \<^verbatim>\<open>if (x)\<close>, \<^verbatim>\<open>!x\<close>, \<^verbatim>\<open>x && y\<close> and \<^verbatim>\<open>Boolean(x)\<close> read a value.\<close>

fun truthy :: "json \<Rightarrow> bool" where
  "truthy JUndefined = False"
| "truthy JNull = False"
| "truthy (JBool b) = b"
| "truthy (JNum n) = (n \<noteq> 0)"
| "truthy (JStr s) = (s \<noteq> [])"
| "truthy (JArr _) = True"
| "truthy (JObj _) = True"

fun nullish :: "json \<Rightarrow> bool" where
  "nullish JUndefined = True"
| "nullish JNull = True"
| "nullish _ = False"

text \<open>
  \<^verbatim>\<open>v.k\<close>: a TypeError on \<^verbatim>\<open>null\<close> and \<^verbatim>\<open>undefined\<close>, the property's value on an
  object that has it, \<^verbatim>\<open>undefined\<close> otherwise (the keys the service reads are data
  keys, never \<^verbatim>\<open>length\<close> or a method name).
\<close>

fun lookup :: "json \<Rightarrow> string \<Rightarrow> json" where
  "lookup (JObj kvs) k = (case map_of kvs k of None \<Rightarrow> JUndefined | Some v \<Rightarrow> v)"
| "lookup _ k = JUndefined"

definition get_prop :: "json \<Rightarrow> string \<Rightarrow> error + json" where
  "get_prop v k = (if nullish v then Inl TypeError else Inr (lookup v k))"

text \<open>\<^verbatim>\<open>v?.k\<close>: \<^verbatim>\<open>undefined\<close> instead of the TypeError.\<close>

definition opt_prop :: "json \<Rightarrow> string \<Rightarrow> json" where
  "opt_prop v k = (if nullish v then JUndefined else lookup v k)"

text \<open>\<^verbatim>\<open>a ?? b\<close>\<close>

definition nullish_or :: "json \<Rightarrow> json \<Rightarrow> json" where
  "nullish_or a b = (if nullish a then b else a)"

fun isArray :: "json \<Rightarrow> bool" where
  "isArray (JArr _) = True"
| "isArray _ = False"

text \<open>\<^verbatim>\<open>typeof v === 'object'\<close> (which \<^verbatim>\<open>null\<close> and arrays satisfy).\<close>

fun typeof_object :: "json \<Rightarrow> bool" where
  "typeof_object JNull = True"
| "typeof_object (JArr _) = True"
| "typeof_object (JObj _) = True"
| "typeof_object _ = False"

section \<open>Dates\<close>

text \<open>
  A \<^verbatim>\<open>Date\<close> holds a time value: milliseconds since the epoch, at most
  8.64e15 in magnitude, or NaN (an invalid date, here \<open>None\<close>). The clock reading of
  \<^verbatim>\<open>new Date()\<close> and \<^verbatim>\<open>Date.now()\<close> is a parameter \<open>now\<close> of every function that
  reads it.
\<close>

type_synonym date = "int option"

definition msPerDay :: int where
  "msPerDay = 86400000"

definition maxTime :: int where
  "maxTime = 8640000000000000"

text \<open>ECMAScript's TimeClip: a time value outside the range becomes NaN.\<close>

definition time_clip :: "int \<Rightarrow> date" where
  "time_clip t = (if - maxTime \<le> t \<and> t \<le> maxTime then Some t else None)"

text \<open>
  The proleptic Gregorian calendar, on day numbers (days since the epoch): what
  \<^verbatim>\<open>getUTCFullYear\<close>, \<^verbatim>\<open>getUTCMonth\<close> (here 1-based) and \<^verbatim>\<open>getUTCDate\<close> read, and
  the day number that ECMAScript's MakeDay gives back.
\<close>

definition civil_of_day :: "int \<Rightarrow> int \<times> int \<times> int" where
  "civil_of_day z0 =
     (let z = z0 + 719468;
          era = z div 146097;
          doe = z mod 146097;
          yoe = (doe - doe div 1460 + doe div 36524 - doe div 146096) div 365;
          doy = doe - (365 * yoe + yoe div 4 - yoe div 100);
          mp = (5 * doy + 2) div 153;
          d = doy - (153 * mp + 2) div 5 + 1;
          m = (if mp < 10 then mp + 3 else mp - 9)
      in (yoe + era * 400 + (if m \<le> 2 then 1 else 0), m, d))"

definition day_of_civil :: "int \<times> int \<times> int \<Rightarrow> int" where
  "day_of_civil ymd =
     (case ymd of (y0, m, d) \<Rightarrow>
        let y = (if m \<le> 2 then y0 - 1 else y0);
            era = y div 400;
            yoe = y mod 400;
            mp = (if m > 2 then m - 3 else m + 9);
            doy = (153 * mp + 2) div 5 + d - 1;
            doe = yoe * 365 + yoe div 4 - yoe div 100 + doy
        in era * 146097 + doe - 719468)"

text \<open>
  Decimal digits, padded with zeros to a fixed width (the numbers padded fit their
  width: a month, a day, an hour, a minute, a second, milliseconds, a year).
\<close>

definition digit :: "int \<Rightarrow> char" where
  "digit n = ''0123456789'' ! nat (n mod 10)"

definition pad2 :: "int \<Rightarrow> string" where
  "pad2 n = [digit (n div 10), digit n]"

definition pad3 :: "int \<Rightarrow> string" where
  "pad3 n = [digit (n div 100), digit (n div 10), digit n]"

definition pad4 :: "int \<Rightarrow> string" where
  "pad4 n = [digit (n div 1000), digit (n div 100), digit (n div 10), digit n]"

definition pad6 :: "int \<Rightarrow> string" where
  "pad6 n = [digit (n div 100000), digit (n div 10000)] @ pad4 n"

text \<open>
  The year of an ISO string: four digits from 0 to 9999, a sign and six digits
  otherwise.
\<close>

definition iso_year :: "int \<Rightarrow> string" where
  "iso_year y =
     (if 0 \<le> y \<and> y \<le> 9999 then pad4 y
      else (if y < 0 then CHR ''-'' else CHR ''+'') # pad6 (abs y))"

definition iso_string :: "int \<Rightarrow> string" where
  "iso_string t =
     (case civil_of_day (t div msPerDay) of (y, m, d) \<Rightarrow>
        let ms = t mod msPerDay in
        iso_year y @ ''-'' @ pad2 m @ ''-'' @ pad2 d @ ''T'' @
        pad2 (ms div 3600000) @ '':'' @ pad2 (ms div 60000 mod 60) @ '':'' @
        pad2 (ms div 1000 mod 60) @ ''.'' @ pad3 (ms mod 1000) @ ''Z'')"

text \<open>\<^verbatim>\<open>date.toISOString()\<close> throws a RangeError on an invalid date.\<close>

definition toISOString :: "date \<Rightarrow> error + string" where
  "toISOString dt = (case dt of None \<Rightarrow> Inl RangeError | Some t \<Rightarrow> Inr (iso_string t))"

text \<open>
  \<^verbatim>\<open>new Date(Date.UTC(date.getUTCFullYear(), date.getUTCMonth(), date.getUTCDate()))\<close>.
  MakeDay of a date's own year, month and day is its day number, so the result is the
  start of the date's UTC day; but \<^verbatim>\<open>Date.UTC\<close> reads a year from 0 to 99 as 1900 plus
  that year.
\<close>

definition startOfUtcDay :: "date \<Rightarrow> date" where
  "startOfUtcDay dt =
     (case dt of
        None \<Rightarrow> None
      | Some t \<Rightarrow>
          (case civil_of_day (t div msPerDay) of (y, m, d) \<Rightarrow>
             if 0 \<le> y \<and> y \<le> 99
             then time_clip (day_of_civil (1900 + y, m, d) * msPerDay)
             else time_clip (t div msPerDay * msPerDay)))"

definition formatUtcDate :: "date \<Rightarrow> error + string" where
  "formatUtcDate dt =
     (case toISOString dt of Inl e \<Rightarrow> Inl e | Inr s \<Rightarrow> Inr (take 10 s))"

text \<open>
  \<^verbatim>\<open>current.setUTCDate(current.getUTCDate() - offset)\<close>: MakeDay normalises a day of
  the month that is zero or negative into the earlier months, so the date moves back by
  \<open>offset\<close> days and keeps its time within the day; the new time value is clipped.
\<close>

definition setUTCDate_back :: "date \<Rightarrow> int \<Rightarrow> date" where
  "setUTCDate_back dt offset =
     (case dt of None \<Rightarrow> None | Some t \<Rightarrow> time_clip (t - offset * msPerDay))"

definition history_entry :: "string \<Rightarrow> json" where
  "history_entry d = JObj [(''date'', JStr d), (''commit_count'', JNum 0)]"

text \<open>
  The loop of \<^verbatim>\<open>buildEmptyCommitHistory\<close>, from \<open>offset\<close> down to 0; an exception
  leaves the loop.
\<close>

function history_loop :: "date \<Rightarrow> int \<Rightarrow> json list \<Rightarrow> error + json list" where
  "history_loop today offset history =
     (if offset \<ge> 0
      then (case formatUtcDate (setUTCDate_back today offset) of
              Inl e \<Rightarrow> Inl e
            | Inr d \<Rightarrow> history_loop today (offset - 1) (history @ [history_entry d]))
      else Inr history)"
  by pat_completeness auto
termination
  by (relation "measure (\<lambda>(today, offset, history). nat (offset + 1))") auto

declare history_loop.simps [simp del]

definition buildEmptyCommitHistory :: "int \<Rightarrow> int \<Rightarrow> error + json list" where
  "buildEmptyCommitHistory days now =
     history_loop (startOfUtcDay (Some now)) (days - 1) []"

text \<open>The first ten characters of the ISO string of a day, by its day number.\<close>

definition utc_date_string :: "int \<Rightarrow> string" where
  "utc_date_string z = take 10 (iso_string (z * msPerDay))"

text \<open>
  The zero-filled history of \<open>days\<close> days that ends on day number \<open>today\<close>, oldest
  day first: what \<^verbatim>\<open>buildEmptyCommitHistory\<close> is shown to return.
\<close>

definition zero_history :: "int \<Rightarrow> int \<Rightarrow> json list" where
  "zero_history today days =
     map (\<lambda>k. history_entry (utc_date_string (today - k))) (rev [0..days - 1])"

text \<open>\<^verbatim>\<open>Object.keys(v)\<close> of an object; no keys for any other value.\<close>

fun keys :: "json \<Rightarrow> string list" where
  "keys (JObj kvs) = map fst kvs"
| "keys _ = []"

text \<open>
  The ISO 8601 form that \<^verbatim>\<open>toISOString\<close> gives in the years 0 to 9999:
  \<^verbatim>\<open>YYYY-MM-DDTHH:mm:ss.sssZ\<close>.
\<close>

definition is_digit :: "char \<Rightarrow> bool" where
  "is_digit c \<longleftrightarrow> c \<in> set ''0123456789''"

definition iso8601_utc :: "string \<Rightarrow> bool" where
  "iso8601_utc s \<longleftrightarrow>
     length s = 24 \<and>
     list_all is_digit (map ((!) s) [0, 1, 2, 3, 5, 6, 8, 9, 11, 12, 14, 15, 17, 18, 20, 21, 22]) \<and>
     map ((!) s) [4, 7, 10, 13, 16, 19, 23] = ''--T::.Z''"

section \<open>Configuration\<close>

text \<open>
  The environment variables the service reads. A numeric variable is the result of
  \<^verbatim>\<open>Number.parseInt\<close>: an integer, or \<open>None\<close> for NaN and Infinity.
\<close>

record config =
  GITHUB_USERNAME :: string
  GITHUB_COMMIT_HISTORY_DAYS :: "int option"
  GITHUB_CACHE_TTL_MINUTES :: "int option"
  GITHUB_CACHE_REFRESH_MS :: "int option"
  CACHE_REFRESH_TOKEN :: string

definition assertPositiveInteger :: "int option \<Rightarrow> int \<Rightarrow> int" where
  "assertPositiveInteger v fallback =
     (case v of None \<Rightarrow> fallback | Some n \<Rightarrow> if n > 0 then n else fallback)"

definition normalizedHistoryDays :: "config \<Rightarrow> int" where
  "normalizedHistoryDays cfg = assertPositiveInteger (GITHUB_COMMIT_HISTORY_DAYS cfg) 180"

definition normalizedTtlMinutes :: "config \<Rightarrow> int" where
  "normalizedTtlMinutes cfg = assertPositiveInteger (GITHUB_CACHE_TTL_MINUTES cfg) 30"

definition normalizedRefreshMs :: "config \<Rightarrow> int" where
  "normalizedRefreshMs cfg = assertPositiveInteger (GITHUB_CACHE_REFRESH_MS cfg) 900000"

section \<open>The world of one run\<close>

text \<open>
  What the service gets from outside while it serves one request or one scheduled
  refresh: the clock (one reading, \<open>clock\<close>, for the whole run), the outcome of every
  awaited call, and the functions whose results the service only passes on: library
  functions, and the service's own \<^verbatim>\<open>decodeBase64Utf8\<close> and
  \<^verbatim>\<open>sanitizeReadmeContent\<close>, which rewrite the readme's text and cannot throw.
  \<^item> \<open>Date_parse\<close> is \<^verbatim>\<open>Date.parse\<close>, \<open>None\<close> for NaN;
  \<^item> \<open>JSON_parse\<close> is \<^verbatim>\<open>JSON.parse\<close>, \<open>None\<close> where it throws a SyntaxError;
  \<^item> \<open>encodeURIComponent\<close> is \<open>None\<close> where it throws a URIError;
  \<^item> \<open>user_response\<close>, \<open>repos_response\<close> and \<open>readme_response\<close> are what the three
    \<^verbatim>\<open>githubRequest\<close> calls of \<^verbatim>\<open>fetchFreshPayload\<close> settle with;
  \<^item> \<open>first_rejection\<close> tells which of the requests that fail is the first to do so
    (counted among the failing ones, in the order of the calls);
  \<^item> \<open>sort_inconsistent\<close> is the order in which \<^verbatim>\<open>Array.prototype.sort\<close> leaves an
    array whose comparator is not consistent (the order is then the engine's choice);
  \<^item> \<open>commit_history_response\<close> is what \<^verbatim>\<open>fetchCommitHistory\<close> settles with (how it
    tallies events is not modelled: the builder only distinguishes its failure);
  \<^item> \<open>redis_get_ok\<close> tells whether \<^verbatim>\<open>redisClient.get\<close> resolves, \<open>refresh_set_ok\<close> and
    \<open>fallback_set_ok\<close> whether \<^verbatim>\<open>redisClient.set\<close> resolves in the refresh and in the
    fallback branch;
  \<^item> \<open>repos_file\<close> is what \<^verbatim>\<open>readFile\<close> of the local file \<^verbatim>\<open>repos\<close> settles with.
\<close>

record world =
  clock :: int
  Date_parse :: "json \<Rightarrow> int option"
  JSON_parse :: "string \<Rightarrow> json option"
  JSON_stringify :: "json \<Rightarrow> string"
  decodeBase64Utf8 :: "string \<Rightarrow> string"
  sanitizeReadmeContent :: "string \<Rightarrow> string"
  encodeURIComponent :: "string \<Rightarrow> string option"
  user_response :: "error + json"
  repos_response :: "error + json"
  readme_response :: "error + json"
  first_rejection :: nat
  sort_inconsistent :: "json list \<Rightarrow> json list"
  commit_history_response :: "error + json"
  redis_get_ok :: bool
  refresh_set_ok :: bool
  fallback_set_ok :: bool
  repos_file :: "error + string"

section \<open>Building a snapshot\<close>

definition normalizeUser :: "json \<Rightarrow> error + json" where
  "normalizeUser user =
     (if nullish user then Inl TypeError
      else Inr (JObj
        [(''login'', lookup user ''login''),
         (''avatar_url'', lookup user ''avatar_url''),
         (''html_url'', lookup user ''html_url''),
         (''name'', nullish_or (lookup user ''name'') JNull),
         (''bio'', nullish_or (lookup user ''bio'') JNull),
         (''followers'', lookup user ''followers''),
         (''following'', lookup user ''following''),
         (''public_repos'', lookup user ''public_repos'')]))"

definition normalizeRepo :: "json \<Rightarrow> error + json" where
  "normalizeRepo repo =
     (if nullish repo then Inl TypeError
      else Inr (JObj
        [(''id'', lookup repo ''id''),
         (''name'', lookup repo ''name''),
         (''html_url'', lookup repo ''html_url''),
         (''description'', nullish_or (lookup repo ''description'') JNull),
         (''created_at'', lookup repo ''created_at''),
         (''updated_at'', lookup repo ''updated_at''),
         (''pushed_at'', lookup repo ''pushed_at''),
         (''language'', nullish_or (lookup repo ''language'') JNull),
         (''stargazers_count'', lookup repo ''stargazers_count''),
         (''open_issues_count'', lookup repo ''open_issues_count''),
         (''forks_count'', lookup repo ''forks_count''),
         (''topics'', if isArray (lookup repo ''topics'') then lookup repo ''topics'' else JArr []),
         (''archived'', JBool (truthy (lookup repo ''archived'')))]))"

text \<open>\<^verbatim>\<open>xs.map(f)\<close> where \<open>f\<close> may throw: the first exception leaves the map.\<close>

fun map_throwing :: "('a \<Rightarrow> error + 'b) \<Rightarrow> 'a list \<Rightarrow> error + 'b list" where
  "map_throwing f [] = Inr []"
| "map_throwing f (x # xs) =
     (case f x of
        Inl e \<Rightarrow> Inl e
      | Inr y \<Rightarrow> (case map_throwing f xs of Inl e \<Rightarrow> Inl e | Inr ys \<Rightarrow> Inr (y # ys)))"

text \<open>
  \<^verbatim>\<open>(a, b) => Date.parse(b.pushed_at) - Date.parse(a.pushed_at)\<close>; the sort reads a NaN
  as 0.
\<close>

definition compare_pushed_at :: "world \<Rightarrow> json \<Rightarrow> json \<Rightarrow> int" where
  "compare_pushed_at w a b =
     (case (Date_parse w (lookup b ''pushed_at''), Date_parse w (lookup a ''pushed_at'')) of
        (Some tb, Some ta) \<Rightarrow> tb - ta
      | _ \<Rightarrow> 0)"

text \<open>
  \<^verbatim>\<open>Array.prototype.sort\<close> is stable: with a consistent comparator its result is
  that of a stable insertion sort.
\<close>

fun insert_sorted :: "('a \<Rightarrow> 'a \<Rightarrow> int) \<Rightarrow> 'a \<Rightarrow> 'a list \<Rightarrow> 'a list" where
  "insert_sorted cmp x [] = [x]"
| "insert_sorted cmp x (y # ys) =
     (if cmp x y \<le> 0 then x # y # ys else y # insert_sorted cmp x ys)"

definition array_sort :: "('a \<Rightarrow> 'a \<Rightarrow> int) \<Rightarrow> 'a list \<Rightarrow> 'a list" where
  "array_sort cmp xs = foldr (insert_sorted cmp) xs []"

text \<open>
  \<^verbatim>\<open>.sort((a, b) => Date.parse(b.pushed_at) - Date.parse(a.pushed_at))\<close>: the
  comparator is consistent when every \<^verbatim>\<open>pushed_at\<close> is a date that \<^verbatim>\<open>Date.parse\<close>
  reads (the newest comes first, equal dates keep their order), and when it finds all
  the elements equal (the order stays). Otherwise a \<^verbatim>\<open>pushed_at\<close> that is not read
  compares as equal to dates that differ, and the order is the engine's.
\<close>

definition consistent_pushed_at :: "world \<Rightarrow> json list \<Rightarrow> bool" where
  "consistent_pushed_at w repos \<longleftrightarrow>
     list_all (\<lambda>repo. Date_parse w (lookup repo ''pushed_at'') \<noteq> None) repos \<or>
     list_all (\<lambda>a. list_all (\<lambda>b. compare_pushed_at w a b = 0) repos) repos"

definition sort_by_pushed_at :: "world \<Rightarrow> json list \<Rightarrow> json list" where
  "sort_by_pushed_at w repos =
     (if consistent_pushed_at w repos
      then array_sort (compare_pushed_at w) repos
      else sort_inconsistent w repos)"

text \<open>
  \<^verbatim>\<open>new Date().toISOString()\<close> cannot throw: the clock reading is a valid date.
\<close>

definition buildPayload :: "config \<Rightarrow> world \<Rightarrow> json \<Rightarrow> json \<Rightarrow> json \<Rightarrow> json \<Rightarrow> json" where
  "buildPayload cfg w user repos readme commitHistory =
     JObj
       [(''meta'', JObj
           [(''username'', JStr (GITHUB_USERNAME cfg)),
            (''fetched_at'', JStr (iso_string (clock w))),
            (''source'', JStr ''github-api''),
            (''cache_ttl_minutes'', JNum (normalizedTtlMinutes cfg))]),
        (''user'', user),
        (''repos'', repos),
        (''readme'', readme),
        (''commit_history'', commitHistory)]"

text \<open>The reason of a rejected promise, none for a fulfilled one.\<close>

definition rejection :: "error + 'a \<Rightarrow> error list" where
  "rejection a = (case a of Inl e \<Rightarrow> [e] | Inr x \<Rightarrow> [])"

text \<open>
  \<^verbatim>\<open>Promise.all\<close> of the three required requests is fulfilled with the three values
  when all three are, and otherwise rejects with the reason of the request that is the
  first to fail: \<open>first\<close> picks it among the failing ones.
\<close>

definition promise_all3 ::
  "nat \<Rightarrow> error + 'a \<Rightarrow> error + 'b \<Rightarrow> error + 'c \<Rightarrow> error + ('a \<times> 'b \<times> 'c)" where
  "promise_all3 first a b c =
     (case (a, b, c) of
        (Inr x, Inr y, Inr z) \<Rightarrow> Inr (x, y, z)
      | _ \<Rightarrow>
          (let reasons = rejection a @ rejection b @ rejection c
           in Inl (reasons ! (first mod length reasons))))"

text \<open>
  \<^verbatim>\<open>readmeResponse.encoding !== 'base64' || typeof readmeResponse.content !== 'string'\<close>;
  reading a property of \<^verbatim>\<open>null\<close> throws.
\<close>

definition readme_content :: "json \<Rightarrow> error + string" where
  "readme_content readmeResponse =
     (case get_prop readmeResponse ''encoding'' of
        Inl e \<Rightarrow> Inl e
      | Inr encoding \<Rightarrow>
          if encoding \<noteq> JStr ''base64'' then Inl UnsupportedReadme
          else (case lookup readmeResponse ''content'' of
                  JStr content \<Rightarrow> Inr content
                | _ \<Rightarrow> Inl UnsupportedReadme))"

text \<open>
  The commit history is the only request inside a \<^verbatim>\<open>try\<close>: when it fails, the
  zero-filled history built just before stays in place.
\<close>

definition fetchFreshPayload :: "config \<Rightarrow> world \<Rightarrow> error + json" where
  "fetchFreshPayload cfg w =
     (case promise_all3 (first_rejection w)
             (user_response w) (repos_response w) (readme_response w) of
        Inl e \<Rightarrow> Inl e
      | Inr (userResponse, reposResponse, readmeResponse) \<Rightarrow>
          (case reposResponse of
             JArr reposList \<Rightarrow>
               (case readme_content readmeResponse of
                  Inl e \<Rightarrow> Inl e
                | Inr content \<Rightarrow>
                    (case buildEmptyCommitHistory (normalizedHistoryDays cfg) (clock w) of
                       Inl e \<Rightarrow> Inl e
                     | Inr emptyHistory \<Rightarrow>
                         (let commitHistory =
                                (case commit_history_response w of
                                   Inl e \<Rightarrow> JArr emptyHistory
                                 | Inr fetched \<Rightarrow> fetched)
                          in (case map_throwing normalizeRepo reposList of
                                Inl e \<Rightarrow> Inl e
                              | Inr normalized \<Rightarrow>
                                  (case normalizeUser userResponse of
                                     Inl e \<Rightarrow> Inl e
                                   | Inr user \<Rightarrow>
                                       Inr (buildPayload cfg w user
                                             (JArr (sort_by_pushed_at w normalized))
                                             (JStr (sanitizeReadmeContent w
                                                      (decodeBase64Utf8 w content)))
                                             commitHistory))))))
           | _ \<Rightarrow> Inl InvalidReposResponse))"

section \<open>The local fallback\<close>

text \<open>\<^verbatim>\<open>loadRepoSnapshot\<close> catches every failure of the read and of the parse.\<close>

definition loadRepoSnapshot :: "world \<Rightarrow> json" where
  "loadRepoSnapshot w =
     (case repos_file w of
        Inl e \<Rightarrow> JNull
      | Inr raw \<Rightarrow>
          (case JSON_parse w raw of
             None \<Rightarrow> JNull
           | Some parsed \<Rightarrow> if isArray parsed then parsed else JNull))"

text \<open>
  \<^verbatim>\<open>reposSnapshot.find((repo) => repo && typeof repo.owner === 'object')?.owner\<close>
\<close>

definition snapshot_owner :: "json list \<Rightarrow> json" where
  "snapshot_owner items =
     (case find (\<lambda>repo. truthy repo \<and> typeof_object (lookup repo ''owner'')) items of
        None \<Rightarrow> JUndefined
      | Some repo \<Rightarrow> lookup repo ''owner'')"

text \<open>
  \<^verbatim>\<open>typeof owner?.k === 'string' ? owner.k : prefix + encodeURIComponent(login)\<close>
\<close>

definition owner_url :: "world \<Rightarrow> json \<Rightarrow> string \<Rightarrow> string \<Rightarrow> string \<Rightarrow> error + string" where
  "owner_url w owner k prefix login =
     (case opt_prop owner k of
        JStr s \<Rightarrow> Inr s
      | _ \<Rightarrow> (case encodeURIComponent w login of
                None \<Rightarrow> Inl URIError
              | Some enc \<Rightarrow> Inr (prefix @ enc)))"

text \<open>
  The result \<open>Inr JNull\<close> is the \<^verbatim>\<open>null\<close> the function returns when there is
  nothing to build from.
\<close>

definition buildFallbackPayloadFromSnapshot :: "config \<Rightarrow> world \<Rightarrow> json \<Rightarrow> error + json" where
  "buildFallbackPayloadFromSnapshot cfg w reposSnapshot =
     (case reposSnapshot of
        JArr items \<Rightarrow>
          if items = [] then Inr JNull
          else
           (case map_throwing normalizeRepo items of
              Inl e \<Rightarrow> Inl e
            | Inr normalized \<Rightarrow>
                (let repos = sort_by_pushed_at w normalized;
                     owner = snapshot_owner items;
                     login = (case opt_prop owner ''login'' of
                                JStr s \<Rightarrow> s
                              | _ \<Rightarrow> GITHUB_USERNAME cfg)
                 in (case owner_url w owner ''avatar_url''
                            ''https://avatars.githubusercontent.com/'' login of
                       Inl e \<Rightarrow> Inl e
                     | Inr avatar_url \<Rightarrow>
                         (case owner_url w owner ''html_url'' ''https://github.com/'' login of
                            Inl e \<Rightarrow> Inl e
                          | Inr html_url \<Rightarrow>
                              (case buildEmptyCommitHistory (normalizedHistoryDays cfg) (clock w) of
                                 Inl e \<Rightarrow> Inl e
                               | Inr emptyHistory \<Rightarrow>
                                   Inr (buildPayload cfg w
                                         (JObj
                                            [(''login'', JStr login),
                                             (''avatar_url'', JStr avatar_url),
                                             (''html_url'', JStr html_url),
                                             (''name'', JNull),
                                             (''bio'', JNull),
                                             (''followers'', JNum 0),
                                             (''following'', JNum 0),
                                             (''public_repos'', JNum (int (length repos)))])
                                         (JArr repos)
                                         (JStr [])
                                         (JArr emptyHistory)))))))
      | _ \<Rightarrow> Inr JNull)"

section \<open>The cache store and the refresh\<close>

text \<open>
  The module's variables. \<open>redisClient\<close> tells whether a connected Redis client exists
  (it is \<^verbatim>\<open>null\<close> otherwise); \<open>redisStore\<close> is the string stored in Redis under the
  cache key, if any; \<open>inMemoryCache\<close> starts as \<^verbatim>\<open>null\<close>; \<open>refreshPromise\<close> is the
  handle of the refresh in flight (\<open>None\<close> is \<^verbatim>\<open>null\<close>). \<open>builds_started\<close> is not a
  variable of the program: it counts the calls of \<^verbatim>\<open>fetchFreshPayload\<close>, so that a
  theorem can say that no upstream build was started.
\<close>

record 'p server =
  redisClient :: bool
  redisStore :: "string option"
  inMemoryCache :: json
  refreshPromise :: "'p option"
  builds_started :: nat

text \<open>
  \<^verbatim>\<open>redisClient.get\<close> may reject and \<^verbatim>\<open>JSON.parse\<close> may throw; neither is caught.
\<close>

definition readCachedPayload :: "world \<Rightarrow> 'p server \<Rightarrow> error + json" where
  "readCachedPayload w s =
     (if redisClient s then
        (if redis_get_ok w then
           (case redisStore s of
              None \<Rightarrow> Inr JNull
            | Some raw \<Rightarrow>
                if raw = [] then Inr JNull
                else (case JSON_parse w raw of
                        None \<Rightarrow> Inl SyntaxError
                      | Some v \<Rightarrow> Inr v))
         else Inl StoreError)
      else Inr (inMemoryCache s))"

text \<open>
  \<open>Inl\<close> when \<^verbatim>\<open>redisClient.set\<close> rejects: the exception leaves the function before
  \<^verbatim>\<open>inMemoryCache\<close> is assigned, and the rejected command has stored nothing.
\<close>

definition writeCachedPayload :: "world \<Rightarrow> bool \<Rightarrow> json \<Rightarrow> 'p server \<Rightarrow> error + 'p server" where
  "writeCachedPayload w set_ok payload s =
     (if redisClient s then
        (if set_ok
         then Inr (s\<lparr>redisStore := Some (JSON_stringify w payload), inMemoryCache := payload\<rparr>)
         else Inl StoreError)
      else Inr (s\<lparr>inMemoryCache := payload\<rparr>))"

text \<open>
  One call of \<^verbatim>\<open>refreshCache\<close> run to its end with no other caller in between. A
  promise found in \<open>refreshPromise\<close> belongs to another caller; it is represented by the
  result it settles with, which is all the joining caller gets from it. Otherwise the
  caller starts the build, writes the payload and, in the \<^verbatim>\<open>finally\<close>, clears the
  handle.
\<close>

definition refreshCache ::
  "config \<Rightarrow> world \<Rightarrow> (error + json) server \<Rightarrow> (error + json) \<times> (error + json) server" where
  "refreshCache cfg w s =
     (case refreshPromise s of
        Some outcome \<Rightarrow> (outcome, s)
      | None \<Rightarrow>
          (let s1 = s\<lparr>builds_started := Suc (builds_started s)\<rparr> in
           case fetchFreshPayload cfg w of
             Inl e \<Rightarrow> (Inl e, s1\<lparr>refreshPromise := None\<rparr>)
           | Inr payload \<Rightarrow>
               (case writeCachedPayload w (refresh_set_ok w) payload s1 of
                  Inl e \<Rightarrow> (Inl e, s1\<lparr>refreshPromise := None\<rparr>)
                | Inr s2 \<Rightarrow> (Inr payload, s2\<lparr>refreshPromise := None\<rparr>))))"

text \<open>
  \<^verbatim>\<open>payload?.meta?.fetched_at\<close>, and \<^verbatim>\<open>isPayloadFresh\<close>: a falsy \<^verbatim>\<open>fetched_at\<close>
  and one that \<^verbatim>\<open>Date.parse\<close> reads as NaN are not fresh.
\<close>

definition meta_fetched_at :: "json \<Rightarrow> json" where
  "meta_fetched_at payload = opt_prop (opt_prop payload ''meta'') ''fetched_at''"

definition isPayloadFresh :: "config \<Rightarrow> world \<Rightarrow> json \<Rightarrow> bool" where
  "isPayloadFresh cfg w payload =
     (if \<not> truthy (meta_fetched_at payload) then False
      else (case Date_parse w (meta_fetched_at payload) of
              None \<Rightarrow> False
            | Some fetchedAt \<Rightarrow> clock w - fetchedAt \<le> normalizedTtlMinutes cfg * 60000))"

section \<open>The endpoints\<close>

datatype cache_status = HIT | MISS | REFRESH | STALE | FALLBACK

text \<open>
  A response: the HTTP status, the \<^verbatim>\<open>X-Cache-Status\<close> header if set, the JSON body.
  A handler's result is \<open>Inl\<close> when its promise rejects: an exception that no
  \<^verbatim>\<open>try\<close> of the handler catches, so that the handler itself sends no response
  (what the framework makes of the rejection is outside the model).
\<close>

record response =
  status :: nat
  x_cache_status :: "cache_status option"
  body :: json

definition message :: "string \<Rightarrow> json" where
  "message text = JObj [(''message'', JStr text)]"

text \<open>
  The read endpoint, \<^verbatim>\<open>app.get('/api/github-dashboard')\<close>, run to its end with no
  other caller in between.
\<close>

definition get_dashboard ::
  "config \<Rightarrow> world \<Rightarrow> (error + json) server \<Rightarrow> (error + response) \<times> (error + json) server" where
  "get_dashboard cfg w s =
     (case readCachedPayload w s of
        Inl e \<Rightarrow> (Inl e, s)
      | Inr cached \<Rightarrow>
          if truthy cached \<and> isPayloadFresh cfg w cached
          then (Inr \<lparr>status = 200, x_cache_status = Some HIT, body = cached\<rparr>, s)
          else
           (case refreshCache cfg w s of
              (Inr fresh, s1) \<Rightarrow>
                (Inr \<lparr>status = 200,
                      x_cache_status = Some (if truthy cached then REFRESH else MISS),
                      body = fresh\<rparr>, s1)
            | (Inl err, s1) \<Rightarrow>
                if truthy cached
                then (Inr \<lparr>status = 200, x_cache_status = Some STALE, body = cached\<rparr>, s1)
                else
                 (case buildFallbackPayloadFromSnapshot cfg w (loadRepoSnapshot w) of
                    Inl e \<Rightarrow> (Inl e, s1)
                  | Inr fallbackPayload \<Rightarrow>
                      if truthy fallbackPayload
                      then
                       (case writeCachedPayload w (fallback_set_ok w) fallbackPayload s1 of
                          Inl e \<Rightarrow> (Inl e, s1)
                        | Inr s2 \<Rightarrow>
                            (Inr \<lparr>status = 200, x_cache_status = Some FALLBACK,
                                  body = fallbackPayload\<rparr>, s2))
                      else
                       (Inr \<lparr>status = 503, x_cache_status = None,
                             body = message
                               ''Unable to refresh GitHub data cache. Configure GH_API_TOKEN to increase API limits.''\<rparr>,
                        s1))))"

text \<open>
  The manual refresh, \<^verbatim>\<open>app.post('/api/github-dashboard/refresh')\<close>. \<open>token\<close> is the
  request's \<^verbatim>\<open>x-refresh-token\<close> header, \<open>None\<close>
  when the request has none; an empty \<^verbatim>\<open>CACHE_REFRESH_TOKEN\<close> is falsy.
\<close>

definition post_refresh ::
  "config \<Rightarrow> world \<Rightarrow> string option \<Rightarrow> (error + json) server \<Rightarrow>
   (error + response) \<times> (error + json) server" where
  "post_refresh cfg w token s =
     (if CACHE_REFRESH_TOKEN cfg \<noteq> [] \<and> token \<noteq> Some (CACHE_REFRESH_TOKEN cfg)
      then (Inr \<lparr>status = 401, x_cache_status = None,
                 body = message ''Unauthorized refresh request.''\<rparr>, s)
      else
       (case refreshCache cfg w s of
          (Inr payload, s1) \<Rightarrow>
            (Inr \<lparr>status = 200, x_cache_status = Some REFRESH, body = payload\<rparr>, s1)
        | (Inl err, s1) \<Rightarrow>
            (Inr \<lparr>status = 503, x_cache_status = None,
                  body = message ''GitHub cache refresh failed.''\<rparr>, s1)))"

text \<open>The scheduler's tick: the refresh, its failure logged and dropped.\<close>

definition scheduled_refresh ::
  "config \<Rightarrow> world \<Rightarrow> (error + json) server \<Rightarrow> (error + json) server" where
  "scheduled_refresh cfg w s = snd (refreshCache cfg w s)"

text \<open>
  The warm-up at startup: the refresh and, when it fails, the local fallback. The first
  component is an exception in the fallback, which nothing catches.
\<close>

definition startup_warmup ::
  "config \<Rightarrow> world \<Rightarrow> (error + json) server \<Rightarrow> error option \<times> (error + json) server" where
  "startup_warmup cfg w s =
     (case refreshCache cfg w s of
        (Inr payload, s1) \<Rightarrow> (None, s1)
      | (Inl err, s1) \<Rightarrow>
          (case buildFallbackPayloadFromSnapshot cfg w (loadRepoSnapshot w) of
             Inl e \<Rightarrow> (Some e, s1)
           | Inr fallbackPayload \<Rightarrow>
               if truthy fallbackPayload
               then (case writeCachedPayload w (fallback_set_ok w) fallbackPayload s1 of
                       Inl e \<Rightarrow> (Some e, s1)
                     | Inr s2 \<Rightarrow> (None, s2))
               else (None, s1)))"

text \<open>What the cache store holds: the Redis entry and the in-memory snapshot.\<close>

definition cache_store :: "'p server \<Rightarrow> string option \<times> json" where
  "cache_store s = (redisStore s, inMemoryCache s)"

section \<open>Concurrent callers of the refresh\<close>

text \<open>
  JavaScript runs one piece of code at a time, up to its next \<^verbatim>\<open>await\<close>. The
  callers of \<^verbatim>\<open>refreshCache\<close> are therefore interleaved at these points only, and a
  run of the server is a sequence of events, each an uninterrupted piece of
  \<^verbatim>\<open>refreshCache\<close>:
  \<^item> \<open>Call c origin\<close>: caller \<open>c\<close> enters \<^verbatim>\<open>refreshCache\<close> and runs to its first
    suspension: it returns the promise in flight or creates one, whose body starts
    \<^verbatim>\<open>fetchFreshPayload\<close>;
  \<^item> \<open>FetchSettles p result\<close>: the \<^verbatim>\<open>await fetchFreshPayload()\<close> of promise \<open>p\<close>
    settles; on a payload the body calls \<^verbatim>\<open>writeCachedPayload\<close>, which without Redis
    assigns \<^verbatim>\<open>inMemoryCache\<close> at once;
  \<^item> \<open>WriteSettles p ok\<close>: the \<^verbatim>\<open>await redisClient.set(...)\<close> of promise \<open>p\<close> settles;
  \<^item> \<open>Resume c\<close>: caller \<open>c\<close>, whose promise has settled, continues: the caller that
    created the promise runs its \<^verbatim>\<open>finally\<close>, and every caller gets the result.
  An event that is not enabled leaves the state as it is. Promises are numbered in the
  order of their creation; the handle \<open>refreshPromise\<close> holds such a number.
\<close>

datatype promise_state = Fetching | Writing json | Resolved json | Rejected error

datatype role = Initiator | Joiner

datatype origin = ReadEndpoint | ManualRefresh | Scheduler | Startup

datatype caller_state =
    NotCalled
  | Awaiting nat role
  | Returned nat "error + json"

datatype event =
    Call nat origin
  | FetchSettles nat "error + json"
  | WriteSettles nat bool
  | Resume nat

record machine =
  srv :: "nat server"
  promises :: "promise_state list"
  callers :: "nat \<Rightarrow> caller_state"

fun in_flight :: "promise_state \<Rightarrow> bool" where
  "in_flight Fetching = True"
| "in_flight (Writing payload) = True"
| "in_flight _ = False"

fun settled :: "promise_state \<Rightarrow> (error + json) option" where
  "settled (Resolved payload) = Some (Inr payload)"
| "settled (Rejected e) = Some (Inl e)"
| "settled _ = None"

fun step :: "world \<Rightarrow> event \<Rightarrow> machine \<Rightarrow> machine" where
  "step w (Call c origin) m =
     (case callers m c of
        NotCalled \<Rightarrow>
          (case refreshPromise (srv m) of
             Some p \<Rightarrow> m\<lparr>callers := (callers m)(c := Awaiting p Joiner)\<rparr>
           | None \<Rightarrow>
               m\<lparr>srv := (srv m)\<lparr>refreshPromise := Some (length (promises m)),
                                 builds_started := Suc (builds_started (srv m))\<rparr>,
                 promises := promises m @ [Fetching],
                 callers := (callers m)(c := Awaiting (length (promises m)) Initiator)\<rparr>)
      | _ \<Rightarrow> m)"
| "step w (FetchSettles p result) m =
     (if p < length (promises m) \<and> promises m ! p = Fetching
      then (case result of
              Inl e \<Rightarrow> m\<lparr>promises := (promises m)[p := Rejected e]\<rparr>
            | Inr payload \<Rightarrow>
                if redisClient (srv m)
                then m\<lparr>promises := (promises m)[p := Writing payload]\<rparr>
                else m\<lparr>srv := (srv m)\<lparr>inMemoryCache := payload\<rparr>,
                       promises := (promises m)[p := Resolved payload]\<rparr>)
      else m)"
| "step w (WriteSettles p ok) m =
     (if p < length (promises m)
      then (case promises m ! p of
              Writing payload \<Rightarrow>
                if ok
                then m\<lparr>srv := (srv m)\<lparr>redisStore := Some (JSON_stringify w payload),
                                      inMemoryCache := payload\<rparr>,
                       promises := (promises m)[p := Resolved payload]\<rparr>
                else m\<lparr>promises := (promises m)[p := Rejected StoreError]\<rparr>
            | _ \<Rightarrow> m)
      else m)"
| "step w (Resume c) m =
     (case callers m c of
        Awaiting p role \<Rightarrow>
          if p < length (promises m)
          then (case settled (promises m ! p) of
                  None \<Rightarrow> m
                | Some result \<Rightarrow>
                    m\<lparr>srv := (if role = Initiator then (srv m)\<lparr>refreshPromise := None\<rparr>
                               else srv m),
                      callers := (callers m)(c := Returned p result)\<rparr>)
          else m
      | _ \<Rightarrow> m)"

fun run :: "world \<Rightarrow> event list \<Rightarrow> machine \<Rightarrow> machine" where
  "run w [] m = m"
| "run w (e # es) m = run w es (step w e m)"

text \<open>The server after startup: no refresh in flight, no caller yet.\<close>

definition boot :: "bool \<Rightarrow> string option \<Rightarrow> json \<Rightarrow> machine" where
  "boot redis stored cache =
     \<lparr>srv = \<lparr>redisClient = redis, redisStore = stored, inMemoryCache = cache,
              refreshPromise = None, builds_started = 0\<rparr>,
      promises = [],
      callers = (\<lambda>c. NotCalled)\<rparr>"

text \<open>
  What holds of every state the server can reach: a promise in flight is the one the
  handle holds; the caller that created a promise and has not resumed yet finds the
  handle still on its promise, and is the only such caller; the handle is held on behalf
  of such a caller; callers wait for promises that exist, and a caller that has returned
  got the result its promise settled with; every promise stands for one build.
\<close>

definition single_flight :: "machine \<Rightarrow> bool" where
  "single_flight m \<longleftrightarrow>
     (\<forall>p < length (promises m). in_flight (promises m ! p) \<longrightarrow> refreshPromise (srv m) = Some p) \<and>
     (\<forall>c p. callers m c = Awaiting p Initiator \<longrightarrow> refreshPromise (srv m) = Some p) \<and>
     (\<forall>c c' p p'. callers m c = Awaiting p Initiator \<and> callers m c' = Awaiting p' Initiator
        \<longrightarrow> c = c') \<and>
     (\<forall>p. refreshPromise (srv m) = Some p \<longrightarrow>
        p < length (promises m) \<and> (\<exists>c. callers m c = Awaiting p Initiator)) \<and>
     (\<forall>c p r. callers m c = Awaiting p r \<longrightarrow> p < length (promises m)) \<and>
     (\<forall>c p result. callers m c = Returned p result \<longrightarrow>
        p < length (promises m) \<and> settled (promises m ! p) = Some result) \<and>
     builds_started (srv m) = length (promises m)"

text \<open>
  A server at rest, as the machine sees it: the module's variables of \<open>s\<close>, no promise
  and no caller.
\<close>

definition at_rest :: "'p server \<Rightarrow> machine" where
  "at_rest s =
     \<lparr>srv = \<lparr>redisClient = redisClient s, redisStore = redisStore s,
              inMemoryCache = inMemoryCache s, refreshPromise = None,
              builds_started = builds_started s\<rparr>,
      promises = [],
      callers = (\<lambda>c. NotCalled)\<rparr>"

section \<open>A deployment to run the endpoints on\<close>

text \<open>
  A configuration with a refresh token, three days of history and the default TTL of 30
  minutes; a world at noon UTC on 2 November 2026 in which the three required requests
  succeed, the commit history request fails and the local file holds one repository;
  and a server that has just started, without Redis.
\<close>

definition example_config :: config where
  "example_config =
     \<lparr>GITHUB_USERNAME = ''nyxnix'',
      GITHUB_COMMIT_HISTORY_DAYS = Some 3,
      GITHUB_CACHE_TTL_MINUTES = None,
      GITHUB_CACHE_REFRESH_MS = None,
      CACHE_REFRESH_TOKEN = ''s3cret''\<rparr>"

definition example_Date_parse :: "json \<Rightarrow> int option" where
  "example_Date_parse v =
     (if v = JStr ''2026-11-02T12:00:00.000Z'' then Some 1793620800000
      else if v = JStr ''2026-11-02T11:50:00.000Z'' then Some 1793620200000
      else if v = JStr ''2026-11-02T11:20:00.000Z'' then Some 1793618400000
      else None)"

definition example_JSON_parse :: "string \<Rightarrow> json option" where
  "example_JSON_parse raw =
     (if raw = ''[{}]'' then Some (JArr [JObj []])
      else if raw = ''[null]'' then Some (JArr [JNull])
      else if raw = ''[]'' then Some (JArr [])
      else if raw = ''{}'' then Some (JObj [])
      else None)"

definition example_JSON_stringify :: "json \<Rightarrow> string" where
  "example_JSON_stringify v =
     (if v = JArr [JObj []] then ''[{}]'' else if v = JArr [] then ''[]'' else ''{}'')"

definition example_world :: world where
  "example_world =
     \<lparr>clock = 1793620800000,
      Date_parse = example_Date_parse,
      JSON_parse = example_JSON_parse,
      JSON_stringify = example_JSON_stringify,
      decodeBase64Utf8 = (\<lambda>s. s),
      sanitizeReadmeContent = (\<lambda>s. s),
      encodeURIComponent = Some,
      user_response = Inr (JObj [(''login'', JStr ''nyxnix''), (''followers'', JNum 7)]),
      repos_response = Inr (JArr [JObj [(''name'', JStr ''nyxnx.dev'')]]),
      readme_response = Inr (JObj [(''encoding'', JStr ''base64''), (''content'', JStr ''SGk='')]),
      first_rejection = 0,
      sort_inconsistent = (\<lambda>repos. repos),
      commit_history_response = Inl (RequestFailed ''403 rate limit exceeded''),
      redis_get_ok = True,
      refresh_set_ok = True,
      fallback_set_ok = True,
      repos_file = Inr ''[{}]''\<rparr>"

definition example_server :: "(error + json) server" where
  "example_server =
     \<lparr>redisClient = False,
      redisStore = None,
      inMemoryCache = JNull,
      refreshPromise = None,
      builds_started = 0\<rparr>"

text \<open>A snapshot with the given \<^verbatim>\<open>fetched_at\<close>, as a cache may hold it.\<close>

definition example_snapshot :: "string \<Rightarrow> json" where
  "example_snapshot fetched_at =
     JObj [(''meta'', JObj [(''username'', JStr ''nyxnix''), (''fetched_at'', JStr fetched_at),
                            (''source'', JStr ''github-api''), (''cache_ttl_minutes'', JNum 30)]),
           (''user'', JObj [(''login'', JStr ''nyxnix'')]),
           (''repos'', JArr []),
           (''readme'', JStr []),
           (''commit_history'', JArr [])]"

text \<open>The snapshot that the local fallback builds in this world.\<close>

definition example_fallback_payload :: json where
  "example_fallback_payload =
     (case buildFallbackPayloadFromSnapshot example_config example_world
             (loadRepoSnapshot example_world) of
        Inl e \<Rightarrow> JNull
      | Inr p \<Rightarrow> p)"

text \<open>The snapshot that a refresh builds in this world.\<close>

definition example_fresh_payload :: json where
  "example_fresh_payload =
     (case fetchFreshPayload example_config example_world of
        Inl e \<Rightarrow> JNull
      | Inr p \<Rightarrow> p)"

text \<open>The same world with the upstream API down.\<close>

definition example_world_down :: world where
  "example_world_down = example_world\<lparr>user_response := Inl (RequestFailed ''500 Internal Server Error'')\<rparr>"

text \<open>
  Three callers arrive together on a server that has just started; then the build fails,
  the callers resume and a fourth caller arrives.
\<close>

definition example_callers :: "event list" where
  "example_callers = [Call 1 ReadEndpoint, Call 2 ManualRefresh, Call 3 Scheduler]"

definition example_run :: "event list" where
  "example_run =
     example_callers @
     [FetchSettles 0 (Inl (RequestFailed ''500 Internal Server Error'')),
      Resume 2, Resume 1, Resume 3, Call 4 ReadEndpoint]"

text \<open>
  Two callers arrive together on a server that has just started with Redis connected;
  the build succeeds, the write succeeds, and the callers resume, the joining one first.
\<close>

definition example_pair :: "event list" where
  "example_pair = [Call 1 ReadEndpoint, Call 2 ManualRefresh]"

definition example_success :: "event list" where
  "example_success =
     [FetchSettles 0 (Inr example_fresh_payload), WriteSettles 0 True, Resume 2, Resume 1]"

section \<open>Dates and the commit history: auxiliary facts\<close>

lemma civil_of_day_year:
  "fst (civil_of_day z) =
     (let doe = (z + 719468) mod 146097;
          yoe = (doe - doe div 1460 + doe div 36524 - doe div 146096) div 365;
          doy = doe - (365 * yoe + yoe div 4 - yoe div 100);
          mp = (5 * doy + 2) div 153
      in yoe + (z + 719468) div 146097 * 400 +
         (if (if mp < 10 then mp + 3 else mp - 9) \<le> 2 then 1 else 0))"
  unfolding civil_of_day_def Let_def by (rule fst_conv)

lemma civil_year_after_epoch:
  assumes "0 \<le> z"
  shows "fst (civil_of_day z) \<ge> 1600"
proof -
  define w where "w = z + 719468"
  define doe where "doe = w mod 146097"
  define yoe where "yoe = (doe - doe div 1460 + doe div 36524 - doe div 146096) div 365"
  define c where "c = (let doy = doe - (365 * yoe + yoe div 4 - yoe div 100);
          mp = (5 * doy + 2) div 153
      in (if (if mp < 10 then mp + 3 else mp - 9) \<le> 2 then 1 else (0::int)))"
  have doe0: "0 \<le> doe" by (simp add: doe_def)
  have a: "doe div 1460 \<le> doe" using doe0
    by (metis div_by_1 one_le_numeral zdiv_mono2 zero_less_one)
  have b: "doe div 146096 \<le> doe div 36524" using doe0
    by (intro zdiv_mono2) auto
  have num: "0 \<le> doe - doe div 1460 + doe div 36524 - doe div 146096" using a b by linarith
  have yoe: "0 \<le> yoe"
    unfolding yoe_def using num by (simp only: pos_imp_zdiv_nonneg_iff)
  have era: "4 \<le> w div 146097"
  proof -
    have "719468 \<le> w" using assms by (simp add: w_def)
    then have "719468 div 146097 \<le> w div 146097" by (intro zdiv_mono1) auto
    then show ?thesis by simp
  qed
  have c0: "0 \<le> c" by (simp add: c_def Let_def)
  have "fst (civil_of_day z) = yoe + w div 146097 * 400 + c"
    unfolding civil_of_day_year Let_def c_def yoe_def doe_def w_def ..
  then show ?thesis using yoe era c0 by linarith
qed

lemma startOfUtcDay_clock:
  assumes "0 \<le> now" "now \<le> maxTime"
  shows "startOfUtcDay (Some now) = Some (now div msPerDay * msPerDay)"
proof -
  have z: "0 \<le> now div msPerDay" using assms by (simp add: msPerDay_def pos_imp_zdiv_nonneg_iff)
  obtain y m d where c: "civil_of_day (now div msPerDay) = (y, m, d)"
    by (cases "civil_of_day (now div msPerDay)") auto
  have "1600 \<le> y" using civil_year_after_epoch[OF z] c by simp
  moreover have "now div msPerDay * msPerDay \<le> now" by (simp add: msPerDay_def)
  moreover have "0 \<le> now div msPerDay * msPerDay" using z by (simp add: msPerDay_def)
  ultimately show ?thesis using assms c
    by (simp add: startOfUtcDay_def time_clip_def maxTime_def)
qed

lemma history_loop_closed:
  "t0 \<le> maxTime \<Longrightarrow> - maxTime \<le> t0 - offset * msPerDay \<Longrightarrow>
   history_loop (Some t0) offset acc =
     Inr (acc @ map (\<lambda>k. history_entry (take 10 (iso_string (t0 - k * msPerDay)))) (rev [0..offset]))"
proof (induction "Some t0" offset acc rule: history_loop.induct)
  case (1 offset history)
  show ?case
  proof (cases "0 \<le> offset")
    case False
    then show ?thesis by (simp add: history_loop.simps[of _ offset])
  next
    case True
    have clip: "time_clip (t0 - offset * msPerDay) = Some (t0 - offset * msPerDay)"
      using 1 True by (simp add: time_clip_def msPerDay_def)
    have fmt: "formatUtcDate (setUTCDate_back (Some t0) offset) = Inr (take 10 (iso_string (t0 - offset * msPerDay)))"
      by (simp add: formatUtcDate_def setUTCDate_back_def clip toISOString_def)
    have rng: "- maxTime \<le> t0 - (offset - 1) * msPerDay"
      using 1(3) by (simp add: msPerDay_def algebra_simps)
    have IH: "history_loop (Some t0) (offset - 1) (history @ [history_entry (take 10 (iso_string (t0 - offset * msPerDay)))]) =
       Inr ((history @ [history_entry (take 10 (iso_string (t0 - offset * msPerDay)))]) @
          map (\<lambda>k. history_entry (take 10 (iso_string (t0 - k * msPerDay)))) (rev [0..offset - 1]))"
      using 1(1)[OF True fmt 1(2) rng] .
    have up: "[0..offset] = [0..offset - 1] @ [offset]"
      using True by (simp add: upto_rec2)
    show ?thesis
      by (subst history_loop.simps) (simp add: True fmt IH up)
  qed
qed

lemma rev_upto_nth:
  "0 \<le> n \<Longrightarrow> i < nat (n + 1) \<Longrightarrow> rev [0..n] ! i = n - int i"
  by (simp add: rev_nth)

lemma buildEmptyCommitHistory_closed:
  assumes "0 \<le> now" and "now \<le> maxTime"
    and "days - 1 \<le> now div msPerDay + 100000000"
  shows "buildEmptyCommitHistory days now = Inr (zero_history (now div msPerDay) days)"
proof -
  define D where "D = now div msPerDay"
  have top: "D * msPerDay \<le> maxTime"
  proof -
    have "D * msPerDay \<le> now" by (simp add: D_def msPerDay_def)
    then show ?thesis using assms(2) by linarith
  qed
  have bot: "- maxTime \<le> D * msPerDay - (days - 1) * msPerDay"
  proof -
    have "(days - 1 - D) * msPerDay \<le> 100000000 * msPerDay"
      using assms(3) by (simp add: D_def msPerDay_def)
    then show ?thesis by (simp add: maxTime_def msPerDay_def algebra_simps)
  qed
  have "D * msPerDay - k * msPerDay = (D - k) * msPerDay" for k
    by (simp add: algebra_simps)
  then show ?thesis
    unfolding buildEmptyCommitHistory_def startOfUtcDay_clock[OF assms(1,2)] D_def[symmetric]
    using history_loop_closed[OF top bot, of "[]"]
    by (simp add: utc_date_string_def zero_history_def)
qed


lemma zero_history_length: "0 < days \<Longrightarrow> length (zero_history today days) = nat days"
  by (simp add: zero_history_def)

lemma zero_history_nth:
  assumes "0 < days" and "i < nat days"
  shows "zero_history today days ! i =
           JObj [(''date'', JStr (utc_date_string (today - (days - 1) + int i))),
                 (''commit_count'', JNum 0)]"
proof -
  have r: "rev [0..days - 1] ! i = days - 1 - int i"
    using assms by (intro rev_upto_nth) auto
  have e: "today - (days - 1 - int i) = today - (days - 1) + int i" by simp
  have "zero_history today days ! i = history_entry (utc_date_string (today - (days - 1 - int i)))"
    using assms by (simp add: zero_history_def r)
  then show ?thesis by (simp only: e history_entry_def)
qed

lemma zero_history_last:
  assumes "0 < days"
  shows "last (zero_history today days) =
           JObj [(''date'', JStr (utc_date_string today)), (''commit_count'', JNum 0)]"
proof -
  have len: "length (zero_history today days) = nat days"
    using assms by (rule zero_history_length)
  then have "zero_history today days \<noteq> []" using assms by auto
  then have "last (zero_history today days) = zero_history today days ! (nat days - 1)"
    by (simp add: last_conv_nth len)
  also have "\<dots> = JObj [(''date'', JStr (utc_date_string (today - (days - 1) + int (nat days - 1)))),
                    (''commit_count'', JNum 0)]"
    using assms by (intro zero_history_nth) auto
  also have "today - (days - 1) + int (nat days - 1) = today" using assms by simp
  finally show ?thesis .
qed


lemma div_mod_bounds:
  fixes x k :: int
  assumes "0 < k"
  shows "k * (x div k) \<le> x" and "x < k * (x div k) + k"
proof -
  have "x = k * (x div k) + x mod k" by simp
  moreover have "0 \<le> x mod k" "x mod k < k" using assms by simp_all
  ultimately show "k * (x div k) \<le> x" and "x < k * (x div k) + k" by linarith+
qed

lemma civil_year_upto_9999:
  assumes "0 \<le> z" and "z \<le> 2932896"
  shows "fst (civil_of_day z) \<le> 9999"
proof -
  define w where "w = z + 719468"
  define era where "era = w div 146097"
  define doe where "doe = w mod 146097"
  define a where "a = doe div 1460"
  define b where "b = doe div 36524"
  define c where "c = doe div 146096"
  define N where "N = doe - a + b - c"
  define yoe where "yoe = N div 365"
  define doy where "doy = doe - (365 * yoe + yoe div 4 - yoe div 100)"
  define mp where "mp = (5 * doy + 2) div 153"
  define k where "k = (if (if mp < 10 then mp + 3 else mp - 9) \<le> 2 then 1 else (0::int))"
  have year: "fst (civil_of_day z) = yoe + era * 400 + k"
    unfolding civil_of_day_year Let_def k_def mp_def doy_def yoe_def N_def a_def b_def c_def
      doe_def era_def w_def ..
  have wdoe: "w = 146097 * era + doe" by (simp add: era_def doe_def)
  have doe: "0 \<le> doe" "doe < 146097" by (simp_all add: doe_def)
  have A: "1460 * a \<le> doe" "doe < 1460 * a + 1460"
    unfolding a_def by (rule div_mod_bounds; simp)+
  have B: "36524 * b \<le> doe" "doe < 36524 * b + 36524"
    unfolding b_def by (rule div_mod_bounds; simp)+
  have C: "146096 * c \<le> doe" "doe < 146096 * c + 146096"
    unfolding c_def by (rule div_mod_bounds; simp)+
  have Y: "365 * yoe \<le> N" "N < 365 * yoe + 365"
    unfolding yoe_def by (rule div_mod_bounds; simp)+
  have M: "153 * mp \<le> 5 * doy + 2" "5 * doy + 2 < 153 * mp + 153"
    unfolding mp_def by (rule div_mod_bounds; simp)+
  have k: "0 \<le> k" "k \<le> 1" by (simp_all add: k_def)
  have wr: "719468 \<le> w" "w \<le> 3652364" using assms by (simp_all add: w_def)
  have era: "era \<le> 24" using wdoe doe wr by linarith
  have c0': "0 \<le> c" using C doe by linarith
  have Nle: "N \<le> 145999"
  proof (cases "doe \<le> 145999")
    case True
    have "b \<le> a" unfolding a_def b_def using doe(1) by (intro zdiv_mono2) auto
    then show ?thesis unfolding N_def using True c0' by linarith
  next
    case False
    then have a100: "a = 100" using A doe by linarith
    show ?thesis
    proof (cases "doe = 146096")
      case True
      then have "c = 1" "b \<le> 4" using C B by linarith+
      then show ?thesis unfolding N_def using True a100 by linarith
    next
      case False
      then have "doe \<le> 146095" using doe by linarith
      then have "b \<le> 3" using B by linarith
      then show ?thesis unfolding N_def using \<open>doe \<le> 146095\<close> a100 c0' by linarith
    qed
  qed
  have yoe: "yoe \<le> 399" using Y Nle by linarith
  show ?thesis
  proof (cases "era \<le> 23")
    case True
    then show ?thesis using year yoe k by linarith
  next
    case False
    then have e: "era = 24" using era by linarith
    then have d: "doe \<le> 146036" using wdoe wr by linarith
    show ?thesis
    proof (cases "yoe \<le> 398")
      case True
      then show ?thesis using year e k by linarith
    next
      case False
      then have y: "yoe = 399" using yoe by linarith
      have c0: "c = 0" using C d doe by linarith
      have b3: "b \<le> 3" using B d by linarith
      have lo: "145731 \<le> doe" using Y y A B b3 c0 unfolding N_def by linarith
      have doy: "doy = doe - 145731" by (simp add: doy_def y)
      have "0 \<le> mp" "mp < 10" using M doy lo d by linarith+
      then have "k = 0" by (simp add: k_def)
      then show ?thesis using year e y by linarith
    qed
  qed
qed


lemma is_digit_digit: "is_digit (digit n)"
proof -
  have "nat (n mod 10) < length ''0123456789''" by simp
  then show ?thesis unfolding is_digit_def digit_def by (rule nth_mem)
qed

lemma iso_string_shape:
  assumes "0 \<le> t" and "t \<le> 253402300799999"
  shows "iso8601_utc (iso_string t)"
proof -
  define z where "z = t div msPerDay"
  have z: "0 \<le> z" "z \<le> 2932896"
  proof -
    show "0 \<le> z" using assms(1) by (simp add: z_def msPerDay_def pos_imp_zdiv_nonneg_iff)
    have "t div msPerDay \<le> 253402300799999 div msPerDay"
      using assms(2) by (intro zdiv_mono1) (auto simp: msPerDay_def)
    then show "z \<le> 2932896" by (simp add: z_def msPerDay_def)
  qed
  obtain y m d where c: "civil_of_day z = (y, m, d)" by (cases "civil_of_day z") auto
  have "1600 \<le> y" "y \<le> 9999"
    using civil_year_after_epoch[OF z(1)] civil_year_upto_9999[OF z] c by simp_all
  then have yr: "iso_year y = pad4 y" by (simp add: iso_year_def)
  show ?thesis
    unfolding iso_string_def z_def[symmetric] c
    by (simp add: yr Let_def iso8601_utc_def pad2_def pad3_def pad4_def is_digit_digit)
qed

section \<open>The endpoints: auxiliary facts\<close>

lemmas example_defs =
  example_config_def example_world_def example_server_def example_snapshot_def
  example_Date_parse_def example_JSON_parse_def example_JSON_stringify_def

lemma truthy_meta_fetched_at:
  "truthy (meta_fetched_at cached) \<Longrightarrow> truthy cached"
  by (cases cached) (simp_all add: meta_fetched_at_def opt_prop_def)

lemma refreshCache_builds:
  "refreshPromise s = None \<Longrightarrow>
   builds_started (snd (refreshCache cfg w s)) = Suc (builds_started s)"
  by (simp add: refreshCache_def writeCachedPayload_def Let_def split: sum.splits)

lemma writeCachedPayload_builds:
  "writeCachedPayload w ok p s = Inr s' \<Longrightarrow> builds_started s' = builds_started s"
  by (auto simp: writeCachedPayload_def split: if_splits)

lemma get_dashboard_not_fresh_builds:
  assumes "readCachedPayload w s = Inr cached" and "\<not> isPayloadFresh cfg w cached"
    and "refreshPromise s = None"
  shows "builds_started (snd (get_dashboard cfg w s)) = Suc (builds_started s)"
proof -
  obtain r s1 where rc: "refreshCache cfg w s = (r, s1)" by (cases "refreshCache cfg w s")
  have b: "builds_started s1 = Suc (builds_started s)"
    using refreshCache_builds[OF assms(3), of cfg w] rc by simp
  show ?thesis
    using assms(1,2) rc b
    by (auto simp: get_dashboard_def split: sum.splits dest: writeCachedPayload_builds)
qed

lemma get_dashboard_not_fresh_status:
  assumes "readCachedPayload w s = Inr cached" and "\<not> isPayloadFresh cfg w cached"
    and "fst (get_dashboard cfg w s) = Inr r"
  shows "x_cache_status r \<noteq> Some HIT"
proof -
  obtain q s1 where rc: "refreshCache cfg w s = (q, s1)" by (cases "refreshCache cfg w s")
  show ?thesis
    using assms rc
    by (auto simp: get_dashboard_def split: sum.splits if_splits)
qed

lemma buildFallback_result:
  assumes "buildFallbackPayloadFromSnapshot cfg w snapshot = Inr p" and "p \<noteq> JNull"
  shows "\<exists>user repos history.
           p = buildPayload cfg w user (JArr repos) (JStr []) (JArr history) \<and>
           buildEmptyCommitHistory (normalizedHistoryDays cfg) (clock w) = Inr history"
  using assms
  by (auto simp: buildFallbackPayloadFromSnapshot_def Let_def
           split: json.splits if_splits sum.splits)

lemma buildPayload_meta:
  "lookup (buildPayload cfg w user repos readme history) ''meta'' =
     JObj [(''username'', JStr (GITHUB_USERNAME cfg)),
           (''fetched_at'', JStr (iso_string (clock w))),
           (''source'', JStr ''github-api''),
           (''cache_ttl_minutes'', JNum (normalizedTtlMinutes cfg))]"
  by (simp add: buildPayload_def)

lemma buildPayload_fetched_at:
  "meta_fetched_at (buildPayload cfg w user repos readme history) = JStr (iso_string (clock w))"
  by (simp add: buildPayload_def meta_fetched_at_def opt_prop_def)

lemma example_history:
  "buildEmptyCommitHistory 3 1793620800000 =
     Inr [history_entry ''2026-10-31'', history_entry ''2026-11-01'', history_entry ''2026-11-02'']"
  by code_simp

lemma example_fallback:
  "buildFallbackPayloadFromSnapshot example_config example_world
     (loadRepoSnapshot example_world) = Inr example_fallback_payload \<and>
   example_fallback_payload \<noteq> JNull"
  by code_simp

lemma example_clock_iso: "iso_string (clock example_world) = ''2026-11-02T12:00:00.000Z''"
  by code_simp

lemma assertPositiveInteger_pos: "0 < fallback \<Longrightarrow> 0 < assertPositiveInteger v fallback"
  by (simp add: assertPositiveInteger_def split: option.splits)

lemma normalizedHistoryDays_pos: "0 < normalizedHistoryDays cfg"
  by (simp add: normalizedHistoryDays_def assertPositiveInteger_pos)

lemma normalizedTtlMinutes_pos: "0 < normalizedTtlMinutes cfg"
  by (simp add: normalizedTtlMinutes_def assertPositiveInteger_pos)

lemma map_throwing_normalizeRepo:
  "\<forall>r \<in> set repos. \<not> nullish r \<Longrightarrow> \<exists>normalized. map_throwing normalizeRepo repos = Inr normalized"
  by (induction repos) (auto simp: normalizeRepo_def)

lemma promise_all3_Inl:
  "(\<exists>e. a = Inl e) \<or> (\<exists>e. b = Inl e) \<or> (\<exists>e. c = Inl e) \<Longrightarrow> \<exists>e. promise_all3 n a b c = Inl e"
  by (auto simp: promise_all3_def Let_def split: sum.splits)

lemma promise_all3_Inr:
  "promise_all3 n (Inr x) (Inr y) (Inr z) = Inr (x, y, z)"
  by (simp add: promise_all3_def)

lemma fetchFreshPayload_required_fails:
  assumes "(\<exists>e. user_response w = Inl e) \<or> (\<exists>e. repos_response w = Inl e) \<or>
           (\<exists>e. readme_response w = Inl e)"
  shows "\<exists>e. fetchFreshPayload cfg w = Inl e"
proof -
  obtain e where "promise_all3 (first_rejection w)
                    (user_response w) (repos_response w) (readme_response w) = Inl e"
    using promise_all3_Inl[OF assms] by blast
  then show ?thesis by (simp add: fetchFreshPayload_def)
qed

lemma refreshCache_fails_store:
  assumes "fst (refreshCache cfg w s) = Inl e"
  shows "redisStore (snd (refreshCache cfg w s)) = redisStore s \<and>
         inMemoryCache (snd (refreshCache cfg w s)) = inMemoryCache s"
  using assms
  by (auto simp: refreshCache_def Let_def split: option.splits sum.splits)

lemma refreshCache_build_fails:
  assumes "fetchFreshPayload cfg w = Inl e" and "refreshPromise s = None"
  shows "fst (refreshCache cfg w s) = Inl e"
  using assms by (simp add: refreshCache_def Let_def)

lemma example_utc_dates:
  "utc_date_string 20757 = ''2026-10-31''"
  "utc_date_string 20758 = ''2026-11-01''"
  "utc_date_string 20759 = ''2026-11-02''"
  by code_simp+

lemma fetchFreshPayload_result:
  assumes "fetchFreshPayload cfg w = Inr p"
  shows "\<exists>user repos readme history. p = buildPayload cfg w user repos readme history"
  using assms
  by (auto simp: fetchFreshPayload_def Let_def split: sum.splits json.splits prod.splits)

lemma buildPayload_keys:
  "keys (buildPayload cfg w user repos readme history) =
     [''meta'', ''user'', ''repos'', ''readme'', ''commit_history'']"
  by (simp add: buildPayload_def)

lemma example_fresh:
  "fetchFreshPayload example_config example_world = Inr example_fresh_payload"
  by code_simp

lemma refreshCache_redisClient:
  "redisClient (snd (refreshCache cfg w s)) = redisClient s"
  by (auto simp: refreshCache_def writeCachedPayload_def Let_def split: option.splits sum.splits)

lemma buildFallback_truthy:
  assumes "buildFallbackPayloadFromSnapshot cfg w snapshot = Inr p"
  shows "truthy p \<longleftrightarrow> p \<noteq> JNull"
proof (cases "p = JNull")
  case True
  then show ?thesis by simp
next
  case False
  then obtain user repos history
    where "p = buildPayload cfg w user (JArr repos) (JStr []) (JArr history)"
    using buildFallback_result[OF assms] by blast
  then show ?thesis by (simp add: buildPayload_def)
qed

lemma get_dashboard_after_read:
  assumes "readCachedPayload w s = Inr cached"
    and "\<not> (truthy cached \<and> isPayloadFresh cfg w cached)"
    and "refreshCache cfg w s = (outcome, s1)"
  shows "get_dashboard cfg w s =
     (case outcome of
        Inr fresh \<Rightarrow>
          (Inr \<lparr>status = 200, x_cache_status = Some (if truthy cached then REFRESH else MISS),
                body = fresh\<rparr>, s1)
      | Inl err \<Rightarrow>
          if truthy cached
          then (Inr \<lparr>status = 200, x_cache_status = Some STALE, body = cached\<rparr>, s1)
          else
           (case buildFallbackPayloadFromSnapshot cfg w (loadRepoSnapshot w) of
              Inl e \<Rightarrow> (Inl e, s1)
            | Inr fallbackPayload \<Rightarrow>
                if truthy fallbackPayload
                then
                 (case writeCachedPayload w (fallback_set_ok w) fallbackPayload s1 of
                    Inl e \<Rightarrow> (Inl e, s1)
                  | Inr s2 \<Rightarrow>
                      (Inr \<lparr>status = 200, x_cache_status = Some FALLBACK,
                            body = fallbackPayload\<rparr>, s2))
                else
                 (Inr \<lparr>status = 503, x_cache_status = None,
                       body = message
                         ''Unable to refresh GitHub data cache. Configure GH_API_TOKEN to increase API limits.''\<rparr>,
                  s1)))"
  using assms by (auto simp: get_dashboard_def split: sum.splits)

lemma example_down_refresh:
  "refreshCache example_config example_world_down example_server =
     (Inl (RequestFailed ''500 Internal Server Error''), example_server\<lparr>builds_started := 1\<rparr>)"
  by code_simp

lemma example_down_refresh_stale:
  "refreshCache example_config example_world_down
     (example_server\<lparr>inMemoryCache := example_snapshot ''2026-11-02T11:20:00.000Z''\<rparr>) =
     (Inl (RequestFailed ''500 Internal Server Error''),
      example_server\<lparr>inMemoryCache := example_snapshot ''2026-11-02T11:20:00.000Z'',
                     builds_started := 1\<rparr>)"
  by code_simp

lemma example_down_fallback:
  "buildFallbackPayloadFromSnapshot example_config example_world_down
     (loadRepoSnapshot example_world_down) = Inr example_fallback_payload"
  by code_simp

lemma example_null_file_refresh:
  "refreshCache example_config (example_world_down\<lparr>repos_file := Inr ''[null]''\<rparr>)
     example_server =
     (Inl (RequestFailed ''500 Internal Server Error''), example_server\<lparr>builds_started := 1\<rparr>)"
  by code_simp

lemma example_null_file_fallback:
  "buildFallbackPayloadFromSnapshot example_config
     (example_world_down\<lparr>repos_file := Inr ''[null]''\<rparr>)
     (loadRepoSnapshot (example_world_down\<lparr>repos_file := Inr ''[null]''\<rparr>)) = Inl TypeError"
  by code_simp

lemma refreshCache_write_fails:
  assumes "redisClient s" and "refreshPromise s = None"
    and "fetchFreshPayload cfg w = Inr p" and "\<not> refresh_set_ok w"
  shows "fst (refreshCache cfg w s) = Inl StoreError"
  using assms by (simp add: refreshCache_def writeCachedPayload_def Let_def)

lemma refreshCache_fails_cache_store:
  "fst (refreshCache cfg w s) = Inl e \<Longrightarrow> cache_store (snd (refreshCache cfg w s)) = cache_store s"
  using refreshCache_fails_store[of cfg w s e] by (simp add: cache_store_def)

lemma writeCachedPayload_redisClient:
  "writeCachedPayload w ok p s = Inr s' \<Longrightarrow> redisClient s' = redisClient s"
  by (auto simp: writeCachedPayload_def split: if_splits)

lemma readCachedPayload_cong:
  "redisClient s' = redisClient s \<Longrightarrow> cache_store s' = cache_store s \<Longrightarrow>
   readCachedPayload w s' = readCachedPayload w s"
  by (simp add: readCachedPayload_def cache_store_def)

lemma get_dashboard_store_changes:
  assumes "cache_store (snd (get_dashboard cfg w s)) \<noteq> cache_store s"
  shows "\<exists>r. fst (get_dashboard cfg w s) = Inr r \<and> status r = 200 \<and>
             (x_cache_status r = Some MISS \<or> x_cache_status r = Some REFRESH \<or>
              x_cache_status r = Some FALLBACK)"
proof (cases "readCachedPayload w s")
  case (Inl e)
  then show ?thesis using assms by (simp add: get_dashboard_def)
next
  case (Inr cached)
  show ?thesis
  proof (cases "truthy cached \<and> isPayloadFresh cfg w cached")
    case True
    then show ?thesis using assms Inr by (simp add: get_dashboard_def)
  next
    case False
    obtain outcome s1 where rc: "refreshCache cfg w s = (outcome, s1)"
      by (cases "refreshCache cfg w s")
    note gd = get_dashboard_after_read[OF Inr False rc]
    show ?thesis
    proof (cases outcome)
      case (Inr fresh)
      then show ?thesis by (simp add: gd)
    next
      case (Inl err)
      then have same: "cache_store s1 = cache_store s"
        using refreshCache_fails_cache_store[of cfg w s err] rc by simp
      show ?thesis
        using assms Inl same
        by (auto simp: gd split: if_splits sum.splits)
    qed
  qed
qed

section \<open>The calendar: auxiliary facts\<close>

text \<open>
  The year, month and day that \<open>civil_of_day\<close> reads off a day number are in range,
  \<open>day_of_civil\<close> takes them back to the day number, and in the years 0 to 9999 the
  first ten characters of the ISO string are the date \<^verbatim>\<open>YYYY-MM-DD\<close>, different for
  different days.
\<close>

lemma div_unique_int:
  fixes a k q r :: int
  assumes "a = k * q + r" and "0 \<le> r" and "r < k"
  shows "a div k = q"
  using assms by (rule int_div_pos_eq)

lemma year_of_era:
  fixes doe :: int
  assumes "0 \<le> doe" and "doe < 146097"
  defines "yoe \<equiv> (doe - doe div 1460 + doe div 36524 - doe div 146096) div 365"
  defines "doy \<equiv> doe - (365 * yoe + yoe div 4 - yoe div 100)"
  shows "0 \<le> yoe \<and> yoe \<le> 399 \<and> 0 \<le> doy \<and> doy \<le> 365"
proof (cases "doe = 146096")
  case True
  then show ?thesis by (simp add: yoe_def doy_def)
next
  case False
  then have d: "doe \<le> 146095" using assms(2) by simp
  define b where "b = doe div 36524"
  define r where "r = doe mod 36524"
  define q where "q = r div 1461"
  define s where "s = r mod 1461"
  define e where "e = (if 1460 \<le> 24 * b + q + s then 1 else (0::int))"
  define t where "t = (s - e) div 365"
  have doe: "doe = 36524 * b + r" by (simp add: b_def r_def)
  have r: "0 \<le> r" "r < 36524" by (simp_all add: r_def)
  have rq: "r = 1461 * q + s" by (simp add: q_def s_def)
  have s: "0 \<le> s" "s < 1461" by (simp_all add: s_def)
  have b: "0 \<le> b" "b \<le> 3" using doe r assms(1) d by linarith+
  have q: "0 \<le> q" "q \<le> 24" using rq r s by linarith+
  have e: "0 \<le> e" "e \<le> 1" by (simp_all add: e_def)
  have c0: "doe div 146096 = 0" using assms(1) d by simp
  have a: "doe div 1460 = 25 * b + q + e"
  proof (rule div_unique_int)
    show "doe = 1460 * (25 * b + q + e) + (24 * b + q + s - 1460 * e)"
      unfolding doe rq by (simp add: algebra_simps)
    show "0 \<le> 24 * b + q + s - 1460 * e" using b q s by (simp add: e_def)
    show "24 * b + q + s - 1460 * e < 1460" using b q s by (simp add: e_def)
  qed
  have se: "0 \<le> s - e" "s - e \<le> 1459"
  proof -
    show "0 \<le> s - e" using b q s by (simp add: e_def)
    show "s - e \<le> 1459" using b q s by (auto simp: e_def)
  qed
  have t: "0 \<le> t" "t \<le> 3" "365 * t \<le> s - e" "s - e < 365 * t + 365"
  proof -
    have m: "s - e = 365 * t + (s - e) mod 365" by (simp add: t_def)
    have "0 \<le> (s - e) mod 365" "(s - e) mod 365 < 365" by simp_all
    then show "365 * t \<le> s - e" "s - e < 365 * t + 365" using m by linarith+
    then show "0 \<le> t" "t \<le> 3" using se by linarith+
  qed
  have N: "doe - doe div 1460 + doe div 36524 - doe div 146096 = 365 * (100 * b + 4 * q + t) + ((s - e) - 365 * t)"
    unfolding a c0 b_def[symmetric] unfolding doe rq by (simp add: algebra_simps)
  have yoe: "yoe = 100 * b + 4 * q + t"
    unfolding yoe_def N
  proof (rule div_unique_int[OF refl])
    show "0 \<le> s - e - 365 * t" using t by linarith
    show "s - e - 365 * t < 365" using t by linarith
  qed
  have y4: "yoe div 4 = 25 * b + q"
  proof (rule div_unique_int)
    show "yoe = 4 * (25 * b + q) + t" unfolding yoe by (simp add: algebra_simps)
    show "0 \<le> t" "t < 4" using t by linarith+
  qed
  have y100: "yoe div 100 = b"
  proof (rule div_unique_int)
    show "yoe = 100 * b + (4 * q + t)" unfolding yoe by (simp add: algebra_simps)
    show "0 \<le> 4 * q + t" "4 * q + t < 100" using t q by linarith+
  qed
  have doy: "doy = s - 365 * t"
    unfolding doy_def y4 y100 unfolding yoe doe rq by (simp add: algebra_simps)
  show ?thesis using yoe doy b q t e by (intro conjI) linarith+
qed


lemma civil_of_day_fields:
  obtains era doe yoe doy mp where
    "z + 719468 = 146097 * era + doe" "0 \<le> doe" "doe < 146097"
    "0 \<le> yoe" "yoe \<le> 399" "0 \<le> doy" "doy \<le> 365"
    "doe = 365 * yoe + yoe div 4 - yoe div 100 + doy"
    "153 * mp \<le> 5 * doy + 2" "5 * doy + 2 < 153 * mp + 153"
    "civil_of_day z = (yoe + era * 400 + (if mp < 10 then 0 else 1),
                       (if mp < 10 then mp + 3 else mp - 9),
                       doy - (153 * mp + 2) div 5 + 1)"
proof -
  define era where "era = (z + 719468) div 146097"
  define doe where "doe = (z + 719468) mod 146097"
  define yoe where "yoe = (doe - doe div 1460 + doe div 36524 - doe div 146096) div 365"
  define doy where "doy = doe - (365 * yoe + yoe div 4 - yoe div 100)"
  define mp where "mp = (5 * doy + 2) div 153"
  have doe: "0 \<le> doe" "doe < 146097" by (simp_all add: doe_def)
  have y: "0 \<le> yoe \<and> yoe \<le> 399 \<and> 0 \<le> doy \<and> doy \<le> 365"
    unfolding doy_def yoe_def using doe by (rule year_of_era)
  have M: "153 * mp \<le> 5 * doy + 2" "5 * doy + 2 < 153 * mp + 153"
    unfolding mp_def by (rule div_mod_bounds; simp)+
  have mp: "0 \<le> mp" "mp \<le> 11" using M y by linarith+
  have k: "(if (if mp < 10 then mp + 3 else mp - 9) \<le> 2 then 1 else 0) =
           (if mp < 10 then 0 else (1::int))"
    using mp by auto
  have c: "civil_of_day z = (yoe + era * 400 + (if mp < 10 then 0 else 1),
                       (if mp < 10 then mp + 3 else mp - 9),
                       doy - (153 * mp + 2) div 5 + 1)"
    unfolding civil_of_day_def Let_def
    unfolding era_def[symmetric] doe_def[symmetric]
    unfolding yoe_def[symmetric]
    unfolding doy_def[symmetric]
    unfolding mp_def[symmetric]
    unfolding k ..
  show ?thesis
  proof (rule that[of era doe yoe doy mp])
    show "z + 719468 = 146097 * era + doe" by (simp add: era_def doe_def)
    show "doe = 365 * yoe + yoe div 4 - yoe div 100 + doy" by (simp add: doy_def)
  qed (use doe y M c in simp_all)
qed

lemma civil_of_day_range:
  assumes "civil_of_day z = (y, m, d)"
  shows "1 \<le> m" "m \<le> 12" "1 \<le> d" "d \<le> 31"
proof -
  obtain era yoe doy mp where f:
    "0 \<le> doy" "doy \<le> 365"
    "153 * mp \<le> 5 * doy + 2" "5 * doy + 2 < 153 * mp + 153"
    "civil_of_day z = (yoe + era * 400 + (if mp < 10 then 0 else 1),
                       (if mp < 10 then mp + 3 else mp - 9),
                       doy - (153 * mp + 2) div 5 + 1)"
    by (rule civil_of_day_fields[of z])
  have mp: "0 \<le> mp" "mp \<le> 11" using f(1-4) by linarith+
  have F: "5 * ((153 * mp + 2) div 5) \<le> 153 * mp + 2"
          "153 * mp + 2 < 5 * ((153 * mp + 2) div 5) + 5"
    by (rule div_mod_bounds; simp)+
  have m: "m = (if mp < 10 then mp + 3 else mp - 9)"
    and d: "d = doy - (153 * mp + 2) div 5 + 1"
    using assms f(5) by simp_all
  show "1 \<le> m" "m \<le> 12" using mp by (simp_all add: m)
  show "1 \<le> d" "d \<le> 31" unfolding d using F f(3,4) by linarith+
qed

lemma day_of_civil_of_day: "day_of_civil (civil_of_day z) = z"
proof -
  obtain era doe yoe doy mp where f:
    "z + 719468 = 146097 * era + doe"
    "0 \<le> yoe" "yoe \<le> 399" "0 \<le> doy" "doy \<le> 365"
    "doe = 365 * yoe + yoe div 4 - yoe div 100 + doy"
    "153 * mp \<le> 5 * doy + 2" "5 * doy + 2 < 153 * mp + 153"
    "civil_of_day z = (yoe + era * 400 + (if mp < 10 then 0 else 1),
                       (if mp < 10 then mp + 3 else mp - 9),
                       doy - (153 * mp + 2) div 5 + 1)"
    by (rule civil_of_day_fields[of z])
  have mp: "0 \<le> mp" "mp \<le> 11" using f(4,5,7,8) by linarith+
  define m where "m = (if mp < 10 then mp + 3 else mp - 9)"
  have y': "(if m \<le> 2 then yoe + era * 400 + (if mp < 10 then 0 else 1) - 1
             else yoe + era * 400 + (if mp < 10 then 0 else 1)) = 400 * era + yoe"
    using mp by (simp add: m_def)
  have mp': "(if m > 2 then m - 3 else m + 9) = mp" using mp by (simp add: m_def)
  have e: "(400 * era + yoe) div 400 = era"
    by (rule div_unique_int[OF refl]) (use f(2,3) in linarith)+
  have r: "(400 * era + yoe) mod 400 = yoe"
    using f(2,3) by simp
  have "day_of_civil (civil_of_day z) =
          era * 146097 + (yoe * 365 + yoe div 4 - yoe div 100 +
             ((153 * mp + 2) div 5 + (doy - (153 * mp + 2) div 5 + 1) - 1)) - 719468"
    unfolding f(9) day_of_civil_def prod.case Let_def m_def[symmetric]
    unfolding y' mp' e r ..
  also have "\<dots> = z" using f(1,6) by linarith
  finally show ?thesis .
qed

lemma civil_year_0_to_9999:
  assumes "- 719528 \<le> z" and "z \<le> 2932896"
  shows "0 \<le> fst (civil_of_day z)" and "fst (civil_of_day z) \<le> 9999"
proof -
  obtain era doe yoe doy mp where f:
    "z + 719468 = 146097 * era + doe" "0 \<le> doe" "doe < 146097"
    "0 \<le> yoe" "yoe \<le> 399" "0 \<le> doy" "doy \<le> 365"
    "doe = 365 * yoe + yoe div 4 - yoe div 100 + doy"
    "153 * mp \<le> 5 * doy + 2" "5 * doy + 2 < 153 * mp + 153"
    "civil_of_day z = (yoe + era * 400 + (if mp < 10 then 0 else 1),
                       (if mp < 10 then mp + 3 else mp - 9),
                       doy - (153 * mp + 2) div 5 + 1)"
    by (rule civil_of_day_fields[of z])
  have year: "fst (civil_of_day z) = yoe + era * 400 + (if mp < 10 then 0 else 1)"
    by (simp add: f(11))
  have era: "- 1 \<le> era" "era \<le> 24" using f(1-3) assms by linarith+
  have Q: "4 * (yoe div 4) \<le> yoe" "yoe < 4 * (yoe div 4) + 4"
    by (rule div_mod_bounds; simp)+
  have H: "100 * (yoe div 100) \<le> yoe" "yoe < 100 * (yoe div 100) + 100"
    by (rule div_mod_bounds; simp)+
  show "0 \<le> fst (civil_of_day z)"
  proof (cases "0 \<le> era")
    case True
    then show ?thesis unfolding year using f(4) by simp
  next
    case False
    then have e: "era = - 1" using era by linarith
    then have lo: "146037 \<le> doe" using f(1) assms(1) by linarith
    have "yoe = 399"
    proof (rule ccontr)
      assume "yoe \<noteq> 399"
      then have "yoe \<le> 398" using f(5) by linarith
      then show False using lo f(7,8) Q H f(4) by linarith
    qed
    moreover from this have "doy = doe - 145731" using f(8) by simp
    then have "10 \<le> mp" using lo f(10) by linarith
    ultimately show ?thesis unfolding year e by simp
  qed
  show "fst (civil_of_day z) \<le> 9999"
  proof (cases "era \<le> 23")
    case True
    then show ?thesis unfolding year using f(5) by simp
  next
    case False
    then have e: "era = 24" using era by linarith
    then have hi: "doe \<le> 146036" using f(1) assms(2) by linarith
    show ?thesis
    proof (cases "yoe = 399")
      case True
      then have "doy = doe - 145731" using f(8) by simp
      then have "mp < 10" using hi f(9) by linarith
      then show ?thesis unfolding year e True by simp
    next
      case False
      then have "yoe \<le> 398" using f(5) by linarith
      then show ?thesis unfolding year e by simp
    qed
  qed
qed

lemma digit_inj: "digit a = digit b \<Longrightarrow> a mod 10 = b mod 10"
proof -
  assume "digit a = digit b"
  moreover have "distinct ''0123456789''" by simp
  moreover have "nat (a mod 10) < length ''0123456789''" "nat (b mod 10) < length ''0123456789''"
    by simp_all
  ultimately have "nat (a mod 10) = nat (b mod 10)"
    unfolding digit_def by (simp only: nth_eq_iff_index_eq)
  then show ?thesis by simp
qed

lemma pad2_inj:
  assumes "pad2 a = pad2 b" and "0 \<le> a" "a \<le> 99" "0 \<le> b" "b \<le> 99"
  shows "a = b"
proof -
  have dd: "digit a = digit b" "digit (a div 10) = digit (b div 10)"
    using assms(1) by (simp_all add: pad2_def)
  have 1: "a mod 10 = b mod 10" using dd(1) by (rule digit_inj)
  have 2: "a div 10 mod 10 = b div 10 mod 10" using dd(2) by (rule digit_inj)
  have "a div 10 = b div 10" using 2 assms(2-5) by simp
  moreover have "a = 10 * (a div 10) + a mod 10" "b = 10 * (b div 10) + b mod 10" by simp_all
  ultimately show ?thesis using 1 by linarith
qed

lemma pad4_pad2: "pad4 n = pad2 (n div 100) @ pad2 n"
proof -
  have "n div 100 div 10 = n div 1000" by (simp add: zdiv_zmult2_eq[symmetric])
  then show ?thesis unfolding pad4_def pad2_def by simp
qed

lemma pad4_inj:
  assumes "pad4 a = pad4 b" and "0 \<le> a" "a \<le> 9999" "0 \<le> b" "b \<le> 9999"
  shows "a = b"
proof -
  have lo: "pad2 (a mod 100) = pad2 (b mod 100)" and hi: "pad2 (a div 100) = pad2 (b div 100)"
  proof -
    have e: "pad2 (n mod 100) = pad2 n" for n
    proof -
      have m: "n mod 100 = 10 * (n div 10 mod 10) + n mod 10"
        using zmod_zmult2_eq[of 10 n 10] by simp
      have "n mod 100 div 10 = n div 10 mod 10"
        unfolding m by (rule div_unique_int[OF refl]) simp_all
      moreover have "digit (n mod 100) = digit n"
      proof -
        have "n mod 100 mod 10 = n mod 10" unfolding m by simp
        then show ?thesis unfolding digit_def by (simp only:)
      qed
      ultimately show ?thesis
        unfolding pad2_def by (simp add: digit_def)
    qed
    from assms(1) have "pad2 (a div 100) @ pad2 a = pad2 (b div 100) @ pad2 b"
      by (simp only: pad4_pad2)
    then have "pad2 (a div 100) = pad2 (b div 100) \<and> pad2 a = pad2 b"
      by (simp add: pad2_def)
    then show "pad2 (a mod 100) = pad2 (b mod 100)" "pad2 (a div 100) = pad2 (b div 100)"
      by (simp_all only: e)
  qed
  have "a mod 100 = b mod 100" by (rule pad2_inj[OF lo]) simp_all
  moreover have "a div 100 = b div 100"
    using hi assms(2-5) by (intro pad2_inj) simp_all
  moreover have "a = 100 * (a div 100) + a mod 100" "b = 100 * (b div 100) + b mod 100"
    by simp_all
  ultimately show ?thesis by linarith
qed

lemma utc_date_string_civil:
  assumes "civil_of_day z = (y, m, d)" and "0 \<le> y" "y \<le> 9999"
  shows "utc_date_string z = pad4 y @ ''-'' @ pad2 m @ ''-'' @ pad2 d"
proof -
  have "z * msPerDay div msPerDay = z" by (simp add: msPerDay_def)
  then show ?thesis
    unfolding utc_date_string_def iso_string_def
    using assms by (simp add: iso_year_def Let_def pad4_def pad2_def)
qed

lemma utc_date_string_inj:
  assumes "utc_date_string a = utc_date_string b"
    and "- 719528 \<le> a" "a \<le> 2932896" "- 719528 \<le> b" "b \<le> 2932896"
  shows "a = b"
proof -
  obtain y m d where ca: "civil_of_day a = (y, m, d)" by (cases "civil_of_day a") auto
  obtain y' m' d' where cb: "civil_of_day b = (y', m', d')" by (cases "civil_of_day b") auto
  have ya: "0 \<le> y" "y \<le> 9999" using civil_year_0_to_9999[OF assms(2,3)] ca by simp_all
  have yb: "0 \<le> y'" "y' \<le> 9999" using civil_year_0_to_9999[OF assms(4,5)] cb by simp_all
  note ra = civil_of_day_range[OF ca] and rb = civil_of_day_range[OF cb]
  have "pad4 y @ ''-'' @ pad2 m @ ''-'' @ pad2 d = pad4 y' @ ''-'' @ pad2 m' @ ''-'' @ pad2 d'"
    using assms(1) by (simp only: utc_date_string_civil[OF ca ya] utc_date_string_civil[OF cb yb])
  then have "pad4 y = pad4 y'" "pad2 m = pad2 m'" "pad2 d = pad2 d'"
    by (simp_all add: pad4_def pad2_def)
  then have "y = y'" "m = m'" "d = d'"
    using ya yb ra rb by (auto intro: pad4_inj pad2_inj)
  then have "civil_of_day a = civil_of_day b" using ca cb by simp
  then have "day_of_civil (civil_of_day a) = day_of_civil (civil_of_day b)" by simp
  then show ?thesis by (simp only: day_of_civil_of_day)
qed

lemma zero_history_dates_distinct:
  assumes "0 < days" and "today \<le> 2932896" and "days - 1 \<le> today + 719528"
  shows "distinct (map (\<lambda>e. lookup e ''date'') (zero_history today days))"
proof -
  have len: "length (zero_history today days) = nat days"
    using assms(1) by (rule zero_history_length)
  have nth: "lookup (zero_history today days ! i) ''date'' =
               JStr (utc_date_string (today - (days - 1) + int i))" if "i < nat days" for i
    by (simp add: zero_history_nth[OF assms(1) that])
  show ?thesis
  proof (subst distinct_conv_nth, intro allI impI)
    fix i j
    assume i: "i < length (map (\<lambda>e. lookup e ''date'') (zero_history today days))"
      and j: "j < length (map (\<lambda>e. lookup e ''date'') (zero_history today days))"
      and ne: "i \<noteq> j"
    have i': "i < nat days" and j': "j < nat days" using i j by (simp_all add: len)
    show "map (\<lambda>e. lookup e ''date'') (zero_history today days) ! i \<noteq>
          map (\<lambda>e. lookup e ''date'') (zero_history today days) ! j"
    proof
      assume "map (\<lambda>e. lookup e ''date'') (zero_history today days) ! i =
              map (\<lambda>e. lookup e ''date'') (zero_history today days) ! j"
      then have "utc_date_string (today - (days - 1) + int i) =
                 utc_date_string (today - (days - 1) + int j)"
        using i' j' by (simp add: len nth)
      then have "today - (days - 1) + int i = today - (days - 1) + int j"
        using assms i' j' by (intro utc_date_string_inj) linarith+
      then show False using ne by simp
    qed
  qed
qed



section \<open>The snapshot builder: auxiliary facts\<close>

lemma buildEmptyCommitHistory_fails:
  assumes "0 \<le> now" and "now \<le> maxTime"
    and "now div msPerDay + 100000000 < days - 1"
  shows "buildEmptyCommitHistory days now = Inl RangeError"
proof -
  define D where "D = now div msPerDay"
  have D: "0 \<le> D" using assms(1) by (simp add: D_def msPerDay_def pos_imp_zdiv_nonneg_iff)
  have off: "0 \<le> days - 1" using assms(3) D unfolding D_def by linarith
  have pos: "0 < days" using off by linarith
  have "D + 100000000 < days - 1" using assms(3) by (simp add: D_def)
  then have "(D + 100000000) * msPerDay < (days - 1) * msPerDay"
    by (rule mult_strict_right_mono) (simp add: msPerDay_def)
  then have "D * msPerDay - (days - 1) * msPerDay < - maxTime"
    by (simp add: maxTime_def msPerDay_def algebra_simps)
  then have clip: "time_clip (D * msPerDay - (days - 1) * msPerDay) = None"
    by (simp add: time_clip_def)
  show ?thesis
    unfolding buildEmptyCommitHistory_def startOfUtcDay_clock[OF assms(1,2)] D_def[symmetric]
    by (subst history_loop.simps)
       (simp add: off pos formatUtcDate_def toISOString_def setUTCDate_back_def clip)
qed

lemma map_throwing_nullish:
  "\<exists>r \<in> set repos. nullish r \<Longrightarrow> \<exists>e. map_throwing normalizeRepo repos = Inl e"
proof (induction repos)
  case Nil
  then show ?case by simp
next
  case (Cons a repos)
  show ?case
  proof (cases "nullish a")
    case True
    then show ?thesis by (simp add: normalizeRepo_def)
  next
    case False
    then have "\<exists>r \<in> set repos. nullish r" using Cons.prems by auto
    then obtain e where "map_throwing normalizeRepo repos = Inl e" using Cons.IH by blast
    then show ?thesis by (simp split: sum.splits)
  qed
qed

lemma readme_content_unusable:
  "lookup d ''encoding'' \<noteq> JStr ''base64'' \<or> (\<forall>c. lookup d ''content'' \<noteq> JStr c) \<Longrightarrow>
   \<exists>e. readme_content d = Inl e"
  by (cases "lookup d ''content''") (auto simp: readme_content_def get_prop_def)

lemma fetchFreshPayload_cases:
  assumes "user_response w = Inr u" "repos_response w = Inr r" "readme_response w = Inr d"
  shows "fetchFreshPayload cfg w =
     (case r of
        JArr reposList \<Rightarrow>
          (case readme_content d of
             Inl e \<Rightarrow> Inl e
           | Inr content \<Rightarrow>
               (case buildEmptyCommitHistory (normalizedHistoryDays cfg) (clock w) of
                  Inl e \<Rightarrow> Inl e
                | Inr emptyHistory \<Rightarrow>
                    (case map_throwing normalizeRepo reposList of
                       Inl e \<Rightarrow> Inl e
                     | Inr normalized \<Rightarrow>
                         (case normalizeUser u of
                            Inl e \<Rightarrow> Inl e
                          | Inr user \<Rightarrow>
                              Inr (buildPayload cfg w user
                                    (JArr (sort_by_pushed_at w normalized))
                                    (JStr (sanitizeReadmeContent w (decodeBase64Utf8 w content)))
                                    (case commit_history_response w of
                                       Inl e \<Rightarrow> JArr emptyHistory
                                     | Inr fetched \<Rightarrow> fetched))))))
      | _ \<Rightarrow> Inl InvalidReposResponse)"
  unfolding fetchFreshPayload_def Let_def assms promise_all3_Inr by simp

lemma fetchFreshPayload_unusable:
  assumes "(\<exists>u. user_response w = Inr u \<and> nullish u) \<or>
           (\<exists>r. repos_response w = Inr r \<and> \<not> isArray r) \<or>
           (\<exists>rs. repos_response w = Inr (JArr rs) \<and> (\<exists>r \<in> set rs. nullish r)) \<or>
           (\<exists>d. readme_response w = Inr d \<and>
              (lookup d ''encoding'' \<noteq> JStr ''base64'' \<or> (\<forall>c. lookup d ''content'' \<noteq> JStr c)))"
  shows "\<exists>e. fetchFreshPayload cfg w = Inl e"
proof (cases "(\<exists>e. user_response w = Inl e) \<or> (\<exists>e. repos_response w = Inl e) \<or>
           (\<exists>e. readme_response w = Inl e)")
  case True
  then show ?thesis by (rule fetchFreshPayload_required_fails)
next
  case False
  then obtain u r d where ok: "user_response w = Inr u" "repos_response w = Inr r"
    "readme_response w = Inr d"
    by (metis sum.exhaust)
  note c = fetchFreshPayload_cases[OF ok, of cfg]
  from assms consider "nullish u" | "\<not> isArray r" | rs where "r = JArr rs" "\<exists>x \<in> set rs. nullish x"
    | "lookup d ''encoding'' \<noteq> JStr ''base64'' \<or> (\<forall>c. lookup d ''content'' \<noteq> JStr c)"
    using ok by auto
  then show ?thesis
  proof cases
    case 1
    then have "normalizeUser u = Inl TypeError" by (simp add: normalizeUser_def)
    then show ?thesis unfolding c by (simp split: json.splits sum.splits)
  next
    case 2
    then show ?thesis unfolding c by (cases r) simp_all
  next
    case 3
    then obtain e where "map_throwing normalizeRepo rs = Inl e"
      using map_throwing_nullish by blast
    then show ?thesis unfolding c by (simp add: 3(1) split: sum.splits)
  next
    case 4
    then obtain e where "readme_content d = Inl e" using readme_content_unusable by blast
    then show ?thesis unfolding c by (simp split: json.splits)
  qed
qed

lemma fetchFreshPayload_too_long:
  assumes "0 \<le> clock w" and "clock w \<le> maxTime"
    and "clock w div msPerDay + 100000000 < normalizedHistoryDays cfg - 1"
  shows "\<exists>e. fetchFreshPayload cfg w = Inl e"
proof (cases "(\<exists>e. user_response w = Inl e) \<or> (\<exists>e. repos_response w = Inl e) \<or>
           (\<exists>e. readme_response w = Inl e)")
  case True
  then show ?thesis by (rule fetchFreshPayload_required_fails)
next
  case False
  then obtain u r d where ok: "user_response w = Inr u" "repos_response w = Inr r"
    "readme_response w = Inr d"
    by (metis sum.exhaust)
  have h: "buildEmptyCommitHistory (normalizedHistoryDays cfg) (clock w) = Inl RangeError"
    using assms by (rule buildEmptyCommitHistory_fails)
  show ?thesis
    unfolding fetchFreshPayload_cases[OF ok, of cfg] by (simp add: h split: json.splits sum.splits)
qed

lemma fetchFreshPayload_usable:
  assumes u: "user_response w = Inr user" "\<not> nullish user"
    and r: "repos_response w = Inr (JArr repos)" "\<forall>r \<in> set repos. \<not> nullish r"
    and d: "readme_response w = Inr readme" "lookup readme ''encoding'' = JStr ''base64''"
           "lookup readme ''content'' = JStr content"
    and c: "commit_history_response w = Inl e"
    and h: "buildEmptyCommitHistory (normalizedHistoryDays cfg) (clock w) = Inr history"
  shows "\<exists>x ns. normalizeUser user = Inr x \<and> map_throwing normalizeRepo repos = Inr ns \<and>
           fetchFreshPayload cfg w =
             Inr (buildPayload cfg w x (JArr (sort_by_pushed_at w ns))
                    (JStr (sanitizeReadmeContent w (decodeBase64Utf8 w content)))
                    (JArr history))"
proof -
  obtain ns where n: "map_throwing normalizeRepo repos = Inr ns"
    using map_throwing_normalizeRepo[OF r(2)] by blast
  have rd: "readme_content readme = Inr content"
  proof -
    have "\<not> nullish readme" using d(2) by (cases readme) auto
    then show ?thesis using d(2,3) by (simp add: readme_content_def get_prop_def)
  qed
  obtain x where x: "normalizeUser user = Inr x" using u(2) by (simp add: normalizeUser_def)
  show ?thesis
    unfolding fetchFreshPayload_cases[OF u(1) r(1) d(1), of cfg]
    by (simp add: rd h c n x)
qed



section \<open>C1: one refresh in flight\<close>

text \<open>
  The run of one caller with nobody in between, as the endpoints above use it, is one
  schedule of the machine: call, the build settles, the write settles, resume.
\<close>

lemma refreshCache_is_a_run:
  fixes s :: "(error + json) server" and w cfg c origin
  assumes "refreshPromise s = None"
  defines "m \<equiv> run w [Call c origin, FetchSettles 0 (fetchFreshPayload cfg w),
                        WriteSettles 0 (refresh_set_ok w), Resume c] (at_rest s)"
  shows "callers m c = Returned 0 (fst (refreshCache cfg w s)) \<and>
         redisStore (srv m) = redisStore (snd (refreshCache cfg w s)) \<and>
         inMemoryCache (srv m) = inMemoryCache (snd (refreshCache cfg w s)) \<and>
         builds_started (srv m) = builds_started (snd (refreshCache cfg w s)) \<and>
         refreshPromise (srv m) = None \<and> refreshPromise (snd (refreshCache cfg w s)) = None"
proof (cases "fetchFreshPayload cfg w")
  case (Inl e)
  then show ?thesis
    using assms(1) unfolding m_def
    by (simp add: at_rest_def refreshCache_def Let_def)
next
  case (Inr payload)
  then show ?thesis
    using assms(1) unfolding m_def
    by (cases "redisClient s"; cases "refresh_set_ok w")
       (simp_all add: at_rest_def refreshCache_def writeCachedPayload_def Let_def)
qed

text \<open>The invariant holds at startup and every event keeps it.\<close>

lemma single_flight_boot: "single_flight (boot redis stored cache)"
  by (simp add: single_flight_def boot_def)

lemma step_Call_new:
  assumes "callers m c = NotCalled" and "refreshPromise (srv m) = None"
  shows "step w (Call c origin) m =
           m\<lparr>srv := (srv m)\<lparr>refreshPromise := Some (length (promises m)),
                             builds_started := Suc (builds_started (srv m))\<rparr>,
             promises := promises m @ [Fetching],
             callers := (callers m)(c := Awaiting (length (promises m)) Initiator)\<rparr>"
  using assms by simp

lemma step_Call_join:
  assumes "callers m c = NotCalled" and "refreshPromise (srv m) = Some p"
  shows "step w (Call c origin) m = m\<lparr>callers := (callers m)(c := Awaiting p Joiner)\<rparr>"
  using assms by simp

lemma step_Call_ignored:
  assumes "callers m c \<noteq> NotCalled"
  shows "step w (Call c origin) m = m"
  using assms by (cases "callers m c") simp_all

lemma single_flight_Call:
  assumes inv: "single_flight m"
  shows "single_flight (step w (Call c origin) m)"
proof (cases "callers m c = NotCalled")
  case False
  show ?thesis unfolding step_Call_ignored[OF False] by (rule inv)
next
  case True
  define m' where "m' = step w (Call c origin) m"
  define n where "n = length (promises m)"
  show ?thesis
  proof (cases "refreshPromise (srv m)")
    case (Some p)
    have st: "srv m' = srv m" "promises m' = promises m"
      "callers m' = (callers m)(c := Awaiting p Joiner)"
      unfolding m'_def step_Call_join[OF True Some] by simp_all
    have p: "p < length (promises m)"
      using inv Some unfolding single_flight_def by blast
    have other: "callers m' ca = callers m ca" if "ca \<noteq> c" for ca
      using that by (simp add: st)
    have self: "callers m' c = Awaiting p Joiner" by (simp add: st)
    have "single_flight m'"
      unfolding single_flight_def st(1,2)
    proof (intro conjI allI impI)
      fix q assume "q < length (promises m)" "in_flight (promises m ! q)"
      then show "refreshPromise (srv m) = Some q"
        using inv unfolding single_flight_def by blast
    next
      fix ca q assume a: "callers m' ca = Awaiting q Initiator"
      then have "ca \<noteq> c" using self by auto
      then have "callers m ca = Awaiting q Initiator" using a other by simp
      then show "refreshPromise (srv m) = Some q"
        using inv unfolding single_flight_def by blast
    next
      fix ca c' q q'
      assume a: "callers m' ca = Awaiting q Initiator \<and> callers m' c' = Awaiting q' Initiator"
      then have "ca \<noteq> c" "c' \<noteq> c" using self by auto
      then have "callers m ca = Awaiting q Initiator \<and> callers m c' = Awaiting q' Initiator"
        using a other by simp
      then show "ca = c'" using inv unfolding single_flight_def by blast
    next
      fix q assume "refreshPromise (srv m) = Some q"
      then obtain c' where c': "callers m c' = Awaiting q Initiator" and q: "q < length (promises m)"
        using inv unfolding single_flight_def by blast
      have "c' \<noteq> c" using c' True by auto
      then have "callers m' c' = Awaiting q Initiator" using c' other by simp
      then show "q < length (promises m)" "\<exists>c. callers m' c = Awaiting q Initiator"
        using q by blast+
    next
      fix ca q r assume a: "callers m' ca = Awaiting q r"
      show "q < length (promises m)"
      proof (cases "ca = c")
        case True
        then show ?thesis using a self p by simp
      next
        case False
        then have "callers m ca = Awaiting q r" using a other by simp
        then show ?thesis using inv unfolding single_flight_def by blast
      qed
    next
      fix ca q res assume a: "callers m' ca = Returned q res"
      then have "ca \<noteq> c" using self by auto
      then have "callers m ca = Returned q res" using a other by simp
      then show "q < length (promises m)" "settled (promises m ! q) = Some res"
        using inv unfolding single_flight_def by blast+
    next
      show "builds_started (srv m) = length (promises m)"
        using inv unfolding single_flight_def by blast
    qed
    then show ?thesis by (simp only: m'_def)
  next
    case None
    have st: "refreshPromise (srv m') = Some n"
      "builds_started (srv m') = Suc (builds_started (srv m))"
      "promises m' = promises m @ [Fetching]"
      "callers m' = (callers m)(c := Awaiting n Initiator)"
      unfolding m'_def n_def step_Call_new[OF True None] by simp_all
    have idle: "\<not> in_flight (promises m ! q)" if "q < n" for q
      using inv that None unfolding single_flight_def n_def by auto
    have nobody: "callers m ca \<noteq> Awaiting q Initiator" for ca q
      using inv None unfolding single_flight_def by auto
    have other: "callers m' ca = callers m ca" if "ca \<noteq> c" for ca
      using that by (simp add: st)
    have self: "callers m' c = Awaiting n Initiator" by (simp add: st)
    have old: "promises m' ! q = promises m ! q" if "q < n" for q
      using that by (simp add: st nth_append n_def)
    have len: "length (promises m') = Suc n" by (simp add: st n_def)
    have "single_flight m'"
      unfolding single_flight_def len st(1,2)
    proof (intro conjI allI impI)
      fix q assume q: "q < Suc n" "in_flight (promises m' ! q)"
      have "\<not> q < n" using q(2) old idle by auto
      then show "Some n = Some q" using q(1) by simp
    next
      fix ca q assume a: "callers m' ca = Awaiting q Initiator"
      have "ca = c" using a other nobody by (cases "ca = c") auto
      then show "Some n = Some q" using a self by simp
    next
      fix ca c' q q'
      assume a: "callers m' ca = Awaiting q Initiator \<and> callers m' c' = Awaiting q' Initiator"
      have "ca = c" using a other nobody by (cases "ca = c") auto
      moreover have "c' = c" using a other nobody by (cases "c' = c") auto
      ultimately show "ca = c'" by simp
    next
      fix q assume "Some n = Some q"
      then have "q = n" by simp
      then show "q < Suc n" "\<exists>c. callers m' c = Awaiting q Initiator"
        using self by auto
    next
      fix ca q r assume a: "callers m' ca = Awaiting q r"
      show "q < Suc n"
      proof (cases "ca = c")
        case True
        then show ?thesis using a self by simp
      next
        case False
        then have "callers m ca = Awaiting q r" using a other by simp
        then have "q < n" using inv unfolding single_flight_def n_def by blast
        then show ?thesis by simp
      qed
    next
      fix ca q res assume a: "callers m' ca = Returned q res"
      then have "ca \<noteq> c" using self by auto
      then have "callers m ca = Returned q res" using a other by simp
      then have r: "q < n" "settled (promises m ! q) = Some res"
        using inv unfolding single_flight_def n_def by blast+
      show "q < Suc n" using r(1) by simp
      show "settled (promises m' ! q) = Some res" using r old by simp
    next
      show "Suc (builds_started (srv m)) = Suc n"
        using inv unfolding single_flight_def n_def by simp
    qed
    then show ?thesis by (simp only: m'_def)
  qed
qed

lemma in_flight_settled: "in_flight q \<longleftrightarrow> settled q = None"
  by (cases q) simp_all

text \<open>
  A step of a promise's body: the callers, the handle and the number of promises stay,
  no promise comes into flight and no settled promise changes.
\<close>

lemma single_flight_body_step:
  assumes inv: "single_flight m"
    and c: "callers m' = callers m"
    and h: "refreshPromise (srv m') = refreshPromise (srv m)"
    and b: "builds_started (srv m') = builds_started (srv m)"
    and l: "length (promises m') = length (promises m)"
    and f: "\<And>q. q < length (promises m) \<Longrightarrow> in_flight (promises m' ! q) \<Longrightarrow>
              in_flight (promises m ! q)"
    and s: "\<And>q r. q < length (promises m) \<Longrightarrow> settled (promises m ! q) = Some r \<Longrightarrow>
              settled (promises m' ! q) = Some r"
  shows "single_flight m'"
  unfolding single_flight_def c h b l
proof (intro conjI allI impI)
  fix p assume "p < length (promises m)" "in_flight (promises m' ! p)"
  then have "in_flight (promises m ! p)" by (rule f)
  then show "refreshPromise (srv m) = Some p"
    using inv \<open>p < length (promises m)\<close> unfolding single_flight_def by blast
next
  fix ca p assume "callers m ca = Awaiting p Initiator"
  then show "refreshPromise (srv m) = Some p"
    using inv unfolding single_flight_def by blast
next
  fix ca c' p p'
  assume "callers m ca = Awaiting p Initiator \<and> callers m c' = Awaiting p' Initiator"
  then show "ca = c'" using inv unfolding single_flight_def by blast
next
  fix p assume "refreshPromise (srv m) = Some p"
  then show "p < length (promises m)" "\<exists>c. callers m c = Awaiting p Initiator"
    using inv unfolding single_flight_def by blast+
next
  fix ca p r assume "callers m ca = Awaiting p r"
  then show "p < length (promises m)" using inv unfolding single_flight_def by blast
next
  fix ca p result assume a: "callers m ca = Returned p result"
  then have p: "p < length (promises m)" "settled (promises m ! p) = Some result"
    using inv unfolding single_flight_def by blast+
  show "p < length (promises m)" by (rule p(1))
  show "settled (promises m' ! p) = Some result" using p by (rule s)
next
  show "builds_started (srv m) = length (promises m)"
    using inv unfolding single_flight_def by blast
qed

lemma single_flight_FetchSettles:
  assumes "single_flight m"
  shows "single_flight (step w (FetchSettles p result) m)"
proof (cases "p < length (promises m) \<and> promises m ! p = Fetching")
  case False
  then have "step w (FetchSettles p result) m = m" by auto
  then show ?thesis using assms by simp
next
  case True
  then have old: "settled (promises m ! p) = None" by simp
  show ?thesis
  proof (rule single_flight_body_step[OF assms])
    show "callers (step w (FetchSettles p result) m) = callers m"
      by (simp split: sum.splits)
    show "refreshPromise (srv (step w (FetchSettles p result) m)) = refreshPromise (srv m)"
      by (simp split: sum.splits)
    show "builds_started (srv (step w (FetchSettles p result) m)) = builds_started (srv m)"
      by (simp split: sum.splits)
    show "length (promises (step w (FetchSettles p result) m)) = length (promises m)"
      by (simp split: sum.splits)
    show "in_flight (promises m ! q)"
      if "q < length (promises m)" "in_flight (promises (step w (FetchSettles p result) m) ! q)"
      for q
      using that True by (cases "q = p") (auto simp: nth_list_update split: sum.splits if_splits)
    show "settled (promises (step w (FetchSettles p result) m) ! q) = Some r"
      if "q < length (promises m)" "settled (promises m ! q) = Some r" for q r
      using that True old
      by (cases "q = p") (auto simp: nth_list_update split: sum.splits if_splits)
  qed
qed

lemma single_flight_WriteSettles:
  assumes "single_flight m"
  shows "single_flight (step w (WriteSettles p ok) m)"
proof (cases "p < length (promises m) \<and> (\<exists>payload. promises m ! p = Writing payload)")
  case False
  then have "step w (WriteSettles p ok) m = m" by (auto split: promise_state.splits)
  then show ?thesis using assms by simp
next
  case True
  then obtain payload where wr: "promises m ! p = Writing payload" and len: "p < length (promises m)"
    by blast
  then have old: "settled (promises m ! p) = None" by simp
  show ?thesis
  proof (rule single_flight_body_step[OF assms])
    show "callers (step w (WriteSettles p ok) m) = callers m"
      by (simp split: promise_state.splits)
    show "refreshPromise (srv (step w (WriteSettles p ok) m)) = refreshPromise (srv m)"
      by (simp split: promise_state.splits)
    show "builds_started (srv (step w (WriteSettles p ok) m)) = builds_started (srv m)"
      by (simp split: promise_state.splits)
    show "length (promises (step w (WriteSettles p ok) m)) = length (promises m)"
      by (simp split: promise_state.splits)
    show "in_flight (promises m ! q)"
      if "q < length (promises m)" "in_flight (promises (step w (WriteSettles p ok) m) ! q)"
      for q
      using that wr len by (cases "q = p") (auto simp: nth_list_update split: if_splits)
    show "settled (promises (step w (WriteSettles p ok) m) ! q) = Some r"
      if "q < length (promises m)" "settled (promises m ! q) = Some r" for q r
      using that wr len old by (cases "q = p") (auto simp: nth_list_update split: if_splits)
  qed
qed

lemma single_flight_Resume:
  assumes inv: "single_flight m"
  shows "single_flight (step w (Resume c) m)"
proof (cases "callers m c")
  case NotCalled
  then have "step w (Resume c) m = m" by simp
  then show ?thesis using inv by simp
next
  case (Returned p result)
  then have "step w (Resume c) m = m" by simp
  then show ?thesis using inv by simp
next
  case (Awaiting p role)
  have len: "p < length (promises m)"
    using inv Awaiting unfolding single_flight_def by blast
  show ?thesis
  proof (cases "settled (promises m ! p)")
    case None
    then have "step w (Resume c) m = m" using Awaiting by simp
    then show ?thesis using inv by simp
  next
    case (Some result)
    define m' where "m' = step w (Resume c) m"
    have pr: "promises m' = promises m"
      and cl: "callers m' = (callers m)(c := Returned p result)"
      and bs: "builds_started (srv m') = builds_started (srv m)"
      and hd: "refreshPromise (srv m') = (if role = Initiator then None else refreshPromise (srv m))"
      using Awaiting len Some by (simp_all add: m'_def)
    have other: "callers m ca = callers m' ca" if "ca \<noteq> c" for ca
      using that by (simp add: cl)
    have self: "callers m' c = Returned p result" by (simp add: cl)
    have aw: "ca \<noteq> c \<and> callers m ca = Awaiting q r" if "callers m' ca = Awaiting q r" for ca q r
      using that self other by (cases "ca = c") auto
    have "single_flight m'"
      unfolding single_flight_def pr bs
    proof (intro conjI allI impI)
      fix q assume q: "q < length (promises m)" "in_flight (promises m ! q)"
      then have h: "refreshPromise (srv m) = Some q"
        using inv unfolding single_flight_def by blast
      have "role \<noteq> Initiator"
      proof
        assume "role = Initiator"
        then have "refreshPromise (srv m) = Some p"
          using inv Awaiting unfolding single_flight_def by blast
        then have "q = p" using h by simp
        then show False using q(2) Some by (simp add: in_flight_settled)
      qed
      then show "refreshPromise (srv m') = Some q" using h by (simp add: hd)
    next
      fix ca q assume "callers m' ca = Awaiting q Initiator"
      then have d: "ca \<noteq> c" "callers m ca = Awaiting q Initiator" using aw by blast+
      then have h: "refreshPromise (srv m) = Some q"
        using inv unfolding single_flight_def by blast
      have "role \<noteq> Initiator"
      proof
        assume "role = Initiator"
        then have "ca = c"
          using inv Awaiting d(2) unfolding single_flight_def by blast
        then show False using d(1) by simp
      qed
      then show "refreshPromise (srv m') = Some q" using h by (simp add: hd)
    next
      fix ca c' q q'
      assume "callers m' ca = Awaiting q Initiator \<and> callers m' c' = Awaiting q' Initiator"
      then have "callers m ca = Awaiting q Initiator \<and> callers m c' = Awaiting q' Initiator"
        using aw by blast
      then show "ca = c'" using inv unfolding single_flight_def by blast
    next
      fix q assume "refreshPromise (srv m') = Some q"
      then have r: "role \<noteq> Initiator" and h: "refreshPromise (srv m) = Some q"
        by (auto simp: hd split: if_splits)
      then obtain c' where c': "callers m c' = Awaiting q Initiator" and q: "q < length (promises m)"
        using inv unfolding single_flight_def by blast
      have "c' \<noteq> c" using c' Awaiting r by auto
      then have "callers m' c' = Awaiting q Initiator" using c' other by simp
      then show "q < length (promises m)" "\<exists>c. callers m' c = Awaiting q Initiator"
        using q by blast+
    next
      fix ca q r assume "callers m' ca = Awaiting q r"
      then have "callers m ca = Awaiting q r" using aw by blast
      then show "q < length (promises m)" using inv unfolding single_flight_def by blast
    next
      fix ca q res assume a: "callers m' ca = Returned q res"
      have "q < length (promises m) \<and> settled (promises m ! q) = Some res"
      proof (cases "ca = c")
        case True
        then show ?thesis using a self len Some by simp
      next
        case False
        then have "callers m ca = Returned q res" using a other by simp
        then show ?thesis using inv unfolding single_flight_def by blast
      qed
      then show "q < length (promises m)" "settled (promises m ! q) = Some res" by blast+
    next
      show "builds_started (srv m) = length (promises m)"
        using inv unfolding single_flight_def by blast
    qed
    then show ?thesis by (simp only: m'_def)
  qed
qed

lemma single_flight_step: "single_flight m \<Longrightarrow> single_flight (step w e m)"
  by (cases e)
     (simp_all only: single_flight_Call single_flight_FetchSettles single_flight_WriteSettles
        single_flight_Resume)

lemma single_flight_run: "single_flight m \<Longrightarrow> single_flight (run w evs m)"
  by (induction evs arbitrary: m) (simp_all add: single_flight_step)

text \<open>What the events of a build do to its promise, and what stays once it has settled.\<close>

lemma step_FetchSettles_Inl:
  assumes "p < length (promises m)" and "promises m ! p = Fetching"
  shows "step w (FetchSettles p (Inl e)) m = m\<lparr>promises := (promises m)[p := Rejected e]\<rparr>"
  using assms by simp

lemma step_FetchSettles_memory:
  assumes "p < length (promises m)" and "promises m ! p = Fetching" and "\<not> redisClient (srv m)"
  shows "step w (FetchSettles p (Inr payload)) m =
           m\<lparr>srv := (srv m)\<lparr>inMemoryCache := payload\<rparr>,
             promises := (promises m)[p := Resolved payload]\<rparr>"
  using assms by simp

lemma step_FetchSettles_redis:
  assumes "p < length (promises m)" and "promises m ! p = Fetching" and "redisClient (srv m)"
  shows "step w (FetchSettles p (Inr payload)) m =
           m\<lparr>promises := (promises m)[p := Writing payload]\<rparr>"
  using assms by simp

lemma step_WriteSettles_ok:
  assumes "p < length (promises m)" and "promises m ! p = Writing payload"
  shows "step w (WriteSettles p True) m =
           m\<lparr>srv := (srv m)\<lparr>redisStore := Some (JSON_stringify w payload),
                             inMemoryCache := payload\<rparr>,
             promises := (promises m)[p := Resolved payload]\<rparr>"
  using assms by simp

lemma step_WriteSettles_rejected:
  assumes "p < length (promises m)" and "promises m ! p = Writing payload"
  shows "step w (WriteSettles p False) m = m\<lparr>promises := (promises m)[p := Rejected StoreError]\<rparr>"
  using assms by simp

lemma step_WriteSettles_settled:
  assumes "p < length (promises m)" and "settled (promises m ! p) = Some r"
  shows "step w (WriteSettles p ok) m = m"
  using assms by (cases "promises m ! p") simp_all

lemma step_Resume_settled:
  assumes "callers m c = Awaiting p role" and "p < length (promises m)"
    and "settled (promises m ! p) = Some r"
  shows "step w (Resume c) m =
           m\<lparr>srv := (if role = Initiator then (srv m)\<lparr>refreshPromise := None\<rparr> else srv m),
             callers := (callers m)(c := Returned p r)\<rparr>"
  using assms by simp

text \<open>
  From a build in flight to its callers: once the build and, with Redis, the write have
  settled, the promise holds the refresh's result.
\<close>

lemma build_settles:
  fixes m :: machine and w :: world and p :: nat and result :: "error + json" and ok :: bool
  assumes "p < length (promises m)" and "promises m ! p = Fetching"
  defines "m' \<equiv> run w [FetchSettles p result, WriteSettles p ok] m"
  defines "r \<equiv> (case result of
                   Inl e \<Rightarrow> Inl e
                 | Inr payload \<Rightarrow> if redisClient (srv m) \<and> \<not> ok then Inl StoreError
                                  else Inr payload)"
  shows "settled (promises m' ! p) = Some r"
    and "length (promises m') = length (promises m)"
    and "callers m' = callers m"
    and "refreshPromise (srv m') = refreshPromise (srv m)"
    and "redisClient (srv m') = redisClient (srv m)"
    and "builds_started (srv m') = builds_started (srv m)"
    and "\<forall>payload. r = Inr payload \<longrightarrow> inMemoryCache (srv m') = payload \<and>
           (redisClient (srv m) \<longrightarrow> redisStore (srv m') = Some (JSON_stringify w payload))"
    and "\<forall>e. r = Inl e \<longrightarrow> inMemoryCache (srv m') = inMemoryCache (srv m) \<and>
           redisStore (srv m') = redisStore (srv m)"
proof -
  have "settled (promises m' ! p) = Some r \<and>
        length (promises m') = length (promises m) \<and>
        callers m' = callers m \<and>
        refreshPromise (srv m') = refreshPromise (srv m) \<and>
        redisClient (srv m') = redisClient (srv m) \<and>
        builds_started (srv m') = builds_started (srv m) \<and>
        (\<forall>payload. r = Inr payload \<longrightarrow> inMemoryCache (srv m') = payload \<and>
           (redisClient (srv m) \<longrightarrow> redisStore (srv m') = Some (JSON_stringify w payload))) \<and>
        (\<forall>e. r = Inl e \<longrightarrow> inMemoryCache (srv m') = inMemoryCache (srv m) \<and>
           redisStore (srv m') = redisStore (srv m))"
  proof (cases result)
    case (Inl e)
    show ?thesis
      unfolding m'_def r_def Inl using assms(1,2) by simp
  next
    case (Inr payload)
    show ?thesis
    proof (cases "redisClient (srv m)")
      case False
      show ?thesis
        unfolding m'_def r_def Inr using assms(1,2) False by simp
    next
      case True
      show ?thesis
        unfolding m'_def r_def Inr using assms(1,2) True by (cases ok) simp_all
    qed
  qed
  then show "settled (promises m' ! p) = Some r"
    and "length (promises m') = length (promises m)"
    and "callers m' = callers m"
    and "refreshPromise (srv m') = refreshPromise (srv m)"
    and "redisClient (srv m') = redisClient (srv m)"
    and "builds_started (srv m') = builds_started (srv m)"
    and "\<forall>payload. r = Inr payload \<longrightarrow> inMemoryCache (srv m') = payload \<and>
           (redisClient (srv m) \<longrightarrow> redisStore (srv m') = Some (JSON_stringify w payload))"
    and "\<forall>e. r = Inl e \<longrightarrow> inMemoryCache (srv m') = inMemoryCache (srv m) \<and>
           redisStore (srv m') = redisStore (srv m)"
    by blast+
qed

lemma settled_stable:
  assumes "p < length (promises m)" and "settled (promises m ! p) = Some r"
  shows "p < length (promises (step w e m)) \<and> settled (promises (step w e m) ! p) = Some r"
proof (cases e)
  case (Call c origin)
  show ?thesis
  proof (cases "callers m c = NotCalled")
    case False
    show ?thesis unfolding Call step_Call_ignored[OF False] using assms by simp
  next
    case True
    show ?thesis
    proof (cases "refreshPromise (srv m)")
      case None
      then show ?thesis using assms True by (simp add: Call nth_append)
    next
      case (Some q)
      then show ?thesis using assms True by (simp add: Call)
    qed
  qed
next
  case (FetchSettles q result)
  show ?thesis
  proof (cases "q = p")
    case True
    then have "promises m ! q \<noteq> Fetching" using assms(2) by auto
    then show ?thesis using assms by (simp add: FetchSettles)
  next
    case False
    then show ?thesis using assms by (auto simp: FetchSettles split: sum.splits)
  qed
next
  case (WriteSettles q ok)
  show ?thesis
  proof (cases "q = p")
    case True
    then show ?thesis
      using assms step_WriteSettles_settled[OF assms, of w ok] by (simp add: WriteSettles)
  next
    case False
    then show ?thesis using assms by (auto simp: WriteSettles split: promise_state.splits)
  qed
next
  case (Resume c)
  then show ?thesis
    using assms by (auto split: caller_state.splits option.splits)
qed

lemma returned_stable:
  assumes "callers m c = Returned p r"
  shows "callers (step w e m) c = Returned p r"
proof (cases e)
  case (Call c' origin)
  then show ?thesis
    using assms by (auto split: caller_state.splits option.splits)
next
  case (FetchSettles q result)
  then show ?thesis using assms by (auto split: sum.splits)
next
  case (WriteSettles q ok)
  then show ?thesis using assms by (auto split: promise_state.splits)
next
  case (Resume c')
  then show ?thesis
    using assms by (auto split: caller_state.splits option.splits)
qed


lemma write_settles:
  assumes "p < length (promises m)" and "promises m ! p = Writing payload"
  shows "settled (promises (step w (WriteSettles p ok) m) ! p) =
           Some (if ok then Inr payload else Inl StoreError)"
  using assms by (cases ok) simp_all

lemma caller_gets_result:
  fixes m :: machine and w :: world and p :: nat and result :: "error + json" and ok :: bool
  assumes "callers m c = Awaiting p role" and "p < length (promises m)"
    and "promises m ! p = Fetching"
  defines "r \<equiv> (case result of
                   Inl e \<Rightarrow> Inl e
                 | Inr payload \<Rightarrow> if redisClient (srv m) \<and> \<not> ok then Inl StoreError
                                  else Inr payload)"
  defines "m1 \<equiv> run w [FetchSettles p result, WriteSettles p ok] m"
  shows "run w [FetchSettles p result, WriteSettles p ok, Resume c] m =
           m1\<lparr>srv := (if role = Initiator then (srv m1)\<lparr>refreshPromise := None\<rparr> else srv m1),
              callers := (callers m1)(c := Returned p r)\<rparr>"
proof -
  note b = build_settles[where w = w and result = result and ok = ok, OF assms(2,3),
      folded m1_def r_def]
  have "run w [FetchSettles p result, WriteSettles p ok, Resume c] m = step w (Resume c) m1"
    by (simp add: m1_def)
  also have "\<dots> = m1\<lparr>srv := (if role = Initiator then (srv m1)\<lparr>refreshPromise := None\<rparr>
                                else srv m1),
                      callers := (callers m1)(c := Returned p r)\<rparr>"
    using assms(1,2) b(1,2,3) by (intro step_Resume_settled) simp_all
  finally show ?thesis .
qed


text \<open>
  C1. In every state that the server reaches from startup, whatever the callers of
  \<^verbatim>\<open>refreshCache\<close> (read endpoint, manual refresh, scheduler, warm-up) and however their
  pieces interleave:
  \<^item> at most one refresh is in flight, and it is the one the handle holds;
  \<^item> a caller that arrives while the handle holds a promise changes nothing but its own
    state: it starts no upstream build and waits for that promise; a caller that arrives
    while the handle is clear creates one promise and starts one build;
  \<^item> a caller waits for a promise that exists and, resumed once the promise has
    settled, returns the promise's result, success or failure; every caller that has
    returned holds the result of the promise it waited for, so all callers of one
    refresh get the same snapshot or the same failure;
  \<^item> the handle is always held on behalf of the caller that created the promise, and
    when that caller resumes after the promise has settled, with a snapshot or with a
    failure, the handle is cleared;
  \<^item> the number of upstream builds started is the number of promises created;
  \<^item> a build in flight settles: when its fetch has settled and, with Redis, its write,
    the promise holds the fetched snapshot on success, the fetch's error when the fetch
    failed and the store's error when the write was rejected; a caller waiting for it,
    resumed then, returns exactly that, two callers waiting for it return the same, and
    the creating caller's resumption clears the handle in each case;
  \<^item> a settled promise keeps its result and a caller that has returned keeps what it
    got, whatever happens next.
\<close>

theorem refresh_single_flight:
  assumes "m = run w evs (boot redis stored cache)"
  shows
   "(\<forall>p q. p < length (promises m) \<and> q < length (promises m) \<and>
       in_flight (promises m ! p) \<and> in_flight (promises m ! q) \<longrightarrow> p = q) \<and>
    (\<forall>p. p < length (promises m) \<and> in_flight (promises m ! p) \<longrightarrow>
       refreshPromise (srv m) = Some p) \<and>
    (\<forall>p c origin. refreshPromise (srv m) = Some p \<and> callers m c = NotCalled \<longrightarrow>
       step w (Call c origin) m = m\<lparr>callers := (callers m)(c := Awaiting p Joiner)\<rparr>) \<and>
    (\<forall>c p role. callers m c = Awaiting p role \<longrightarrow>
       p < length (promises m) \<and>
       (\<forall>result. settled (promises m ! p) = Some result \<longrightarrow>
          callers (step w (Resume c) m) c = Returned p result)) \<and>
    (\<forall>c p result. callers m c = Returned p result \<longrightarrow>
       p < length (promises m) \<and> settled (promises m ! p) = Some result) \<and>
    (\<forall>p. refreshPromise (srv m) = Some p \<longrightarrow> (\<exists>c. callers m c = Awaiting p Initiator)) \<and>
    (\<forall>c p result. callers m c = Awaiting p Initiator \<and> settled (promises m ! p) = Some result
       \<longrightarrow> refreshPromise (srv (step w (Resume c) m)) = None) \<and>
    builds_started (srv m) = length (promises m) \<and>
    (\<forall>c origin. refreshPromise (srv m) = None \<and> callers m c = NotCalled \<longrightarrow>
       step w (Call c origin) m =
         m\<lparr>srv := (srv m)\<lparr>refreshPromise := Some (length (promises m)),
                           builds_started := Suc (builds_started (srv m))\<rparr>,
           promises := promises m @ [Fetching],
           callers := (callers m)(c := Awaiting (length (promises m)) Initiator)\<rparr>) \<and>
    (\<forall>p result ok. p < length (promises m) \<and> promises m ! p = Fetching \<longrightarrow>
       settled (promises (run w [FetchSettles p result, WriteSettles p ok] m) ! p) =
         Some (case result of
                 Inl e \<Rightarrow> Inl e
               | Inr payload \<Rightarrow> if redisClient (srv m) \<and> \<not> ok then Inl StoreError
                                else Inr payload)) \<and>
    (\<forall>p payload ok. p < length (promises m) \<and> promises m ! p = Writing payload \<longrightarrow>
       settled (promises (step w (WriteSettles p ok) m) ! p) =
         Some (if ok then Inr payload else Inl StoreError)) \<and>
    (\<forall>c p role result ok. callers m c = Awaiting p role \<and> promises m ! p = Fetching \<longrightarrow>
       callers (run w [FetchSettles p result, WriteSettles p ok, Resume c] m) c =
         Returned p (case result of
                       Inl e \<Rightarrow> Inl e
                     | Inr payload \<Rightarrow> if redisClient (srv m) \<and> \<not> ok then Inl StoreError
                                      else Inr payload) \<and>
       (role = Initiator \<longrightarrow>
          refreshPromise (srv (run w [FetchSettles p result, WriteSettles p ok, Resume c] m)) =
            None)) \<and>
    (\<forall>c c' p role role' result ok.
       c \<noteq> c' \<and> callers m c = Awaiting p role \<and> callers m c' = Awaiting p role' \<and>
       promises m ! p = Fetching \<longrightarrow>
       callers (run w [FetchSettles p result, WriteSettles p ok, Resume c, Resume c'] m) c =
         Returned p (case result of
                       Inl e \<Rightarrow> Inl e
                     | Inr payload \<Rightarrow> if redisClient (srv m) \<and> \<not> ok then Inl StoreError
                                      else Inr payload) \<and>
       callers (run w [FetchSettles p result, WriteSettles p ok, Resume c, Resume c'] m) c' =
         Returned p (case result of
                       Inl e \<Rightarrow> Inl e
                     | Inr payload \<Rightarrow> if redisClient (srv m) \<and> \<not> ok then Inl StoreError
                                      else Inr payload)) \<and>
    (\<forall>c c' p r r'. callers m c = Returned p r \<and> callers m c' = Returned p r' \<longrightarrow> r = r') \<and>
    (\<forall>e p r. p < length (promises m) \<and> settled (promises m ! p) = Some r \<longrightarrow>
       settled (promises (step w e m) ! p) = Some r) \<and>
    (\<forall>e c p r. callers m c = Returned p r \<longrightarrow> callers (step w e m) c = Returned p r)"
proof -
  have inv: "single_flight m"
    unfolding assms by (rule single_flight_run[OF single_flight_boot])
  have fl: "refreshPromise (srv m) = Some p"
    if "p < length (promises m)" "in_flight (promises m ! p)" for p
    using inv that unfolding single_flight_def by blast
  have one: "\<forall>p q. p < length (promises m) \<and> q < length (promises m) \<and>
       in_flight (promises m ! p) \<and> in_flight (promises m ! q) \<longrightarrow> p = q"
  proof (intro allI impI)
    fix p q
    assume "p < length (promises m) \<and> q < length (promises m) \<and>
       in_flight (promises m ! p) \<and> in_flight (promises m ! q)"
    then show "p = q" using fl[of p] fl[of q] by simp
  qed
  have fl': "\<forall>p. p < length (promises m) \<and> in_flight (promises m ! p) \<longrightarrow>
       refreshPromise (srv m) = Some p"
    using fl by blast
  have join: "\<forall>p c origin. refreshPromise (srv m) = Some p \<and> callers m c = NotCalled \<longrightarrow>
       step w (Call c origin) m = m\<lparr>callers := (callers m)(c := Awaiting p Joiner)\<rparr>"
    by (simp add: step_Call_join)
  have len: "p < length (promises m)" if "callers m c = Awaiting p role" for c p role
    using inv that unfolding single_flight_def by blast
  have res: "\<forall>c p role. callers m c = Awaiting p role \<longrightarrow>
       p < length (promises m) \<and>
       (\<forall>result. settled (promises m ! p) = Some result \<longrightarrow>
          callers (step w (Resume c) m) c = Returned p result)"
  proof (intro allI impI conjI)
    fix c p role result
    assume a: "callers m c = Awaiting p role"
    show "p < length (promises m)" using a by (rule len)
    assume "settled (promises m ! p) = Some result"
    then show "callers (step w (Resume c) m) c = Returned p result"
      using a len[OF a] by simp
  qed
  have ret: "\<forall>c p result. callers m c = Returned p result \<longrightarrow>
       p < length (promises m) \<and> settled (promises m ! p) = Some result"
    using inv unfolding single_flight_def by blast
  have held: "\<forall>p. refreshPromise (srv m) = Some p \<longrightarrow> (\<exists>c. callers m c = Awaiting p Initiator)"
    using inv unfolding single_flight_def by blast
  have clear: "\<forall>c p result. callers m c = Awaiting p Initiator \<and>
       settled (promises m ! p) = Some result
       \<longrightarrow> refreshPromise (srv (step w (Resume c) m)) = None"
  proof (intro allI impI)
    fix c p result
    assume a: "callers m c = Awaiting p Initiator \<and> settled (promises m ! p) = Some result"
    then show "refreshPromise (srv (step w (Resume c) m)) = None"
      using len[of c p Initiator] by simp
  qed
  have builds: "builds_started (srv m) = length (promises m)"
    using inv unfolding single_flight_def by blast
  have new: "\<forall>c origin. refreshPromise (srv m) = None \<and> callers m c = NotCalled \<longrightarrow>
       step w (Call c origin) m =
         m\<lparr>srv := (srv m)\<lparr>refreshPromise := Some (length (promises m)),
                           builds_started := Suc (builds_started (srv m))\<rparr>,
           promises := promises m @ [Fetching],
           callers := (callers m)(c := Awaiting (length (promises m)) Initiator)\<rparr>"
    by (simp add: step_Call_new)
  have settle: "\<forall>p result ok. p < length (promises m) \<and> promises m ! p = Fetching \<longrightarrow>
       settled (promises (run w [FetchSettles p result, WriteSettles p ok] m) ! p) =
         Some (case result of
                 Inl e \<Rightarrow> Inl e
               | Inr payload \<Rightarrow> if redisClient (srv m) \<and> \<not> ok then Inl StoreError
                                else Inr payload)"
    using build_settles(1) by blast
  have wsettle: "\<forall>p payload ok. p < length (promises m) \<and> promises m ! p = Writing payload \<longrightarrow>
       settled (promises (step w (WriteSettles p ok) m) ! p) =
         Some (if ok then Inr payload else Inl StoreError)"
    using write_settles by blast
  have e2e: "\<forall>c p role result ok. callers m c = Awaiting p role \<and> promises m ! p = Fetching \<longrightarrow>
       callers (run w [FetchSettles p result, WriteSettles p ok, Resume c] m) c =
         Returned p (case result of
                       Inl e \<Rightarrow> Inl e
                     | Inr payload \<Rightarrow> if redisClient (srv m) \<and> \<not> ok then Inl StoreError
                                      else Inr payload) \<and>
       (role = Initiator \<longrightarrow>
          refreshPromise (srv (run w [FetchSettles p result, WriteSettles p ok, Resume c] m)) =
            None)"
  proof (intro allI impI)
    fix c p role result ok
    assume a: "callers m c = Awaiting p role \<and> promises m ! p = Fetching"
    then have l: "p < length (promises m)" using len by blast
    note g = caller_gets_result[where w = w and result = result and ok = ok and m = m
        and c = c and p = p and role = role, OF _ l]
    show "callers (run w [FetchSettles p result, WriteSettles p ok, Resume c] m) c =
         Returned p (case result of
                       Inl e \<Rightarrow> Inl e
                     | Inr payload \<Rightarrow> if redisClient (srv m) \<and> \<not> ok then Inl StoreError
                                      else Inr payload) \<and>
       (role = Initiator \<longrightarrow>
          refreshPromise (srv (run w [FetchSettles p result, WriteSettles p ok, Resume c] m)) =
            None)"
      using a by (simp only: g) simp
  qed
  have two: "\<forall>c c' p role role' result ok.
       c \<noteq> c' \<and> callers m c = Awaiting p role \<and> callers m c' = Awaiting p role' \<and>
       promises m ! p = Fetching \<longrightarrow>
       callers (run w [FetchSettles p result, WriteSettles p ok, Resume c, Resume c'] m) c =
         Returned p (case result of
                       Inl e \<Rightarrow> Inl e
                     | Inr payload \<Rightarrow> if redisClient (srv m) \<and> \<not> ok then Inl StoreError
                                      else Inr payload) \<and>
       callers (run w [FetchSettles p result, WriteSettles p ok, Resume c, Resume c'] m) c' =
         Returned p (case result of
                       Inl e \<Rightarrow> Inl e
                     | Inr payload \<Rightarrow> if redisClient (srv m) \<and> \<not> ok then Inl StoreError
                                      else Inr payload)"
  proof (intro allI impI)
    fix c c' p role role' and result :: "error + json" and ok
    let ?r = "case result of
                Inl e \<Rightarrow> Inl e
              | Inr payload \<Rightarrow> if redisClient (srv m) \<and> \<not> ok then Inl StoreError
                               else Inr payload"
    assume a: "c \<noteq> c' \<and> callers m c = Awaiting p role \<and> callers m c' = Awaiting p role' \<and>
       promises m ! p = Fetching"
    then have l: "p < length (promises m)" using len by blast
    define m1 where "m1 = run w [FetchSettles p result, WriteSettles p ok] m"
    define m2 where "m2 = run w [FetchSettles p result, WriteSettles p ok, Resume c] m"
    note b = build_settles[where w = w and result = result and ok = ok, OF l, folded m1_def]
    have b1: "settled (promises m1 ! p) = Some ?r" "length (promises m1) = length (promises m)"
      "callers m1 = callers m"
      using b a by simp_all
    have m2: "m2 = m1\<lparr>srv := (if role = Initiator then (srv m1)\<lparr>refreshPromise := None\<rparr>
                               else srv m1),
                     callers := (callers m1)(c := Returned p ?r)\<rparr>"
      unfolding m2_def m1_def
      using a l by (intro caller_gets_result[where role = role]) simp_all
    have c2: "callers m2 c' = Awaiting p role'" "callers m2 c = Returned p ?r"
      "p < length (promises m2)" "settled (promises m2 ! p) = Some ?r"
      unfolding m2 using a b1 l by simp_all
    have "run w [FetchSettles p result, WriteSettles p ok, Resume c, Resume c'] m =
            step w (Resume c') m2"
      by (simp add: m2_def)
    also have "\<dots> = m2\<lparr>srv := (if role' = Initiator then (srv m2)\<lparr>refreshPromise := None\<rparr>
                                 else srv m2),
                        callers := (callers m2)(c' := Returned p ?r)\<rparr>"
      using c2 by (intro step_Resume_settled)
    finally have fin: "run w [FetchSettles p result, WriteSettles p ok, Resume c, Resume c'] m =
       m2\<lparr>srv := (if role' = Initiator then (srv m2)\<lparr>refreshPromise := None\<rparr> else srv m2),
          callers := (callers m2)(c' := Returned p ?r)\<rparr>" .
    show "callers (run w [FetchSettles p result, WriteSettles p ok, Resume c, Resume c'] m) c =
            Returned p ?r \<and>
          callers (run w [FetchSettles p result, WriteSettles p ok, Resume c, Resume c'] m) c' =
            Returned p ?r"
      unfolding fin using a c2 by simp
  qed
  have same: "\<forall>c c' p r r'. callers m c = Returned p r \<and> callers m c' = Returned p r' \<longrightarrow> r = r'"
  proof (intro allI impI)
    fix c c' p r r'
    assume a: "callers m c = Returned p r \<and> callers m c' = Returned p r'"
    then have "settled (promises m ! p) = Some r" "settled (promises m ! p) = Some r'"
      using ret by blast+
    then show "r = r'" by simp
  qed
  have stable: "\<forall>e p r. p < length (promises m) \<and> settled (promises m ! p) = Some r \<longrightarrow>
       settled (promises (step w e m) ! p) = Some r"
    using settled_stable by blast
  have rstable: "\<forall>e c p r. callers m c = Returned p r \<longrightarrow> callers (step w e m) c = Returned p r"
    using returned_stable by blast
  show ?thesis
    by (intro conjI)
       (rule one, rule fl', rule join, rule res, rule ret, rule held, rule clear, rule builds,
        rule new, rule settle, rule wsettle, rule e2e, rule two, rule same, rule stable,
        rule rstable)
qed


text \<open>
  Three callers arriving together share promise 0 and one build; a fourth joins it too.
  When the build has failed and the three have resumed, each holds that failure, and the
  caller arriving then starts the second build. With Redis, two callers arriving
  together share one build; when it has fetched its snapshot and written it, both hold
  that snapshot, the handle is clear and the store holds the snapshot.
\<close>

lemma example_callers_state:
  "promises (run w example_callers (boot False None JNull)) = [Fetching]"
  "refreshPromise (srv (run w example_callers (boot False None JNull))) = Some 0"
  "builds_started (srv (run w example_callers (boot False None JNull))) = 1"
  "callers (run w example_callers (boot False None JNull)) 1 = Awaiting 0 Initiator"
  "callers (run w example_callers (boot False None JNull)) 2 = Awaiting 0 Joiner"
  "callers (run w example_callers (boot False None JNull)) 3 = Awaiting 0 Joiner"
  "callers (run w example_callers (boot False None JNull)) 4 = NotCalled"
  by (simp_all add: example_callers_def boot_def)

lemma example_run_state:
  "promises (run w example_run (boot False None JNull)) =
     [Rejected (RequestFailed ''500 Internal Server Error''), Fetching]"
  "refreshPromise (srv (run w example_run (boot False None JNull))) = Some 1"
  "builds_started (srv (run w example_run (boot False None JNull))) = 2"
  "callers (run w example_run (boot False None JNull)) 1 =
     Returned 0 (Inl (RequestFailed ''500 Internal Server Error''))"
  "callers (run w example_run (boot False None JNull)) 2 =
     Returned 0 (Inl (RequestFailed ''500 Internal Server Error''))"
  "callers (run w example_run (boot False None JNull)) 3 =
     Returned 0 (Inl (RequestFailed ''500 Internal Server Error''))"
  "callers (run w example_run (boot False None JNull)) 4 = Awaiting 1 Initiator"
  by (simp_all add: example_run_def example_callers_def boot_def)

lemma example_pair_state:
  "promises (run w example_pair (boot True None JNull)) = [Fetching]"
  "refreshPromise (srv (run w example_pair (boot True None JNull))) = Some 0"
  "redisClient (srv (run w example_pair (boot True None JNull)))"
  "callers (run w example_pair (boot True None JNull)) 1 = Awaiting 0 Initiator"
  "callers (run w example_pair (boot True None JNull)) 2 = Awaiting 0 Joiner"
  by (simp_all add: example_pair_def boot_def)

lemma example_success_state:
  "promises (run w (example_pair @ example_success) (boot True None JNull)) =
     [Resolved example_fresh_payload]"
  "refreshPromise (srv (run w (example_pair @ example_success) (boot True None JNull))) = None"
  "builds_started (srv (run w (example_pair @ example_success) (boot True None JNull))) = 1"
  "inMemoryCache (srv (run w (example_pair @ example_success) (boot True None JNull))) =
     example_fresh_payload"
  "redisStore (srv (run w (example_pair @ example_success) (boot True None JNull))) =
     Some (JSON_stringify w example_fresh_payload)"
  by (simp_all add: example_pair_def example_success_def boot_def)

theorem refresh_single_flight_witness:
  "promises (run example_world example_callers (boot False None JNull)) = [Fetching] \<and>
   builds_started (srv (run example_world example_callers (boot False None JNull))) = 1 \<and>
   callers (run example_world example_callers (boot False None JNull)) 4 = NotCalled \<and>
   callers (step example_world (Call 4 ReadEndpoint)
     (run example_world example_callers (boot False None JNull))) 4 = Awaiting 0 Joiner \<and>
   promises (step example_world (Call 4 ReadEndpoint)
     (run example_world example_callers (boot False None JNull))) = [Fetching] \<and>
   builds_started (srv (step example_world (Call 4 ReadEndpoint)
     (run example_world example_callers (boot False None JNull)))) = 1 \<and>
   promises (run example_world example_run (boot False None JNull)) =
     [Rejected (RequestFailed ''500 Internal Server Error''), Fetching] \<and>
   callers (run example_world example_run (boot False None JNull)) 1 =
     Returned 0 (Inl (RequestFailed ''500 Internal Server Error'')) \<and>
   callers (run example_world example_run (boot False None JNull)) 2 =
     Returned 0 (Inl (RequestFailed ''500 Internal Server Error'')) \<and>
   callers (run example_world example_run (boot False None JNull)) 3 =
     Returned 0 (Inl (RequestFailed ''500 Internal Server Error'')) \<and>
   refreshPromise (srv (run example_world example_run (boot False None JNull))) = Some 1 \<and>
   builds_started (srv (run example_world example_run (boot False None JNull))) = 2 \<and>
   callers (run example_world example_pair (boot True None JNull)) 1 = Awaiting 0 Initiator \<and>
   callers (run example_world example_pair (boot True None JNull)) 2 = Awaiting 0 Joiner \<and>
   promises (run example_world example_pair (boot True None JNull)) ! 0 = Fetching \<and>
   settled (promises (run example_world
       [FetchSettles 0 (Inr example_fresh_payload), WriteSettles 0 True]
       (run example_world example_pair (boot True None JNull))) ! 0) =
     Some (Inr example_fresh_payload) \<and>
   callers (run example_world
       [FetchSettles 0 (Inr example_fresh_payload), WriteSettles 0 True, Resume 2, Resume 1]
       (run example_world example_pair (boot True None JNull))) 2 =
     Returned 0 (Inr example_fresh_payload) \<and>
   callers (run example_world
       [FetchSettles 0 (Inr example_fresh_payload), WriteSettles 0 True, Resume 2, Resume 1]
       (run example_world example_pair (boot True None JNull))) 1 =
     Returned 0 (Inr example_fresh_payload) \<and>
   refreshPromise (srv (run example_world
       [FetchSettles 0 (Inr example_fresh_payload), WriteSettles 0 True, Resume 1]
       (run example_world example_pair (boot True None JNull)))) = None \<and>
   promises (run example_world (example_pair @ example_success) (boot True None JNull)) =
     [Resolved example_fresh_payload] \<and>
   refreshPromise (srv (run example_world (example_pair @ example_success)
     (boot True None JNull))) = None \<and>
   builds_started (srv (run example_world (example_pair @ example_success)
     (boot True None JNull))) = 1 \<and>
   inMemoryCache (srv (run example_world (example_pair @ example_success)
     (boot True None JNull))) = example_fresh_payload \<and>
   redisStore (srv (run example_world (example_pair @ example_success)
     (boot True None JNull))) = Some (JSON_stringify example_world example_fresh_payload)"
proof -
  define m0 where "m0 = run example_world example_callers (boot False None JNull)"
  define m1 where "m1 = run example_world example_pair (boot True None JNull)"
  note t = refresh_single_flight[OF m0_def]
  note u = refresh_single_flight[OF m1_def]
  note s0 = example_callers_state[of example_world, folded m0_def]
  note s1 = example_pair_state[of example_world, folded m1_def]
  have h: "refreshPromise (srv m0) = Some 0 \<and> callers m0 4 = NotCalled"
    using s0 by simp
  have j: "step example_world (Call 4 ReadEndpoint) m0 =
             m0\<lparr>callers := (callers m0)(4 := Awaiting 0 Joiner)\<rparr>"
    using t[THEN conjunct2, THEN conjunct2, THEN conjunct1, rule_format, OF h] .
  have b: "builds_started (srv m0) = length (promises m0)"
    by (rule t[THEN conjunct2, THEN conjunct2, THEN conjunct2, THEN conjunct2, THEN conjunct2, THEN conjunct2, THEN conjunct2, THEN conjunct1])
  have old: "callers (step example_world (Call 4 ReadEndpoint) m0) 4 = Awaiting 0 Joiner"
    "promises (step example_world (Call 4 ReadEndpoint) m0) = [Fetching]"
    "builds_started (srv (step example_world (Call 4 ReadEndpoint) m0)) = 1"
    unfolding j using b s0 by simp_all
  have f0: "promises m1 ! 0 = Fetching" "0 < length (promises m1)" using s1 by simp_all
  have settle: "\<forall>p result ok. p < length (promises m1) \<and> promises m1 ! p = Fetching \<longrightarrow>
       settled (promises (run example_world [FetchSettles p result, WriteSettles p ok] m1) ! p) =
         Some (case result of
                 Inl e \<Rightarrow> Inl e
               | Inr payload \<Rightarrow> if redisClient (srv m1) \<and> \<not> ok then Inl StoreError
                                else Inr payload)"
    by (rule u[THEN conjunct2, THEN conjunct2, THEN conjunct2, THEN conjunct2, THEN conjunct2, THEN conjunct2, THEN conjunct2, THEN conjunct2, THEN conjunct2, THEN conjunct1])
  have e2e: "\<forall>c p role result ok. callers m1 c = Awaiting p role \<and> promises m1 ! p = Fetching \<longrightarrow>
       callers (run example_world [FetchSettles p result, WriteSettles p ok, Resume c] m1) c =
         Returned p (case result of
                       Inl e \<Rightarrow> Inl e
                     | Inr payload \<Rightarrow> if redisClient (srv m1) \<and> \<not> ok then Inl StoreError
                                      else Inr payload) \<and>
       (role = Initiator \<longrightarrow>
          refreshPromise (srv (run example_world
             [FetchSettles p result, WriteSettles p ok, Resume c] m1)) = None)"
    by (rule u[THEN conjunct2, THEN conjunct2, THEN conjunct2, THEN conjunct2, THEN conjunct2, THEN conjunct2, THEN conjunct2, THEN conjunct2, THEN conjunct2, THEN conjunct2, THEN conjunct2, THEN conjunct1])
  have two: "\<forall>c c' p role role' result ok.
       c \<noteq> c' \<and> callers m1 c = Awaiting p role \<and> callers m1 c' = Awaiting p role' \<and>
       promises m1 ! p = Fetching \<longrightarrow>
       callers (run example_world
          [FetchSettles p result, WriteSettles p ok, Resume c, Resume c'] m1) c =
         Returned p (case result of
                       Inl e \<Rightarrow> Inl e
                     | Inr payload \<Rightarrow> if redisClient (srv m1) \<and> \<not> ok then Inl StoreError
                                      else Inr payload) \<and>
       callers (run example_world
          [FetchSettles p result, WriteSettles p ok, Resume c, Resume c'] m1) c' =
         Returned p (case result of
                       Inl e \<Rightarrow> Inl e
                     | Inr payload \<Rightarrow> if redisClient (srv m1) \<and> \<not> ok then Inl StoreError
                                      else Inr payload)"
    by (rule u[THEN conjunct2, THEN conjunct2, THEN conjunct2, THEN conjunct2, THEN conjunct2, THEN conjunct2, THEN conjunct2, THEN conjunct2, THEN conjunct2, THEN conjunct2, THEN conjunct2, THEN conjunct2, THEN conjunct1])
  have g1: "settled (promises (run example_world
       [FetchSettles 0 (Inr example_fresh_payload), WriteSettles 0 True] m1) ! 0) =
     Some (Inr example_fresh_payload)"
    using settle[rule_format, of 0 "Inr example_fresh_payload" True] f0 by simp
  have g2: "callers (run example_world
       [FetchSettles 0 (Inr example_fresh_payload), WriteSettles 0 True, Resume 2, Resume 1] m1) 2 =
     Returned 0 (Inr example_fresh_payload)"
    "callers (run example_world
       [FetchSettles 0 (Inr example_fresh_payload), WriteSettles 0 True, Resume 2, Resume 1] m1) 1 =
     Returned 0 (Inr example_fresh_payload)"
    using two[rule_format, of 2 1 0 Joiner Initiator "Inr example_fresh_payload" True] f0 s1
    by simp_all
  have g3: "refreshPromise (srv (run example_world
       [FetchSettles 0 (Inr example_fresh_payload), WriteSettles 0 True, Resume 1] m1)) = None"
    using e2e[rule_format, of 1 0 Initiator "Inr example_fresh_payload" True] f0 s1 by simp
  show ?thesis
    using s0 old example_run_state[of example_world] s1(4,5) f0(1) g1 g2 g3
      example_success_state[of example_world]
    unfolding m0_def m1_def by simp
qed

section \<open>C2: the order in which the read endpoint degrades\<close>

text \<open>
  C2 (as amended). When the read of the cache returns no snapshot or one that is not
  fresh, the read endpoint calls \<^verbatim>\<open>refreshCache\<close> and
  \<^item> on success answers the new snapshot, with status MISS when there was no prior
    snapshot and REFRESH when there was one;
  \<^item> on failure with a prior snapshot (even expired) answers that snapshot with status
    STALE;
  \<^item> on failure with no prior snapshot runs the local fallback; when it builds a snapshot
    and the write of it to the store does not fail (it cannot without Redis), the
    snapshot is stored and answered with status FALLBACK;
  \<^item> on failure with no prior snapshot, when the fallback returns \<^verbatim>\<open>null\<close> (the
    local file is absent, unreadable, not an array or empty), answers 503, with a
    message and no data;
  \<^item> and answers 503 only then: after a failed refresh, with no prior snapshot and
    \<^verbatim>\<open>null\<close> from the fallback;
  \<^item> on failure with no prior snapshot, when building the fallback snapshot throws, the
    handler throws that error, and when the write of the fallback snapshot to Redis is
    rejected, the handler throws the store's error: it answers neither a snapshot nor
    503, and the store is as the failed refresh left it;
  \<^item> and, the cache once read, the handler throws only then (a read of the Redis entry
    that fails throws before any of this, see C4).
\<close>

theorem get_dashboard_degrades:
  assumes "readCachedPayload w s = Inr cached"
    and "\<not> (truthy cached \<and> isPayloadFresh cfg w cached)"
    and "refreshCache cfg w s = (outcome, s1)"
  shows
   "(\<forall>fresh. outcome = Inr fresh \<longrightarrow>
       get_dashboard cfg w s =
         (Inr \<lparr>status = 200, x_cache_status = Some (if truthy cached then REFRESH else MISS),
               body = fresh\<rparr>, s1)) \<and>
    (\<forall>err. outcome = Inl err \<and> truthy cached \<longrightarrow>
       get_dashboard cfg w s =
         (Inr \<lparr>status = 200, x_cache_status = Some STALE, body = cached\<rparr>, s1)) \<and>
    (\<forall>err fb. outcome = Inl err \<and> \<not> truthy cached \<and>
       buildFallbackPayloadFromSnapshot cfg w (loadRepoSnapshot w) = Inr fb \<and> fb \<noteq> JNull \<and>
       (redisClient s \<longrightarrow> fallback_set_ok w) \<longrightarrow>
       (\<exists>s2. get_dashboard cfg w s =
                (Inr \<lparr>status = 200, x_cache_status = Some FALLBACK, body = fb\<rparr>, s2) \<and>
             inMemoryCache s2 = fb \<and>
             (redisClient s \<longrightarrow> redisStore s2 = Some (JSON_stringify w fb)))) \<and>
    (\<forall>err. outcome = Inl err \<and> \<not> truthy cached \<and>
       buildFallbackPayloadFromSnapshot cfg w (loadRepoSnapshot w) = Inr JNull \<longrightarrow>
       get_dashboard cfg w s =
         (Inr \<lparr>status = 503, x_cache_status = None,
               body = message
                 ''Unable to refresh GitHub data cache. Configure GH_API_TOKEN to increase API limits.''\<rparr>,
          s1)) \<and>
    (\<forall>r. fst (get_dashboard cfg w s) = Inr r \<and> status r = 503 \<longrightarrow>
       (\<exists>err. outcome = Inl err) \<and> \<not> truthy cached \<and>
       buildFallbackPayloadFromSnapshot cfg w (loadRepoSnapshot w) = Inr JNull \<and>
       body r = message
         ''Unable to refresh GitHub data cache. Configure GH_API_TOKEN to increase API limits.'') \<and>
    (\<forall>err e. outcome = Inl err \<and> \<not> truthy cached \<and>
       buildFallbackPayloadFromSnapshot cfg w (loadRepoSnapshot w) = Inl e \<longrightarrow>
       get_dashboard cfg w s = (Inl e, s1)) \<and>
    (\<forall>err fb. outcome = Inl err \<and> \<not> truthy cached \<and>
       buildFallbackPayloadFromSnapshot cfg w (loadRepoSnapshot w) = Inr fb \<and> fb \<noteq> JNull \<and>
       redisClient s \<and> \<not> fallback_set_ok w \<longrightarrow>
       get_dashboard cfg w s = (Inl StoreError, s1)) \<and>
    (\<forall>e. fst (get_dashboard cfg w s) = Inl e \<longrightarrow>
       (\<exists>err. outcome = Inl err) \<and> \<not> truthy cached \<and>
       (buildFallbackPayloadFromSnapshot cfg w (loadRepoSnapshot w) = Inl e \<or>
        (\<exists>fb. buildFallbackPayloadFromSnapshot cfg w (loadRepoSnapshot w) = Inr fb \<and>
              fb \<noteq> JNull \<and> redisClient s \<and> \<not> fallback_set_ok w \<and> e = StoreError)))"
proof -
  note gd = get_dashboard_after_read[OF assms]
  have rc1: "redisClient s1 = redisClient s"
    using refreshCache_redisClient[of cfg w s] assms(3) by simp
  have A: "\<forall>fresh. outcome = Inr fresh \<longrightarrow>
       get_dashboard cfg w s =
         (Inr \<lparr>status = 200, x_cache_status = Some (if truthy cached then REFRESH else MISS),
               body = fresh\<rparr>, s1)"
    by (simp add: gd)
  have B: "\<forall>err. outcome = Inl err \<and> truthy cached \<longrightarrow>
       get_dashboard cfg w s =
         (Inr \<lparr>status = 200, x_cache_status = Some STALE, body = cached\<rparr>, s1)"
    by (simp add: gd)
  have C: "\<forall>err fb. outcome = Inl err \<and> \<not> truthy cached \<and>
       buildFallbackPayloadFromSnapshot cfg w (loadRepoSnapshot w) = Inr fb \<and> fb \<noteq> JNull \<and>
       (redisClient s \<longrightarrow> fallback_set_ok w) \<longrightarrow>
       (\<exists>s2. get_dashboard cfg w s =
                (Inr \<lparr>status = 200, x_cache_status = Some FALLBACK, body = fb\<rparr>, s2) \<and>
             inMemoryCache s2 = fb \<and>
             (redisClient s \<longrightarrow> redisStore s2 = Some (JSON_stringify w fb)))"
  proof (intro allI impI)
    fix err fb
    assume a: "outcome = Inl err \<and> \<not> truthy cached \<and>
       buildFallbackPayloadFromSnapshot cfg w (loadRepoSnapshot w) = Inr fb \<and> fb \<noteq> JNull \<and>
       (redisClient s \<longrightarrow> fallback_set_ok w)"
    then have t: "truthy fb" using buildFallback_truthy by blast
    show "\<exists>s2. get_dashboard cfg w s =
                (Inr \<lparr>status = 200, x_cache_status = Some FALLBACK, body = fb\<rparr>, s2) \<and>
             inMemoryCache s2 = fb \<and>
             (redisClient s \<longrightarrow> redisStore s2 = Some (JSON_stringify w fb))"
      using a t rc1 by (auto simp: gd writeCachedPayload_def)
  qed
  have D: "\<forall>err. outcome = Inl err \<and> \<not> truthy cached \<and>
       buildFallbackPayloadFromSnapshot cfg w (loadRepoSnapshot w) = Inr JNull \<longrightarrow>
       get_dashboard cfg w s =
         (Inr \<lparr>status = 503, x_cache_status = None,
               body = message
                 ''Unable to refresh GitHub data cache. Configure GH_API_TOKEN to increase API limits.''\<rparr>,
          s1)"
    by (simp add: gd)
  have E: "\<forall>r. fst (get_dashboard cfg w s) = Inr r \<and> status r = 503 \<longrightarrow>
       (\<exists>err. outcome = Inl err) \<and> \<not> truthy cached \<and>
       buildFallbackPayloadFromSnapshot cfg w (loadRepoSnapshot w) = Inr JNull \<and>
       body r = message
         ''Unable to refresh GitHub data cache. Configure GH_API_TOKEN to increase API limits.''"
  proof (intro allI impI)
    fix r
    assume a: "fst (get_dashboard cfg w s) = Inr r \<and> status r = 503"
    show "(\<exists>err. outcome = Inl err) \<and> \<not> truthy cached \<and>
       buildFallbackPayloadFromSnapshot cfg w (loadRepoSnapshot w) = Inr JNull \<and>
       body r = message
         ''Unable to refresh GitHub data cache. Configure GH_API_TOKEN to increase API limits.''"
    proof (cases outcome)
      case (Inr fresh)
      then show ?thesis using a by (auto simp: gd)
    next
      case (Inl err)
      show ?thesis
      proof (cases "truthy cached")
        case True
        then show ?thesis using a Inl by (auto simp: gd)
      next
        case False
        show ?thesis
        proof (cases "buildFallbackPayloadFromSnapshot cfg w (loadRepoSnapshot w)")
          case (Inl e)
          then show ?thesis using a \<open>outcome = Inl err\<close> False by (simp add: gd)
        next
          case (Inr fb)
          have "\<not> truthy fb"
            using a \<open>outcome = Inl err\<close> False Inr
            by (auto simp: gd split: if_splits sum.splits)
          then have "fb = JNull" using buildFallback_truthy[OF Inr] by blast
          then show ?thesis
            using a \<open>outcome = Inl err\<close> False Inr by (auto simp: gd)
        qed
      qed
    qed
  qed
  have F: "\<forall>err e. outcome = Inl err \<and> \<not> truthy cached \<and>
       buildFallbackPayloadFromSnapshot cfg w (loadRepoSnapshot w) = Inl e \<longrightarrow>
       get_dashboard cfg w s = (Inl e, s1)"
    by (simp add: gd)
  have G: "\<forall>err fb. outcome = Inl err \<and> \<not> truthy cached \<and>
       buildFallbackPayloadFromSnapshot cfg w (loadRepoSnapshot w) = Inr fb \<and> fb \<noteq> JNull \<and>
       redisClient s \<and> \<not> fallback_set_ok w \<longrightarrow>
       get_dashboard cfg w s = (Inl StoreError, s1)"
  proof (intro allI impI)
    fix err fb
    assume a: "outcome = Inl err \<and> \<not> truthy cached \<and>
       buildFallbackPayloadFromSnapshot cfg w (loadRepoSnapshot w) = Inr fb \<and> fb \<noteq> JNull \<and>
       redisClient s \<and> \<not> fallback_set_ok w"
    then have t: "truthy fb" using buildFallback_truthy by blast
    show "get_dashboard cfg w s = (Inl StoreError, s1)"
      using a t rc1 by (simp add: gd writeCachedPayload_def)
  qed
  have H: "\<forall>e. fst (get_dashboard cfg w s) = Inl e \<longrightarrow>
       (\<exists>err. outcome = Inl err) \<and> \<not> truthy cached \<and>
       (buildFallbackPayloadFromSnapshot cfg w (loadRepoSnapshot w) = Inl e \<or>
        (\<exists>fb. buildFallbackPayloadFromSnapshot cfg w (loadRepoSnapshot w) = Inr fb \<and>
              fb \<noteq> JNull \<and> redisClient s \<and> \<not> fallback_set_ok w \<and> e = StoreError))"
  proof (intro allI impI)
    fix e
    assume a: "fst (get_dashboard cfg w s) = Inl e"
    show "(\<exists>err. outcome = Inl err) \<and> \<not> truthy cached \<and>
       (buildFallbackPayloadFromSnapshot cfg w (loadRepoSnapshot w) = Inl e \<or>
        (\<exists>fb. buildFallbackPayloadFromSnapshot cfg w (loadRepoSnapshot w) = Inr fb \<and>
              fb \<noteq> JNull \<and> redisClient s \<and> \<not> fallback_set_ok w \<and> e = StoreError))"
    proof (cases outcome)
      case (Inr fresh)
      then show ?thesis using a by (simp add: gd)
    next
      case (Inl err)
      show ?thesis
      proof (cases "truthy cached")
        case True
        then show ?thesis using a Inl by (simp add: gd)
      next
        case False
        show ?thesis
        proof (cases "buildFallbackPayloadFromSnapshot cfg w (loadRepoSnapshot w)")
          case (Inl e')
          then show ?thesis using a \<open>outcome = Inl err\<close> False by (simp add: gd)
        next
          case (Inr fb)
          have t: "truthy fb"
            using a \<open>outcome = Inl err\<close> False Inr
            by (auto simp: gd split: if_splits)
          then have nn: "fb \<noteq> JNull" by auto
          have "redisClient s \<and> \<not> fallback_set_ok w \<and> e = StoreError"
            using a \<open>outcome = Inl err\<close> False Inr t rc1
            by (auto simp: gd writeCachedPayload_def split: if_splits)
          then show ?thesis using \<open>outcome = Inl err\<close> False Inr nn by simp
        qed
      qed
    qed
  qed
  show ?thesis
    by (intro conjI) (rule A, rule B, rule C, rule D, rule E, rule F, rule G, rule H)
qed

text \<open>
  With the upstream API down and no Redis: an empty cache and a valid local file give
  FALLBACK, a snapshot fetched 40 minutes ago is answered STALE, and with an empty cache
  and a local file that holds \<^verbatim>\<open>[null]\<close> the handler throws the TypeError of the
  fallback.
\<close>

theorem get_dashboard_degrades_witness:
  "readCachedPayload example_world_down example_server = Inr JNull \<and>
   \<not> (truthy JNull \<and> isPayloadFresh example_config example_world_down JNull) \<and>
   refreshCache example_config example_world_down example_server =
     (Inl (RequestFailed ''500 Internal Server Error''), example_server\<lparr>builds_started := 1\<rparr>) \<and>
   buildFallbackPayloadFromSnapshot example_config example_world_down
     (loadRepoSnapshot example_world_down) = Inr example_fallback_payload \<and>
   example_fallback_payload \<noteq> JNull \<and>
   \<not> redisClient example_server \<and>
   (\<exists>s2. get_dashboard example_config example_world_down example_server =
           (Inr \<lparr>status = 200, x_cache_status = Some FALLBACK,
                 body = example_fallback_payload\<rparr>, s2) \<and>
         inMemoryCache s2 = example_fallback_payload) \<and>
   readCachedPayload example_world_down
     (example_server\<lparr>inMemoryCache := example_snapshot ''2026-11-02T11:20:00.000Z''\<rparr>) =
     Inr (example_snapshot ''2026-11-02T11:20:00.000Z'') \<and>
   \<not> isPayloadFresh example_config example_world_down
       (example_snapshot ''2026-11-02T11:20:00.000Z'') \<and>
   get_dashboard example_config example_world_down
     (example_server\<lparr>inMemoryCache := example_snapshot ''2026-11-02T11:20:00.000Z''\<rparr>) =
     (Inr \<lparr>status = 200, x_cache_status = Some STALE,
           body = example_snapshot ''2026-11-02T11:20:00.000Z''\<rparr>,
      example_server\<lparr>inMemoryCache := example_snapshot ''2026-11-02T11:20:00.000Z'',
                     builds_started := 1\<rparr>) \<and>
   readCachedPayload (example_world_down\<lparr>repos_file := Inr ''[null]''\<rparr>) example_server =
     Inr JNull \<and>
   refreshCache example_config (example_world_down\<lparr>repos_file := Inr ''[null]''\<rparr>)
     example_server =
     (Inl (RequestFailed ''500 Internal Server Error''), example_server\<lparr>builds_started := 1\<rparr>) \<and>
   buildFallbackPayloadFromSnapshot example_config
     (example_world_down\<lparr>repos_file := Inr ''[null]''\<rparr>)
     (loadRepoSnapshot (example_world_down\<lparr>repos_file := Inr ''[null]''\<rparr>)) = Inl TypeError \<and>
   get_dashboard example_config (example_world_down\<lparr>repos_file := Inr ''[null]''\<rparr>)
     example_server =
     (Inl TypeError, example_server\<lparr>builds_started := 1\<rparr>)"
proof -
  let ?old = "example_snapshot ''2026-11-02T11:20:00.000Z''"
  let ?nul = "example_world_down\<lparr>repos_file := Inr ''[null]''\<rparr>"
  have r3: "readCachedPayload ?nul example_server = Inr JNull"
    by (simp add: readCachedPayload_def example_server_def)
  have n3: "\<not> (truthy JNull \<and> isPayloadFresh example_config ?nul JNull)"
    by simp
  note d3 = get_dashboard_degrades[OF r3 n3 example_null_file_refresh]
  have g3: "get_dashboard example_config ?nul example_server =
     (Inl TypeError, example_server\<lparr>builds_started := 1\<rparr>)"
    using d3[THEN conjunct2, THEN conjunct2, THEN conjunct2, THEN conjunct2, THEN conjunct2,
        THEN conjunct1, rule_format,
        of "RequestFailed ''500 Internal Server Error''" TypeError]
      example_null_file_fallback by simp
  have r1: "readCachedPayload example_world_down example_server = Inr JNull"
    by (simp add: readCachedPayload_def example_server_def)
  have n1: "\<not> (truthy JNull \<and> isPayloadFresh example_config example_world_down JNull)"
    by simp
  have c: "\<not> redisClient example_server" by (simp add: example_server_def)
  have nn: "example_fallback_payload \<noteq> JNull" using example_fallback by simp
  have r2: "readCachedPayload example_world_down (example_server\<lparr>inMemoryCache := ?old\<rparr>) = Inr ?old"
    by (simp add: readCachedPayload_def example_server_def)
  have f2: "\<not> isPayloadFresh example_config example_world_down ?old"
    by code_simp
  then have n2: "\<not> (truthy ?old \<and> isPayloadFresh example_config example_world_down ?old)"
    by simp
  have t2: "truthy ?old" by (simp add: example_snapshot_def)
  note d1 = get_dashboard_degrades[OF r1 n1 example_down_refresh]
  note d2 = get_dashboard_degrades[OF r2 n2 example_down_refresh_stale]
  have "\<exists>s2. get_dashboard example_config example_world_down example_server =
           (Inr \<lparr>status = 200, x_cache_status = Some FALLBACK,
                 body = example_fallback_payload\<rparr>, s2) \<and>
         inMemoryCache s2 = example_fallback_payload"
    using d1[THEN conjunct2, THEN conjunct2, THEN conjunct1, rule_format,
        of "RequestFailed ''500 Internal Server Error''" example_fallback_payload]
      example_down_fallback nn c by auto
  moreover have "get_dashboard example_config example_world_down
     (example_server\<lparr>inMemoryCache := ?old\<rparr>) =
     (Inr \<lparr>status = 200, x_cache_status = Some STALE, body = ?old\<rparr>,
      example_server\<lparr>inMemoryCache := ?old, builds_started := 1\<rparr>)"
    using d2[THEN conjunct2, THEN conjunct1, rule_format,
        of "RequestFailed ''500 Internal Server Error''"] t2 by simp
  ultimately show ?thesis
    using r1 n1 c nn r2 f2 example_down_refresh example_down_fallback
      r3 example_null_file_refresh example_null_file_fallback g3
    by simp
qed

text \<open>
  C2 as stated fails where the fallback branch throws. With Redis connected and empty,
  the upstream API down, a valid local file and \<^verbatim>\<open>redisClient.set\<close> rejecting, the
  fallback builds its snapshot but the handler throws the store's error instead of
  answering FALLBACK, and nothing is stored. Without Redis, with the upstream API down
  and an empty cache, the handler throws a TypeError when the local file holds
  \<^verbatim>\<open>[null]\<close>, and a RangeError when the local file is valid and
  \<^verbatim>\<open>GITHUB_COMMIT_HISTORY_DAYS\<close> is 200,000,000: every tier has failed, and the
  answer is not the unavailable-service response.
\<close>

theorem get_dashboard_fallback_throws:
  "readCachedPayload (example_world_down\<lparr>fallback_set_ok := False\<rparr>)
     (example_server\<lparr>redisClient := True\<rparr>) = Inr JNull \<and>
   fst (refreshCache example_config (example_world_down\<lparr>fallback_set_ok := False\<rparr>)
     (example_server\<lparr>redisClient := True\<rparr>)) = Inl (RequestFailed ''500 Internal Server Error'') \<and>
   buildFallbackPayloadFromSnapshot example_config (example_world_down\<lparr>fallback_set_ok := False\<rparr>)
     (loadRepoSnapshot (example_world_down\<lparr>fallback_set_ok := False\<rparr>)) =
     Inr example_fallback_payload \<and>
   example_fallback_payload \<noteq> JNull \<and>
   fst (get_dashboard example_config (example_world_down\<lparr>fallback_set_ok := False\<rparr>)
     (example_server\<lparr>redisClient := True\<rparr>)) = Inl StoreError \<and>
   cache_store (snd (get_dashboard example_config (example_world_down\<lparr>fallback_set_ok := False\<rparr>)
     (example_server\<lparr>redisClient := True\<rparr>))) = (None, JNull) \<and>
   readCachedPayload (example_world_down\<lparr>repos_file := Inr ''[null]''\<rparr>) example_server =
     Inr JNull \<and>
   fst (refreshCache example_config (example_world_down\<lparr>repos_file := Inr ''[null]''\<rparr>)
     example_server) = Inl (RequestFailed ''500 Internal Server Error'') \<and>
   loadRepoSnapshot (example_world_down\<lparr>repos_file := Inr ''[null]''\<rparr>) = JArr [JNull] \<and>
   fst (get_dashboard example_config (example_world_down\<lparr>repos_file := Inr ''[null]''\<rparr>)
     example_server) = Inl TypeError \<and>
   readCachedPayload example_world_down example_server = Inr JNull \<and>
   fst (refreshCache (example_config\<lparr>GITHUB_COMMIT_HISTORY_DAYS := Some 200000000\<rparr>)
     example_world_down example_server) = Inl (RequestFailed ''500 Internal Server Error'') \<and>
   loadRepoSnapshot example_world_down = JArr [JObj []] \<and>
   fst (get_dashboard (example_config\<lparr>GITHUB_COMMIT_HISTORY_DAYS := Some 200000000\<rparr>)
     example_world_down example_server) = Inl RangeError"
  by code_simp

section \<open>C3: a fresh snapshot is a HIT\<close>

text \<open>
  C3. When the snapshot read from the store has a \<^verbatim>\<open>fetched_at\<close> that is present and
  parses to a time with \<open>now - fetched_at \<le> ttl_minutes * 60000\<close> milliseconds, the read
  endpoint answers it with status HIT and leaves the whole server state as it was: no
  refresh is joined and no upstream build is started. When \<^verbatim>\<open>fetched_at\<close> is missing
  (falsy) or does not parse, the snapshot is not fresh, the answer is never a HIT, and
  the handler goes through \<^verbatim>\<open>refreshCache\<close>: with no refresh in flight exactly one
  upstream build is started.
\<close>

theorem get_dashboard_fresh_hit:
  "(readCachedPayload w s = Inr cached \<and> truthy (meta_fetched_at cached) \<and>
    Date_parse w (meta_fetched_at cached) = Some fetchedAt \<and>
    clock w - fetchedAt \<le> normalizedTtlMinutes cfg * 60000 \<longrightarrow>
      get_dashboard cfg w s =
        (Inr \<lparr>status = 200, x_cache_status = Some HIT, body = cached\<rparr>, s)) \<and>
   (readCachedPayload w s = Inr cached \<and>
    (\<not> truthy (meta_fetched_at cached) \<or> Date_parse w (meta_fetched_at cached) = None) \<longrightarrow>
      \<not> isPayloadFresh cfg w cached \<and>
      (\<forall>r. fst (get_dashboard cfg w s) = Inr r \<longrightarrow> x_cache_status r \<noteq> Some HIT) \<and>
      (refreshPromise s = None \<longrightarrow>
         builds_started (snd (get_dashboard cfg w s)) = Suc (builds_started s)))"
proof (intro conjI impI)
  assume a: "readCachedPayload w s = Inr cached \<and> truthy (meta_fetched_at cached) \<and>
    Date_parse w (meta_fetched_at cached) = Some fetchedAt \<and>
    clock w - fetchedAt \<le> normalizedTtlMinutes cfg * 60000"
  then have "truthy cached" by (simp add: truthy_meta_fetched_at)
  moreover have "isPayloadFresh cfg w cached" using a by (simp add: isPayloadFresh_def)
  ultimately show "get_dashboard cfg w s =
        (Inr \<lparr>status = 200, x_cache_status = Some HIT, body = cached\<rparr>, s)"
    using a by (simp add: get_dashboard_def)
next
  assume a: "readCachedPayload w s = Inr cached \<and>
    (\<not> truthy (meta_fetched_at cached) \<or> Date_parse w (meta_fetched_at cached) = None)"
  then have nf: "\<not> isPayloadFresh cfg w cached" by (auto simp: isPayloadFresh_def)
  show "\<not> isPayloadFresh cfg w cached" by (rule nf)
  show "\<forall>r. fst (get_dashboard cfg w s) = Inr r \<longrightarrow> x_cache_status r \<noteq> Some HIT"
    using get_dashboard_not_fresh_status a nf by blast
  show "builds_started (snd (get_dashboard cfg w s)) = Suc (builds_started s)"
    if "refreshPromise s = None"
    using get_dashboard_not_fresh_builds a nf that by blast
qed


text \<open>
  A snapshot fetched ten minutes ago under a TTL of 30 minutes is a HIT; one whose
  \<^verbatim>\<open>fetched_at\<close> is the text \<^verbatim>\<open>yesterday\<close> is refreshed.
\<close>

theorem get_dashboard_fresh_hit_witness:
  "readCachedPayload example_world
     (example_server\<lparr>inMemoryCache := example_snapshot ''2026-11-02T11:50:00.000Z''\<rparr>) =
     Inr (example_snapshot ''2026-11-02T11:50:00.000Z'') \<and>
   truthy (meta_fetched_at (example_snapshot ''2026-11-02T11:50:00.000Z'')) \<and>
   Date_parse example_world (meta_fetched_at (example_snapshot ''2026-11-02T11:50:00.000Z'')) =
     Some 1793620200000 \<and>
   clock example_world - 1793620200000 \<le> normalizedTtlMinutes example_config * 60000 \<and>
   get_dashboard example_config example_world
     (example_server\<lparr>inMemoryCache := example_snapshot ''2026-11-02T11:50:00.000Z''\<rparr>) =
     (Inr \<lparr>status = 200, x_cache_status = Some HIT,
           body = example_snapshot ''2026-11-02T11:50:00.000Z''\<rparr>,
      example_server\<lparr>inMemoryCache := example_snapshot ''2026-11-02T11:50:00.000Z''\<rparr>) \<and>
   readCachedPayload example_world
     (example_server\<lparr>inMemoryCache := example_snapshot ''yesterday''\<rparr>) =
     Inr (example_snapshot ''yesterday'') \<and>
   Date_parse example_world (meta_fetched_at (example_snapshot ''yesterday'')) = None \<and>
   \<not> isPayloadFresh example_config example_world (example_snapshot ''yesterday'') \<and>
   builds_started (snd (get_dashboard example_config example_world
     (example_server\<lparr>inMemoryCache := example_snapshot ''yesterday''\<rparr>))) = 1"
proof -
  let ?hit = "example_snapshot ''2026-11-02T11:50:00.000Z''"
  let ?bad = "example_snapshot ''yesterday''"
  have h1: "readCachedPayload example_world (example_server\<lparr>inMemoryCache := ?hit\<rparr>) = Inr ?hit \<and>
      truthy (meta_fetched_at ?hit) \<and>
      Date_parse example_world (meta_fetched_at ?hit) = Some 1793620200000 \<and>
      clock example_world - 1793620200000 \<le> normalizedTtlMinutes example_config * 60000"
    by (simp add: example_defs readCachedPayload_def meta_fetched_at_def opt_prop_def
          normalizedTtlMinutes_def assertPositiveInteger_def)
  have h2: "readCachedPayload example_world (example_server\<lparr>inMemoryCache := ?bad\<rparr>) = Inr ?bad \<and>
      (\<not> truthy (meta_fetched_at ?bad) \<or> Date_parse example_world (meta_fetched_at ?bad) = None)"
    by (simp add: example_defs readCachedPayload_def meta_fetched_at_def opt_prop_def)
  have n: "refreshPromise (example_server\<lparr>inMemoryCache := ?bad\<rparr>) = None"
    "builds_started (example_server\<lparr>inMemoryCache := ?bad\<rparr>) = 0"
    by (simp_all add: example_server_def)
  have p: "Date_parse example_world (meta_fetched_at ?bad) = None"
    by (simp add: example_defs meta_fetched_at_def opt_prop_def)
  note t1 = get_dashboard_fresh_hit[of example_world "example_server\<lparr>inMemoryCache := ?hit\<rparr>"
      ?hit 1793620200000 example_config, THEN conjunct1, rule_format, OF h1]
  note t2 = get_dashboard_fresh_hit[of example_world "example_server\<lparr>inMemoryCache := ?bad\<rparr>"
      ?bad _ example_config, THEN conjunct2, rule_format, OF h2]
  show ?thesis using h1 h2 t1 t2 n p by simp
qed

section \<open>C4: failures of the Redis backend\<close>

text \<open>
  C4 (as amended). A failure of the durable backend is not absorbed.
  \<^item> Without a Redis client (the in-memory backend) the read returns the in-memory
    snapshot and the write assigns it: neither can fail.
  \<^item> With a Redis client, a rejected \<^verbatim>\<open>get\<close> and a stored text that is not JSON make
    \<^verbatim>\<open>readCachedPayload\<close> throw, and whenever it throws the read endpoint's handler throws
    the same error: it answers nothing itself, starts no refresh and leaves the server state
    as it was.
  \<^item> With a Redis client, a rejected \<^verbatim>\<open>set\<close> in a refresh makes the refresh fail with
    the store's error although the upstream build succeeded, and leaves the cache store
    as it was.
\<close>

theorem store_errors_surface:
  "(\<not> redisClient s \<longrightarrow>
      readCachedPayload w s = Inr (inMemoryCache s) \<and>
      writeCachedPayload w ok p s = Inr (s\<lparr>inMemoryCache := p\<rparr>)) \<and>
   (redisClient s \<and> \<not> redis_get_ok w \<longrightarrow> readCachedPayload w s = Inl StoreError) \<and>
   (redisClient s \<and> redis_get_ok w \<and> redisStore s = Some raw \<and> raw \<noteq> [] \<and>
    JSON_parse w raw = None \<longrightarrow> readCachedPayload w s = Inl SyntaxError) \<and>
   (readCachedPayload w s = Inl e \<longrightarrow> get_dashboard cfg w s = (Inl e, s)) \<and>
   (redisClient s \<and> refreshPromise s = None \<and> fetchFreshPayload cfg w = Inr p \<and>
    \<not> refresh_set_ok w \<longrightarrow>
      fst (refreshCache cfg w s) = Inl StoreError \<and>
      cache_store (snd (refreshCache cfg w s)) = cache_store s)"
proof (intro conjI impI)
  assume "\<not> redisClient s"
  then show "readCachedPayload w s = Inr (inMemoryCache s)"
    and "writeCachedPayload w ok p s = Inr (s\<lparr>inMemoryCache := p\<rparr>)"
    by (simp_all add: readCachedPayload_def writeCachedPayload_def)
next
  assume "redisClient s \<and> \<not> redis_get_ok w"
  then show "readCachedPayload w s = Inl StoreError"
    by (simp add: readCachedPayload_def)
next
  assume "redisClient s \<and> redis_get_ok w \<and> redisStore s = Some raw \<and> raw \<noteq> [] \<and>
    JSON_parse w raw = None"
  then show "readCachedPayload w s = Inl SyntaxError"
    by (simp add: readCachedPayload_def)
next
  assume "readCachedPayload w s = Inl e"
  then show "get_dashboard cfg w s = (Inl e, s)"
    by (simp add: get_dashboard_def)
next
  assume a: "redisClient s \<and> refreshPromise s = None \<and> fetchFreshPayload cfg w = Inr p \<and>
    \<not> refresh_set_ok w"
  then show f: "fst (refreshCache cfg w s) = Inl StoreError"
    using refreshCache_write_fails by blast
  show "cache_store (snd (refreshCache cfg w s)) = cache_store s"
    using f by (rule refreshCache_fails_cache_store)
qed

text \<open>
  The in-memory backend reads and writes; with Redis connected, a rejected
  \<^verbatim>\<open>get\<close> and the stored text \<^verbatim>\<open>{meta\<close> fail the read, and a rejected \<^verbatim>\<open>set\<close> fails
  the refresh and stores nothing.
\<close>

theorem store_errors_surface_witness:
  "\<not> redisClient example_server \<and>
   readCachedPayload example_world example_server = Inr JNull \<and>
   writeCachedPayload example_world False example_fresh_payload example_server =
     Inr (example_server\<lparr>inMemoryCache := example_fresh_payload\<rparr>) \<and>
   redisClient (example_server\<lparr>redisClient := True\<rparr>) \<and>
   \<not> redis_get_ok (example_world\<lparr>redis_get_ok := False\<rparr>) \<and>
   readCachedPayload (example_world\<lparr>redis_get_ok := False\<rparr>)
     (example_server\<lparr>redisClient := True\<rparr>) = Inl StoreError \<and>
   get_dashboard example_config (example_world\<lparr>redis_get_ok := False\<rparr>)
     (example_server\<lparr>redisClient := True\<rparr>) =
     (Inl StoreError, example_server\<lparr>redisClient := True\<rparr>) \<and>
   redisStore (example_server\<lparr>redisClient := True, redisStore := Some ''{meta''\<rparr>) =
     Some ''{meta'' \<and>
   JSON_parse example_world ''{meta'' = None \<and>
   readCachedPayload example_world
     (example_server\<lparr>redisClient := True, redisStore := Some ''{meta''\<rparr>) = Inl SyntaxError \<and>
   refreshPromise (example_server\<lparr>redisClient := True\<rparr>) = None \<and>
   fetchFreshPayload example_config (example_world\<lparr>refresh_set_ok := False\<rparr>) =
     Inr example_fresh_payload \<and>
   \<not> refresh_set_ok (example_world\<lparr>refresh_set_ok := False\<rparr>) \<and>
   fst (refreshCache example_config (example_world\<lparr>refresh_set_ok := False\<rparr>)
     (example_server\<lparr>redisClient := True\<rparr>)) = Inl StoreError \<and>
   cache_store (snd (refreshCache example_config (example_world\<lparr>refresh_set_ok := False\<rparr>)
     (example_server\<lparr>redisClient := True\<rparr>))) = (None, JNull)"
proof -
  let ?redis = "example_server\<lparr>redisClient := True\<rparr>"
  let ?noget = "example_world\<lparr>redis_get_ok := False\<rparr>"
  let ?noset = "example_world\<lparr>refresh_set_ok := False\<rparr>"
  let ?bad = "example_server\<lparr>redisClient := True, redisStore := Some ''{meta''\<rparr>"
  have h1: "\<not> redisClient example_server" by (simp add: example_server_def)
  have h2: "redisClient ?redis \<and> \<not> redis_get_ok ?noget" by simp
  have h3: "redisClient ?bad \<and> redis_get_ok example_world \<and> redisStore ?bad = Some ''{meta'' \<and>
      ''{meta'' \<noteq> [] \<and> JSON_parse example_world ''{meta'' = None"
    by (simp add: example_defs)
  have f: "fetchFreshPayload example_config ?noset = Inr example_fresh_payload"
    by code_simp
  have h5: "redisClient ?redis \<and> refreshPromise ?redis = None \<and>
      fetchFreshPayload example_config ?noset = Inr example_fresh_payload \<and>
      \<not> refresh_set_ok ?noset"
    using f by (simp add: example_server_def)
  have cs: "cache_store ?redis = (None, JNull)"
    by (simp add: cache_store_def example_server_def)
  have im: "inMemoryCache example_server = JNull" by (simp add: example_server_def)
  note t1 = store_errors_surface[of example_server example_world False example_fresh_payload,
      THEN conjunct1, rule_format, OF h1]
  note t2 = store_errors_surface[of ?redis ?noget,
      THEN conjunct2, THEN conjunct1, rule_format, OF h2]
  note t3 = store_errors_surface[of ?bad example_world _ _ "''{meta''",
      THEN conjunct2, THEN conjunct2, THEN conjunct1, rule_format, OF h3]
  note t4 = store_errors_surface[of ?redis ?noget _ _ _ StoreError example_config,
      THEN conjunct2, THEN conjunct2, THEN conjunct2, THEN conjunct1, rule_format, OF t2]
  note t5 = store_errors_surface[of ?redis ?noset _ example_fresh_payload _ _ example_config,
      THEN conjunct2, THEN conjunct2, THEN conjunct2, THEN conjunct2, rule_format, OF h5]
  show ?thesis
    using h1 h2 h3 h5 t1 t2 t3 t4 t5 by (simp add: cs im)
qed

text \<open>
  C4 as stated fails. With Redis connected and empty, a cache miss is answered MISS with
  the fresh snapshot, but a rejected \<^verbatim>\<open>get\<close> in the same world makes the read
  endpoint's handler throw; and with \<^verbatim>\<open>set\<close> rejecting, the refresh fails although
  the upstream build succeeded, so a manual refresh answers 503.
\<close>

theorem store_error_is_not_a_miss:
  "fst (get_dashboard example_config example_world (example_server\<lparr>redisClient := True\<rparr>)) =
     Inr \<lparr>status = 200, x_cache_status = Some MISS, body = example_fresh_payload\<rparr> \<and>
   fst (get_dashboard example_config (example_world\<lparr>redis_get_ok := False\<rparr>)
     (example_server\<lparr>redisClient := True\<rparr>)) = Inl StoreError \<and>
   fetchFreshPayload example_config (example_world\<lparr>refresh_set_ok := False\<rparr>) =
     Inr example_fresh_payload \<and>
   fst (refreshCache example_config (example_world\<lparr>refresh_set_ok := False\<rparr>)
     (example_server\<lparr>redisClient := True\<rparr>)) = Inl StoreError \<and>
   fst (post_refresh (example_config\<lparr>CACHE_REFRESH_TOKEN := []\<rparr>)
     (example_world\<lparr>refresh_set_ok := False\<rparr>) None (example_server\<lparr>redisClient := True\<rparr>)) =
     Inr \<lparr>status = 503, x_cache_status = None, body = message ''GitHub cache refresh failed.''\<rparr>"
  by code_simp

section \<open>C5: a failed refresh does not touch the cache store\<close>

text \<open>
  C5. A refresh that fails leaves the cache store (the Redis entry and the in-memory
  snapshot) as it was. On the read endpoint, a prior snapshot that is no longer fresh is
  answered unchanged with status STALE when the refresh fails, and is still what the
  store returns afterwards; whenever the answer is 503 the store is what it was, so an
  empty store stays empty. The store changes only with an answer of status MISS or
  REFRESH (a successful refresh) or FALLBACK (a successful fallback load); on the
  manual-refresh endpoint and in the scheduler only with a successful refresh; in the
  warm-up at startup only with a successful refresh or a snapshot from the fallback.
\<close>

theorem failed_refresh_keeps_store:
  "(fst (refreshCache cfg w s) = Inl e \<longrightarrow>
      cache_store (snd (refreshCache cfg w s)) = cache_store s) \<and>
   (readCachedPayload w s = Inr cached \<and> truthy cached \<and> \<not> isPayloadFresh cfg w cached \<and>
    fst (refreshCache cfg w s) = Inl e \<longrightarrow>
      fst (get_dashboard cfg w s) =
        Inr \<lparr>status = 200, x_cache_status = Some STALE, body = cached\<rparr> \<and>
      cache_store (snd (get_dashboard cfg w s)) = cache_store s \<and>
      readCachedPayload w (snd (get_dashboard cfg w s)) = Inr cached) \<and>
   (fst (get_dashboard cfg w s) = Inr r \<and> status r = 503 \<longrightarrow>
      cache_store (snd (get_dashboard cfg w s)) = cache_store s) \<and>
   (cache_store (snd (get_dashboard cfg w s)) \<noteq> cache_store s \<longrightarrow>
      (\<exists>r. fst (get_dashboard cfg w s) = Inr r \<and> status r = 200 \<and>
           (x_cache_status r = Some MISS \<or> x_cache_status r = Some REFRESH \<or>
            x_cache_status r = Some FALLBACK))) \<and>
   (cache_store (snd (post_refresh cfg w token s)) \<noteq> cache_store s \<longrightarrow>
      (\<exists>payload. fst (refreshCache cfg w s) = Inr payload \<and>
         fst (post_refresh cfg w token s) =
           Inr \<lparr>status = 200, x_cache_status = Some REFRESH, body = payload\<rparr>)) \<and>
   (cache_store (scheduled_refresh cfg w s) \<noteq> cache_store s \<longrightarrow>
      (\<exists>payload. fst (refreshCache cfg w s) = Inr payload)) \<and>
   (cache_store (snd (startup_warmup cfg w s)) \<noteq> cache_store s \<longrightarrow>
      (\<exists>payload. fst (refreshCache cfg w s) = Inr payload) \<or>
      (\<exists>fb. buildFallbackPayloadFromSnapshot cfg w (loadRepoSnapshot w) = Inr fb \<and>
            fb \<noteq> JNull))"
proof (intro conjI impI)
  assume "fst (refreshCache cfg w s) = Inl e"
  then show "cache_store (snd (refreshCache cfg w s)) = cache_store s"
    by (rule refreshCache_fails_cache_store)
next
  assume a: "readCachedPayload w s = Inr cached \<and> truthy cached \<and>
    \<not> isPayloadFresh cfg w cached \<and> fst (refreshCache cfg w s) = Inl e"
  obtain outcome s1 where rc: "refreshCache cfg w s = (outcome, s1)"
    by (cases "refreshCache cfg w s")
  have o: "outcome = Inl e" using a rc by simp
  have gd: "get_dashboard cfg w s =
      (Inr \<lparr>status = 200, x_cache_status = Some STALE, body = cached\<rparr>, s1)"
    using get_dashboard_after_read[OF _ _ rc, of cached] a o by simp
  have same: "cache_store s1 = cache_store s"
    using refreshCache_fails_cache_store[of cfg w s e] a rc by simp
  have cl: "redisClient s1 = redisClient s"
    using refreshCache_redisClient[of cfg w s] rc by simp
  show "fst (get_dashboard cfg w s) =
        Inr \<lparr>status = 200, x_cache_status = Some STALE, body = cached\<rparr>"
    by (simp add: gd)
  show "cache_store (snd (get_dashboard cfg w s)) = cache_store s"
    by (simp add: gd same)
  show "readCachedPayload w (snd (get_dashboard cfg w s)) = Inr cached"
    using readCachedPayload_cong[OF cl same, of w] a by (simp add: gd)
next
  assume a: "fst (get_dashboard cfg w s) = Inr r \<and> status r = 503"
  show "cache_store (snd (get_dashboard cfg w s)) = cache_store s"
  proof (rule ccontr)
    assume "cache_store (snd (get_dashboard cfg w s)) \<noteq> cache_store s"
    then obtain r' where "fst (get_dashboard cfg w s) = Inr r'" "status r' = 200"
      using get_dashboard_store_changes by blast
    then show False using a by simp
  qed
next
  assume "cache_store (snd (get_dashboard cfg w s)) \<noteq> cache_store s"
  then show "\<exists>r. fst (get_dashboard cfg w s) = Inr r \<and> status r = 200 \<and>
           (x_cache_status r = Some MISS \<or> x_cache_status r = Some REFRESH \<or>
            x_cache_status r = Some FALLBACK)"
    by (rule get_dashboard_store_changes)
next
  assume a: "cache_store (snd (post_refresh cfg w token s)) \<noteq> cache_store s"
  obtain outcome s1 where rc: "refreshCache cfg w s = (outcome, s1)"
    by (cases "refreshCache cfg w s")
  show "\<exists>payload. fst (refreshCache cfg w s) = Inr payload \<and>
         fst (post_refresh cfg w token s) =
           Inr \<lparr>status = 200, x_cache_status = Some REFRESH, body = payload\<rparr>"
  proof (cases outcome)
    case (Inl err)
    then have "cache_store s1 = cache_store s"
      using refreshCache_fails_cache_store[of cfg w s err] rc by simp
    then show ?thesis using a rc Inl by (auto simp: post_refresh_def split: if_splits)
  next
    case (Inr payload)
    then show ?thesis using a rc by (auto simp: post_refresh_def split: if_splits)
  qed
next
  assume a: "cache_store (scheduled_refresh cfg w s) \<noteq> cache_store s"
  show "\<exists>payload. fst (refreshCache cfg w s) = Inr payload"
  proof (cases "fst (refreshCache cfg w s)")
    case (Inl err)
    then show ?thesis
      using a refreshCache_fails_cache_store[of cfg w s err] by (simp add: scheduled_refresh_def)
  next
    case (Inr payload)
    then show ?thesis by blast
  qed
next
  assume a: "cache_store (snd (startup_warmup cfg w s)) \<noteq> cache_store s"
  obtain outcome s1 where rc: "refreshCache cfg w s = (outcome, s1)"
    by (cases "refreshCache cfg w s")
  show "(\<exists>payload. fst (refreshCache cfg w s) = Inr payload) \<or>
      (\<exists>fb. buildFallbackPayloadFromSnapshot cfg w (loadRepoSnapshot w) = Inr fb \<and>
            fb \<noteq> JNull)"
  proof (cases outcome)
    case (Inr payload)
    then show ?thesis using rc by simp
  next
    case (Inl err)
    then have same: "cache_store s1 = cache_store s"
      using refreshCache_fails_cache_store[of cfg w s err] rc by simp
    show ?thesis
    proof (cases "buildFallbackPayloadFromSnapshot cfg w (loadRepoSnapshot w)")
      case (Inl e)
      then show ?thesis using a rc \<open>outcome = Inl err\<close> same by (simp add: startup_warmup_def)
    next
      case (Inr fb)
      have "truthy fb"
        using a rc \<open>outcome = Inl err\<close> same Inr
        by (auto simp: startup_warmup_def split: if_splits)
      then have "fb \<noteq> JNull" by auto
      then show ?thesis using Inr by blast
    qed
  qed
qed

text \<open>
  With the upstream API down: the refresh fails on an empty store, which stays empty; a
  snapshot of 40 minutes ago is answered STALE and stays stored; and with no local file
  either, the answer is 503 and the store stays empty.
\<close>

theorem failed_refresh_keeps_store_witness:
  "fst (refreshCache example_config example_world_down example_server) =
     Inl (RequestFailed ''500 Internal Server Error'') \<and>
   cache_store (snd (refreshCache example_config example_world_down example_server)) =
     (None, JNull) \<and>
   readCachedPayload example_world_down
     (example_server\<lparr>inMemoryCache := example_snapshot ''2026-11-02T11:20:00.000Z''\<rparr>) =
     Inr (example_snapshot ''2026-11-02T11:20:00.000Z'') \<and>
   truthy (example_snapshot ''2026-11-02T11:20:00.000Z'') \<and>
   \<not> isPayloadFresh example_config example_world_down
       (example_snapshot ''2026-11-02T11:20:00.000Z'') \<and>
   fst (refreshCache example_config example_world_down
     (example_server\<lparr>inMemoryCache := example_snapshot ''2026-11-02T11:20:00.000Z''\<rparr>)) =
     Inl (RequestFailed ''500 Internal Server Error'') \<and>
   fst (get_dashboard example_config example_world_down
     (example_server\<lparr>inMemoryCache := example_snapshot ''2026-11-02T11:20:00.000Z''\<rparr>)) =
     Inr \<lparr>status = 200, x_cache_status = Some STALE,
          body = example_snapshot ''2026-11-02T11:20:00.000Z''\<rparr> \<and>
   cache_store (snd (get_dashboard example_config example_world_down
     (example_server\<lparr>inMemoryCache := example_snapshot ''2026-11-02T11:20:00.000Z''\<rparr>))) =
     (None, example_snapshot ''2026-11-02T11:20:00.000Z'') \<and>
   fst (get_dashboard example_config (example_world_down\<lparr>repos_file := Inl FileError\<rparr>)
     example_server) =
     Inr \<lparr>status = 503, x_cache_status = None,
          body = message
            ''Unable to refresh GitHub data cache. Configure GH_API_TOKEN to increase API limits.''\<rparr> \<and>
   cache_store (snd (get_dashboard example_config
     (example_world_down\<lparr>repos_file := Inl FileError\<rparr>) example_server)) = (None, JNull)"
proof -
  let ?old = "example_snapshot ''2026-11-02T11:20:00.000Z''"
  let ?nofile = "example_world_down\<lparr>repos_file := Inl FileError\<rparr>"
  let ?msg = "message
            ''Unable to refresh GitHub data cache. Configure GH_API_TOKEN to increase API limits.''"
  have f1: "fst (refreshCache example_config example_world_down example_server) =
     Inl (RequestFailed ''500 Internal Server Error'')"
    by (simp add: example_down_refresh)
  have h2: "readCachedPayload example_world_down (example_server\<lparr>inMemoryCache := ?old\<rparr>) =
      Inr ?old \<and> truthy ?old \<and> \<not> isPayloadFresh example_config example_world_down ?old \<and>
      fst (refreshCache example_config example_world_down
        (example_server\<lparr>inMemoryCache := ?old\<rparr>)) = Inl (RequestFailed ''500 Internal Server Error'')"
    by code_simp
  have h3: "fst (get_dashboard example_config ?nofile example_server) =
      Inr \<lparr>status = 503, x_cache_status = None, body = ?msg\<rparr> \<and>
      status \<lparr>status = 503, x_cache_status = None, body = ?msg\<rparr> = 503"
    by code_simp
  have cs: "cache_store example_server = (None, JNull)"
    "cache_store (example_server\<lparr>inMemoryCache := ?old\<rparr>) = (None, ?old)"
    by (simp_all add: cache_store_def example_server_def)
  note t1 = failed_refresh_keeps_store[of example_config example_world_down example_server,
      THEN conjunct1, rule_format, OF f1]
  note t2 = failed_refresh_keeps_store[of example_config example_world_down
      "example_server\<lparr>inMemoryCache := ?old\<rparr>" _ ?old,
      THEN conjunct2, THEN conjunct1, rule_format, OF h2]
  note t3 = failed_refresh_keeps_store[of example_config ?nofile example_server,
      THEN conjunct2, THEN conjunct2, THEN conjunct1, rule_format, OF h3]
  show ?thesis
    using f1 h2 h3 t1 t2 t3 unfolding cs by simp
qed
section \<open>C6: the snapshot builder fails as a unit and degrades on the commit history\<close>

text \<open>
  C6 (as amended). When the profile request, the repository-list request or the readme
  request fails, \<^verbatim>\<open>fetchFreshPayload\<close> fails: it returns no snapshot, and a refresh
  started on it fails with the same error and leaves the Redis entry and the in-memory
  cache as they were. The same holds when a required response is not usable (a profile
  that is \<^verbatim>\<open>null\<close>, a repository list that is not an array or has a \<^verbatim>\<open>null\<close>
  entry, a readme whose encoding is not base64 or whose content is not a string), and
  when the configured history length is beyond the range of \<^verbatim>\<open>Date\<close> (its first day
  more than 100,000,000 days before the epoch). Otherwise, when only the
  commit-history request fails, the build succeeds: the snapshot is built from the
  normalized profile, the normalized repositories sorted by \<^verbatim>\<open>pushed_at\<close>, the
  decoded readme, and in the place of the commit history the zero-filled history of the
  configured length, one entry with \<^verbatim>\<open>commit_count\<close> 0 for each of the last
  \<open>normalizedHistoryDays\<close> UTC days. The clock reads a time from the epoch on, within the
  range of \<^verbatim>\<open>Date\<close>.
\<close>

theorem fetchFreshPayload_unit:
  "(((\<exists>e. user_response w = Inl e) \<or> (\<exists>e. repos_response w = Inl e) \<or>
     (\<exists>e. readme_response w = Inl e)) \<longrightarrow>
      (\<exists>e. fetchFreshPayload cfg w = Inl e \<and>
           (refreshPromise s = None \<longrightarrow>
              fst (refreshCache cfg w s) = Inl e \<and>
              redisStore (snd (refreshCache cfg w s)) = redisStore s \<and>
              inMemoryCache (snd (refreshCache cfg w s)) = inMemoryCache s))) \<and>
   (((\<exists>u. user_response w = Inr u \<and> nullish u) \<or>
     (\<exists>r. repos_response w = Inr r \<and> \<not> isArray r) \<or>
     (\<exists>rs. repos_response w = Inr (JArr rs) \<and> (\<exists>r \<in> set rs. nullish r)) \<or>
     (\<exists>d. readme_response w = Inr d \<and>
        (lookup d ''encoding'' \<noteq> JStr ''base64'' \<or> (\<forall>c. lookup d ''content'' \<noteq> JStr c))) \<or>
     (0 \<le> clock w \<and> clock w \<le> maxTime \<and>
      clock w div msPerDay + 100000000 < normalizedHistoryDays cfg - 1)) \<longrightarrow>
      (\<exists>e. fetchFreshPayload cfg w = Inl e \<and>
           (refreshPromise s = None \<longrightarrow>
              fst (refreshCache cfg w s) = Inl e \<and>
              redisStore (snd (refreshCache cfg w s)) = redisStore s \<and>
              inMemoryCache (snd (refreshCache cfg w s)) = inMemoryCache s))) \<and>
   (user_response w = Inr user \<and> \<not> nullish user \<and>
    repos_response w = Inr (JArr repos) \<and> (\<forall>r \<in> set repos. \<not> nullish r) \<and>
    readme_response w = Inr readme \<and> lookup readme ''encoding'' = JStr ''base64'' \<and>
    lookup readme ''content'' = JStr content \<and>
    commit_history_response w = Inl err \<and>
    0 \<le> clock w \<and> clock w \<le> maxTime \<and>
    normalizedHistoryDays cfg - 1 \<le> clock w div msPerDay + 100000000 \<longrightarrow>
      (\<exists>p h x ns. fetchFreshPayload cfg w = Inr p \<and>
         normalizeUser user = Inr x \<and> map_throwing normalizeRepo repos = Inr ns \<and>
         buildEmptyCommitHistory (normalizedHistoryDays cfg) (clock w) = Inr h \<and>
         p = buildPayload cfg w x (JArr (sort_by_pushed_at w ns))
               (JStr (sanitizeReadmeContent w (decodeBase64Utf8 w content))) (JArr h) \<and>
         lookup p ''commit_history'' = JArr h \<and>
         length h = nat (normalizedHistoryDays cfg) \<and>
         (\<forall>i < nat (normalizedHistoryDays cfg). h ! i =
            JObj [(''date'', JStr (utc_date_string
                     (clock w div msPerDay - (normalizedHistoryDays cfg - 1) + int i))),
                  (''commit_count'', JNum 0)])))"
proof -
  have fails: "\<exists>e. fetchFreshPayload cfg w = Inl e \<and>
           (refreshPromise s = None \<longrightarrow>
              fst (refreshCache cfg w s) = Inl e \<and>
              redisStore (snd (refreshCache cfg w s)) = redisStore s \<and>
              inMemoryCache (snd (refreshCache cfg w s)) = inMemoryCache s)"
    if "\<exists>e. fetchFreshPayload cfg w = Inl e"
  proof -
    from that obtain e where e: "fetchFreshPayload cfg w = Inl e" by blast
    have "fst (refreshCache cfg w s) = Inl e \<and>
        redisStore (snd (refreshCache cfg w s)) = redisStore s \<and>
        inMemoryCache (snd (refreshCache cfg w s)) = inMemoryCache s"
      if "refreshPromise s = None"
      using refreshCache_build_fails[OF e that] refreshCache_fails_store by blast
    then show ?thesis using e by (intro exI[of _ e]) simp
  qed
  show ?thesis
  proof (intro conjI impI)
    assume "(\<exists>e. user_response w = Inl e) \<or> (\<exists>e. repos_response w = Inl e) \<or>
       (\<exists>e. readme_response w = Inl e)"
    then show "\<exists>e. fetchFreshPayload cfg w = Inl e \<and>
           (refreshPromise s = None \<longrightarrow>
              fst (refreshCache cfg w s) = Inl e \<and>
              redisStore (snd (refreshCache cfg w s)) = redisStore s \<and>
              inMemoryCache (snd (refreshCache cfg w s)) = inMemoryCache s)"
      by (intro fails fetchFreshPayload_required_fails)
  next
    assume a: "(\<exists>u. user_response w = Inr u \<and> nullish u) \<or>
     (\<exists>r. repos_response w = Inr r \<and> \<not> isArray r) \<or>
     (\<exists>rs. repos_response w = Inr (JArr rs) \<and> (\<exists>r \<in> set rs. nullish r)) \<or>
     (\<exists>d. readme_response w = Inr d \<and>
        (lookup d ''encoding'' \<noteq> JStr ''base64'' \<or> (\<forall>c. lookup d ''content'' \<noteq> JStr c))) \<or>
     (0 \<le> clock w \<and> clock w \<le> maxTime \<and>
      clock w div msPerDay + 100000000 < normalizedHistoryDays cfg - 1)"
    have "\<exists>e. fetchFreshPayload cfg w = Inl e"
    proof (cases "0 \<le> clock w \<and> clock w \<le> maxTime \<and>
      clock w div msPerDay + 100000000 < normalizedHistoryDays cfg - 1")
      case True
      then show ?thesis by (intro fetchFreshPayload_too_long) simp_all
    next
      case False
      then show ?thesis using a by (intro fetchFreshPayload_unusable) blast
    qed
    then show "\<exists>e. fetchFreshPayload cfg w = Inl e \<and>
           (refreshPromise s = None \<longrightarrow>
              fst (refreshCache cfg w s) = Inl e \<and>
              redisStore (snd (refreshCache cfg w s)) = redisStore s \<and>
              inMemoryCache (snd (refreshCache cfg w s)) = inMemoryCache s)"
      by (rule fails)
  next
    let ?days = "normalizedHistoryDays cfg"
    let ?h = "zero_history (clock w div msPerDay) ?days"
    assume a: "user_response w = Inr user \<and> \<not> nullish user \<and>
      repos_response w = Inr (JArr repos) \<and> (\<forall>r \<in> set repos. \<not> nullish r) \<and>
      readme_response w = Inr readme \<and> lookup readme ''encoding'' = JStr ''base64'' \<and>
      lookup readme ''content'' = JStr content \<and>
      commit_history_response w = Inl err \<and>
      0 \<le> clock w \<and> clock w \<le> maxTime \<and>
      normalizedHistoryDays cfg - 1 \<le> clock w div msPerDay + 100000000"
    then have h: "buildEmptyCommitHistory ?days (clock w) = Inr ?h"
      by (intro buildEmptyCommitHistory_closed) auto
    obtain x ns where p: "normalizeUser user = Inr x" "map_throwing normalizeRepo repos = Inr ns"
      "fetchFreshPayload cfg w =
         Inr (buildPayload cfg w x (JArr (sort_by_pushed_at w ns))
                (JStr (sanitizeReadmeContent w (decodeBase64Utf8 w content))) (JArr ?h))"
      using fetchFreshPayload_usable[OF _ _ _ _ _ _ _ _ h] a by blast
    have ch: "lookup (buildPayload cfg w x (JArr (sort_by_pushed_at w ns))
                (JStr (sanitizeReadmeContent w (decodeBase64Utf8 w content))) (JArr ?h))
              ''commit_history'' = JArr ?h"
      by (simp add: buildPayload_def)
    have len: "length ?h = nat ?days"
      by (rule zero_history_length[OF normalizedHistoryDays_pos])
    have nth: "\<forall>i < nat ?days. ?h ! i = JObj [(''date'', JStr (utc_date_string
                       (clock w div msPerDay - (?days - 1) + int i))),
                    (''commit_count'', JNum 0)]"
      using normalizedHistoryDays_pos by (intro allI impI zero_history_nth)
    show "\<exists>p h x ns. fetchFreshPayload cfg w = Inr p \<and>
         normalizeUser user = Inr x \<and> map_throwing normalizeRepo repos = Inr ns \<and>
         buildEmptyCommitHistory ?days (clock w) = Inr h \<and>
         p = buildPayload cfg w x (JArr (sort_by_pushed_at w ns))
               (JStr (sanitizeReadmeContent w (decodeBase64Utf8 w content))) (JArr h) \<and>
         lookup p ''commit_history'' = JArr h \<and>
         length h = nat ?days \<and>
         (\<forall>i < nat ?days. h ! i =
            JObj [(''date'', JStr (utc_date_string
                     (clock w div msPerDay - (?days - 1) + int i))),
                  (''commit_count'', JNum 0)])"
      using p h ch len nth by (intro exI[of _ "buildPayload cfg w x (JArr (sort_by_pushed_at w ns))
                (JStr (sanitizeReadmeContent w (decodeBase64Utf8 w content))) (JArr ?h)"]
                exI[of _ ?h] exI[of _ x] exI[of _ ns]) simp
  qed
qed


text \<open>
  With the profile request failing, the refresh fails and the empty cache stays empty;
  so it does with a history of 200,000,000 days; with three days and only the commit
  history failing, the snapshot carries the profile, the readme and three zero-filled
  days.
\<close>

theorem fetchFreshPayload_unit_witness:
  "user_response (example_world\<lparr>user_response := Inl (RequestFailed ''500'')\<rparr>) =
     Inl (RequestFailed ''500'') \<and>
   refreshPromise example_server = None \<and>
   (\<exists>e. fetchFreshPayload example_config
          (example_world\<lparr>user_response := Inl (RequestFailed ''500'')\<rparr>) = Inl e \<and>
        fst (refreshCache example_config
          (example_world\<lparr>user_response := Inl (RequestFailed ''500'')\<rparr>) example_server) = Inl e \<and>
        redisStore (snd (refreshCache example_config
          (example_world\<lparr>user_response := Inl (RequestFailed ''500'')\<rparr>) example_server)) = None \<and>
        inMemoryCache (snd (refreshCache example_config
          (example_world\<lparr>user_response := Inl (RequestFailed ''500'')\<rparr>) example_server)) = JNull) \<and>
   0 \<le> clock example_world \<and> clock example_world \<le> maxTime \<and>
   clock example_world div msPerDay + 100000000 <
     normalizedHistoryDays (example_config\<lparr>GITHUB_COMMIT_HISTORY_DAYS := Some 200000000\<rparr>) - 1 \<and>
   (\<exists>e. fetchFreshPayload (example_config\<lparr>GITHUB_COMMIT_HISTORY_DAYS := Some 200000000\<rparr>)
          example_world = Inl e \<and>
        fst (refreshCache (example_config\<lparr>GITHUB_COMMIT_HISTORY_DAYS := Some 200000000\<rparr>)
          example_world example_server) = Inl e \<and>
        inMemoryCache (snd (refreshCache
          (example_config\<lparr>GITHUB_COMMIT_HISTORY_DAYS := Some 200000000\<rparr>)
          example_world example_server)) = JNull) \<and>
   commit_history_response example_world = Inl (RequestFailed ''403 rate limit exceeded'') \<and>
   normalizedHistoryDays example_config = 3 \<and>
   (\<exists>p h. fetchFreshPayload example_config example_world = Inr p \<and>
      lookup p ''user'' =
        JObj [(''login'', JStr ''nyxnix''), (''avatar_url'', JUndefined),
              (''html_url'', JUndefined), (''name'', JNull), (''bio'', JNull),
              (''followers'', JNum 7), (''following'', JUndefined),
              (''public_repos'', JUndefined)] \<and>
      lookup p ''readme'' = JStr ''SGk='' \<and>
      lookup p ''commit_history'' = JArr h \<and> length h = 3 \<and>
      h ! 0 = JObj [(''date'', JStr ''2026-10-31''), (''commit_count'', JNum 0)] \<and>
      h ! 1 = JObj [(''date'', JStr ''2026-11-01''), (''commit_count'', JNum 0)] \<and>
      h ! 2 = JObj [(''date'', JStr ''2026-11-02''), (''commit_count'', JNum 0)])"
proof -
  let ?down = "example_world\<lparr>user_response := Inl (RequestFailed ''500'')\<rparr>"
  let ?long = "example_config\<lparr>GITHUB_COMMIT_HISTORY_DAYS := Some 200000000\<rparr>"
  have h1: "(\<exists>e. user_response ?down = Inl e) \<or> (\<exists>e. repos_response ?down = Inl e) \<or>
     (\<exists>e. readme_response ?down = Inl e)"
    by simp
  have n: "refreshPromise example_server = None" "redisStore example_server = None"
    "inMemoryCache example_server = JNull"
    by (simp_all add: example_server_def)
  have days: "normalizedHistoryDays example_config = 3"
    by (simp add: normalizedHistoryDays_def assertPositiveInteger_def example_config_def)
  have long: "normalizedHistoryDays ?long = 200000000"
    by (simp add: normalizedHistoryDays_def assertPositiveInteger_def)
  have day: "clock example_world div msPerDay = 20759"
    by (simp add: example_world_def msPerDay_def)
  have clk: "0 \<le> clock example_world" "clock example_world \<le> maxTime"
    by (simp_all add: example_world_def maxTime_def)
  have far: "clock example_world div msPerDay + 100000000 < normalizedHistoryDays ?long - 1"
    by (simp add: day long)
  have h2: "(\<exists>u. user_response example_world = Inr u \<and> nullish u) \<or>
     (\<exists>r. repos_response example_world = Inr r \<and> \<not> isArray r) \<or>
     (\<exists>rs. repos_response example_world = Inr (JArr rs) \<and> (\<exists>r \<in> set rs. nullish r)) \<or>
     (\<exists>d. readme_response example_world = Inr d \<and>
        (lookup d ''encoding'' \<noteq> JStr ''base64'' \<or> (\<forall>c. lookup d ''content'' \<noteq> JStr c))) \<or>
     (0 \<le> clock example_world \<and> clock example_world \<le> maxTime \<and>
      clock example_world div msPerDay + 100000000 < normalizedHistoryDays ?long - 1)"
    using clk far by blast
  have h3: "user_response example_world =
      Inr (JObj [(''login'', JStr ''nyxnix''), (''followers'', JNum 7)]) \<and>
    \<not> nullish (JObj [(''login'', JStr ''nyxnix''), (''followers'', JNum 7)]) \<and>
    repos_response example_world = Inr (JArr [JObj [(''name'', JStr ''nyxnx.dev'')]]) \<and>
    (\<forall>r \<in> set [JObj [(''name'', JStr ''nyxnx.dev'')]]. \<not> nullish r) \<and>
    readme_response example_world =
      Inr (JObj [(''encoding'', JStr ''base64''), (''content'', JStr ''SGk='')]) \<and>
    lookup (JObj [(''encoding'', JStr ''base64''), (''content'', JStr ''SGk='')]) ''encoding'' =
      JStr ''base64'' \<and>
    lookup (JObj [(''encoding'', JStr ''base64''), (''content'', JStr ''SGk='')]) ''content'' =
      JStr ''SGk='' \<and>
    commit_history_response example_world = Inl (RequestFailed ''403 rate limit exceeded'') \<and>
    0 \<le> clock example_world \<and> clock example_world \<le> maxTime \<and>
    normalizedHistoryDays example_config - 1 \<le> clock example_world div msPerDay + 100000000"
    by (simp add: days day clk) (simp add: example_world_def)
  from fetchFreshPayload_unit[of ?down example_config example_server,
      THEN conjunct1, rule_format, OF h1]
  obtain e where e: "fetchFreshPayload example_config ?down = Inl e"
    "fst (refreshCache example_config ?down example_server) = Inl e"
    "redisStore (snd (refreshCache example_config ?down example_server)) = None"
    "inMemoryCache (snd (refreshCache example_config ?down example_server)) = JNull"
    using n by auto
  from fetchFreshPayload_unit[of example_world ?long example_server,
      THEN conjunct2, THEN conjunct1, rule_format, OF h2]
  obtain e' where e': "fetchFreshPayload ?long example_world = Inl e'"
    "fst (refreshCache ?long example_world example_server) = Inl e'"
    "inMemoryCache (snd (refreshCache ?long example_world example_server)) = JNull"
    using n by auto
  from fetchFreshPayload_unit[of _ example_config _ _ _ _ _ _,
      THEN conjunct2, THEN conjunct2, rule_format, OF h3]
  obtain p h x ns where p: "fetchFreshPayload example_config example_world = Inr p"
    "normalizeUser (JObj [(''login'', JStr ''nyxnix''), (''followers'', JNum 7)]) = Inr x"
    "p = buildPayload example_config example_world x (JArr (sort_by_pushed_at example_world ns))
           (JStr (sanitizeReadmeContent example_world (decodeBase64Utf8 example_world ''SGk='')))
           (JArr h)"
    "lookup p ''commit_history'' = JArr h" "length h = nat 3"
    "\<forall>i < nat 3. h ! i = JObj [(''date'', JStr (utc_date_string (20759 - (3 - 1) + int i))),
                  (''commit_count'', JNum 0)]"
    unfolding days day by blast
  have "h ! 0 = JObj [(''date'', JStr ''2026-10-31''), (''commit_count'', JNum 0)]"
    "h ! 1 = JObj [(''date'', JStr ''2026-11-01''), (''commit_count'', JNum 0)]"
    "h ! 2 = JObj [(''date'', JStr ''2026-11-02''), (''commit_count'', JNum 0)]"
    using p(6) by (simp_all add: example_utc_dates)
  moreover have "lookup p ''user'' =
        JObj [(''login'', JStr ''nyxnix''), (''avatar_url'', JUndefined),
              (''html_url'', JUndefined), (''name'', JNull), (''bio'', JNull),
              (''followers'', JNum 7), (''following'', JUndefined),
              (''public_repos'', JUndefined)]"
    using p(2) unfolding p(3) by (auto simp: buildPayload_def normalizeUser_def nullish_or_def)
  moreover have "lookup p ''readme'' = JStr ''SGk=''"
    unfolding p(3) by (simp add: buildPayload_def example_world_def)
  ultimately have "\<exists>p h. fetchFreshPayload example_config example_world = Inr p \<and>
      lookup p ''user'' =
        JObj [(''login'', JStr ''nyxnix''), (''avatar_url'', JUndefined),
              (''html_url'', JUndefined), (''name'', JNull), (''bio'', JNull),
              (''followers'', JNum 7), (''following'', JUndefined),
              (''public_repos'', JUndefined)] \<and>
      lookup p ''readme'' = JStr ''SGk='' \<and>
      lookup p ''commit_history'' = JArr h \<and> length h = 3 \<and>
      h ! 0 = JObj [(''date'', JStr ''2026-10-31''), (''commit_count'', JNum 0)] \<and>
      h ! 1 = JObj [(''date'', JStr ''2026-11-01''), (''commit_count'', JNum 0)] \<and>
      h ! 2 = JObj [(''date'', JStr ''2026-11-02''), (''commit_count'', JNum 0)]"
    using p(1,4,5) by auto
  moreover have "\<exists>e. fetchFreshPayload example_config ?down = Inl e \<and>
        fst (refreshCache example_config ?down example_server) = Inl e \<and>
        redisStore (snd (refreshCache example_config ?down example_server)) = None \<and>
        inMemoryCache (snd (refreshCache example_config ?down example_server)) = JNull"
    using e by blast
  moreover have "\<exists>e. fetchFreshPayload ?long example_world = Inl e \<and>
        fst (refreshCache ?long example_world example_server) = Inl e \<and>
        inMemoryCache (snd (refreshCache ?long example_world example_server)) = JNull"
    using e' by blast
  moreover have "commit_history_response example_world = Inl (RequestFailed ''403 rate limit exceeded'')"
    by (simp add: example_world_def)
  ultimately show ?thesis using n(1) days clk far by simp
qed

text \<open>
  C6 as stated fails: the three required requests succeed and only the commit-history
  request fails, yet with \<^verbatim>\<open>GITHUB_COMMIT_HISTORY_DAYS=200000000\<close> the build throws
  the RangeError of the zero-filled history, which is built outside the \<^verbatim>\<open>try\<close>; and
  with a readme that the API delivers with the encoding \<^verbatim>\<open>none\<close> the build throws
  although no request failed.
\<close>

theorem fetchFreshPayload_not_degraded:
  "user_response example_world =
     Inr (JObj [(''login'', JStr ''nyxnix''), (''followers'', JNum 7)]) \<and>
   repos_response example_world = Inr (JArr [JObj [(''name'', JStr ''nyxnx.dev'')]]) \<and>
   readme_response example_world =
     Inr (JObj [(''encoding'', JStr ''base64''), (''content'', JStr ''SGk='')]) \<and>
   commit_history_response example_world = Inl (RequestFailed ''403 rate limit exceeded'') \<and>
   normalizedHistoryDays (example_config\<lparr>GITHUB_COMMIT_HISTORY_DAYS := Some 200000000\<rparr>) =
     200000000 \<and>
   fetchFreshPayload (example_config\<lparr>GITHUB_COMMIT_HISTORY_DAYS := Some 200000000\<rparr>)
     example_world = Inl RangeError \<and>
   fetchFreshPayload example_config
     (example_world\<lparr>readme_response :=
        Inr (JObj [(''encoding'', JStr ''none''), (''content'', JStr [])])\<rparr>) =
     Inl UnsupportedReadme"
  by code_simp

section \<open>C7: the local fallback loader\<close>

text \<open>
  C7. The local fallback produces no snapshot (the builder returns \<^verbatim>\<open>null\<close>) when the
  local file cannot be read, when its text is not JSON, when the JSON is not an array
  and when it is the empty array. Whenever it does produce a snapshot, the snapshot's
  \<^verbatim>\<open>fetched_at\<close> is the ISO string of the clock at the time of loading, whatever
  dates the file's data carries.
\<close>

theorem fallback_loader_clean:
  "(repos_file w = Inl e \<longrightarrow>
      buildFallbackPayloadFromSnapshot cfg w (loadRepoSnapshot w) = Inr JNull) \<and>
   (repos_file w = Inr raw \<and> JSON_parse w raw = None \<longrightarrow>
      buildFallbackPayloadFromSnapshot cfg w (loadRepoSnapshot w) = Inr JNull) \<and>
   (repos_file w = Inr raw \<and> JSON_parse w raw = Some v \<and> \<not> isArray v \<longrightarrow>
      buildFallbackPayloadFromSnapshot cfg w (loadRepoSnapshot w) = Inr JNull) \<and>
   (repos_file w = Inr raw \<and> JSON_parse w raw = Some (JArr []) \<longrightarrow>
      buildFallbackPayloadFromSnapshot cfg w (loadRepoSnapshot w) = Inr JNull) \<and>
   (buildFallbackPayloadFromSnapshot cfg w (loadRepoSnapshot w) = Inr p \<and> p \<noteq> JNull \<longrightarrow>
      meta_fetched_at p = JStr (iso_string (clock w)))"
proof (intro conjI impI)
  assume "repos_file w = Inl e"
  then show "buildFallbackPayloadFromSnapshot cfg w (loadRepoSnapshot w) = Inr JNull"
    by (simp add: loadRepoSnapshot_def buildFallbackPayloadFromSnapshot_def)
next
  assume "repos_file w = Inr raw \<and> JSON_parse w raw = None"
  then show "buildFallbackPayloadFromSnapshot cfg w (loadRepoSnapshot w) = Inr JNull"
    by (simp add: loadRepoSnapshot_def buildFallbackPayloadFromSnapshot_def)
next
  assume "repos_file w = Inr raw \<and> JSON_parse w raw = Some v \<and> \<not> isArray v"
  then show "buildFallbackPayloadFromSnapshot cfg w (loadRepoSnapshot w) = Inr JNull"
    by (simp add: loadRepoSnapshot_def buildFallbackPayloadFromSnapshot_def)
next
  assume "repos_file w = Inr raw \<and> JSON_parse w raw = Some (JArr [])"
  then show "buildFallbackPayloadFromSnapshot cfg w (loadRepoSnapshot w) = Inr JNull"
    by (simp add: loadRepoSnapshot_def buildFallbackPayloadFromSnapshot_def)
next
  assume "buildFallbackPayloadFromSnapshot cfg w (loadRepoSnapshot w) = Inr p \<and> p \<noteq> JNull"
  then obtain user repos history
    where "p = buildPayload cfg w user (JArr repos) (JStr []) (JArr history)"
    using buildFallback_result by blast
  then show "meta_fetched_at p = JStr (iso_string (clock w))"
    by (simp add: buildPayload_fetched_at)
qed

text \<open>
  A missing file, the text \<^verbatim>\<open>[{\<close>, the object \<^verbatim>\<open>{}\<close> and the array \<^verbatim>\<open>[]\<close> give no
  snapshot; the file \<^verbatim>\<open>[{}]\<close> loaded at noon on 2 November 2026 gives one fetched at
  that time.
\<close>

theorem fallback_loader_clean_witness:
  "repos_file (example_world\<lparr>repos_file := Inl FileError\<rparr>) = Inl FileError \<and>
   buildFallbackPayloadFromSnapshot example_config (example_world\<lparr>repos_file := Inl FileError\<rparr>)
     (loadRepoSnapshot (example_world\<lparr>repos_file := Inl FileError\<rparr>)) = Inr JNull \<and>
   JSON_parse (example_world\<lparr>repos_file := Inr ''[{''\<rparr>) ''[{'' = None \<and>
   buildFallbackPayloadFromSnapshot example_config (example_world\<lparr>repos_file := Inr ''[{''\<rparr>)
     (loadRepoSnapshot (example_world\<lparr>repos_file := Inr ''[{''\<rparr>)) = Inr JNull \<and>
   JSON_parse (example_world\<lparr>repos_file := Inr ''{}''\<rparr>) ''{}'' = Some (JObj []) \<and>
   \<not> isArray (JObj []) \<and>
   buildFallbackPayloadFromSnapshot example_config (example_world\<lparr>repos_file := Inr ''{}''\<rparr>)
     (loadRepoSnapshot (example_world\<lparr>repos_file := Inr ''{}''\<rparr>)) = Inr JNull \<and>
   JSON_parse (example_world\<lparr>repos_file := Inr ''[]''\<rparr>) ''[]'' = Some (JArr []) \<and>
   buildFallbackPayloadFromSnapshot example_config (example_world\<lparr>repos_file := Inr ''[]''\<rparr>)
     (loadRepoSnapshot (example_world\<lparr>repos_file := Inr ''[]''\<rparr>)) = Inr JNull \<and>
   buildFallbackPayloadFromSnapshot example_config example_world
     (loadRepoSnapshot example_world) = Inr example_fallback_payload \<and>
   example_fallback_payload \<noteq> JNull \<and>
   meta_fetched_at example_fallback_payload = JStr ''2026-11-02T12:00:00.000Z''"
proof -
  have h1: "repos_file (example_world\<lparr>repos_file := Inl FileError\<rparr>) = Inl FileError"
    by simp
  have h2: "repos_file (example_world\<lparr>repos_file := Inr ''[{''\<rparr>) = Inr ''[{'' \<and>
      JSON_parse (example_world\<lparr>repos_file := Inr ''[{''\<rparr>) ''[{'' = None"
    by (simp add: example_defs)
  have h3: "repos_file (example_world\<lparr>repos_file := Inr ''{}''\<rparr>) = Inr ''{}'' \<and>
      JSON_parse (example_world\<lparr>repos_file := Inr ''{}''\<rparr>) ''{}'' = Some (JObj []) \<and>
      \<not> isArray (JObj [])"
    by (simp add: example_defs)
  have h4: "repos_file (example_world\<lparr>repos_file := Inr ''[]''\<rparr>) = Inr ''[]'' \<and>
      JSON_parse (example_world\<lparr>repos_file := Inr ''[]''\<rparr>) ''[]'' = Some (JArr [])"
    by (simp add: example_defs)
  note t1 = fallback_loader_clean[of "example_world\<lparr>repos_file := Inl FileError\<rparr>" FileError
      example_config, THEN conjunct1, rule_format, OF h1]
  note t2 = fallback_loader_clean[of "example_world\<lparr>repos_file := Inr ''[{''\<rparr>" _
      example_config "''[{''", THEN conjunct2, THEN conjunct1, rule_format, OF h2]
  note t3 = fallback_loader_clean[of "example_world\<lparr>repos_file := Inr ''{}''\<rparr>" _
      example_config "''{}''" "JObj []",
      THEN conjunct2, THEN conjunct2, THEN conjunct1, rule_format, OF h3]
  note t4 = fallback_loader_clean[of "example_world\<lparr>repos_file := Inr ''[]''\<rparr>" _
      example_config "''[]''",
      THEN conjunct2, THEN conjunct2, THEN conjunct2, THEN conjunct1, rule_format, OF h4]
  note t5 = fallback_loader_clean[of example_world _ example_config _ _ example_fallback_payload,
      THEN conjunct2, THEN conjunct2, THEN conjunct2, THEN conjunct2, rule_format,
      OF example_fallback]
  show ?thesis
    using h1 h2 h3 h4 t1 t2 t3 t4 t5 example_fallback by (simp add: example_clock_iso)
qed

section \<open>C8: the manual refresh checks the credential first\<close>

lemma post_refresh_proceeds:
  assumes "CACHE_REFRESH_TOKEN cfg = [] \<or> token = Some (CACHE_REFRESH_TOKEN cfg)"
  shows "post_refresh cfg w token s =
     (case refreshCache cfg w s of
        (Inr payload, s1) \<Rightarrow>
          (Inr \<lparr>status = 200, x_cache_status = Some REFRESH, body = payload\<rparr>, s1)
      | (Inl err, s1) \<Rightarrow>
          (Inr \<lparr>status = 503, x_cache_status = None,
                body = message ''GitHub cache refresh failed.''\<rparr>, s1))"
  using assms by (auto simp: post_refresh_def)

text \<open>
  C8. While a refresh credential is configured, a manual-refresh request whose
  \<^verbatim>\<open>x-refresh-token\<close> header is missing or different is answered 401 Unauthorized and
  the server state is exactly what it was: \<^verbatim>\<open>refreshCache\<close> is not called, no build is
  started, the cache store is unchanged. When no credential is configured, no header is
  looked at: whatever the request carries, the handler does what \<^verbatim>\<open>refreshCache\<close>
  does and answers its payload with REFRESH, or 503 when it fails.
\<close>

theorem post_refresh_credential:
  "(CACHE_REFRESH_TOKEN cfg \<noteq> [] \<and> token \<noteq> Some (CACHE_REFRESH_TOKEN cfg) \<longrightarrow>
      post_refresh cfg w token s =
        (Inr \<lparr>status = 401, x_cache_status = None,
              body = message ''Unauthorized refresh request.''\<rparr>, s)) \<and>
   (CACHE_REFRESH_TOKEN cfg = [] \<longrightarrow>
      snd (post_refresh cfg w token s) = snd (refreshCache cfg w s) \<and>
      (\<forall>payload. fst (refreshCache cfg w s) = Inr payload \<longrightarrow>
         fst (post_refresh cfg w token s) =
           Inr \<lparr>status = 200, x_cache_status = Some REFRESH, body = payload\<rparr>) \<and>
      (\<forall>err. fst (refreshCache cfg w s) = Inl err \<longrightarrow>
         fst (post_refresh cfg w token s) =
           Inr \<lparr>status = 503, x_cache_status = None,
                body = message ''GitHub cache refresh failed.''\<rparr>) \<and>
      (refreshPromise s = None \<longrightarrow>
         builds_started (snd (post_refresh cfg w token s)) = Suc (builds_started s)))"
proof (intro conjI impI allI)
  assume "CACHE_REFRESH_TOKEN cfg \<noteq> [] \<and> token \<noteq> Some (CACHE_REFRESH_TOKEN cfg)"
  then show "post_refresh cfg w token s =
        (Inr \<lparr>status = 401, x_cache_status = None,
              body = message ''Unauthorized refresh request.''\<rparr>, s)"
    by (simp add: post_refresh_def)
next
  assume e: "CACHE_REFRESH_TOKEN cfg = []"
  obtain r s1 where rc: "refreshCache cfg w s = (r, s1)" by (cases "refreshCache cfg w s")
  have pr: "post_refresh cfg w token s =
     (case r of
        Inr payload \<Rightarrow> (Inr \<lparr>status = 200, x_cache_status = Some REFRESH, body = payload\<rparr>, s1)
      | Inl err \<Rightarrow> (Inr \<lparr>status = 503, x_cache_status = None,
                body = message ''GitHub cache refresh failed.''\<rparr>, s1))"
    using post_refresh_proceeds[of cfg token w s] e rc by (simp split: sum.splits)
  show "snd (post_refresh cfg w token s) = snd (refreshCache cfg w s)"
    by (simp add: pr rc split: sum.splits)
  show "fst (post_refresh cfg w token s) =
           Inr \<lparr>status = 200, x_cache_status = Some REFRESH, body = payload\<rparr>"
    if "fst (refreshCache cfg w s) = Inr payload" for payload
    using that by (simp add: pr rc)
  show "fst (post_refresh cfg w token s) =
           Inr \<lparr>status = 503, x_cache_status = None,
                body = message ''GitHub cache refresh failed.''\<rparr>"
    if "fst (refreshCache cfg w s) = Inl err" for err
    using that by (simp add: pr rc)
  show "builds_started (snd (post_refresh cfg w token s)) = Suc (builds_started s)"
    if "refreshPromise s = None"
    using refreshCache_builds[OF that, of cfg w] by (simp add: pr rc split: sum.splits)
qed

text \<open>
  With the token \<^verbatim>\<open>s3cret\<close> configured, a wrong token and no token are both refused;
  with no token configured, a request without a header starts the build.
\<close>

theorem post_refresh_credential_witness:
  "CACHE_REFRESH_TOKEN example_config \<noteq> [] \<and>
   Some ''guess'' \<noteq> Some (CACHE_REFRESH_TOKEN example_config) \<and>
   post_refresh example_config example_world (Some ''guess'') example_server =
     (Inr \<lparr>status = 401, x_cache_status = None,
           body = message ''Unauthorized refresh request.''\<rparr>, example_server) \<and>
   post_refresh example_config example_world None example_server =
     (Inr \<lparr>status = 401, x_cache_status = None,
           body = message ''Unauthorized refresh request.''\<rparr>, example_server) \<and>
   CACHE_REFRESH_TOKEN (example_config\<lparr>CACHE_REFRESH_TOKEN := []\<rparr>) = [] \<and>
   refreshPromise example_server = None \<and>
   builds_started (snd (post_refresh (example_config\<lparr>CACHE_REFRESH_TOKEN := []\<rparr>)
     example_world None example_server)) = 1"
proof -
  have c: "CACHE_REFRESH_TOKEN example_config \<noteq> []"
    and g: "Some ''guess'' \<noteq> Some (CACHE_REFRESH_TOKEN example_config)"
    and m: "None \<noteq> Some (CACHE_REFRESH_TOKEN example_config)"
    and e: "CACHE_REFRESH_TOKEN (example_config\<lparr>CACHE_REFRESH_TOKEN := []\<rparr>) = []"
    and n: "refreshPromise example_server = None" "builds_started example_server = 0"
    by (simp_all add: example_config_def example_server_def)
  note t1 = post_refresh_credential[of example_config "Some ''guess''" example_world
      example_server, THEN conjunct1, rule_format, OF conjI[OF c g]]
  note t2 = post_refresh_credential[of example_config None example_world
      example_server, THEN conjunct1, rule_format, OF conjI[OF c m]]
  note t3 = post_refresh_credential[of "example_config\<lparr>CACHE_REFRESH_TOKEN := []\<rparr>" None
      example_world example_server, THEN conjunct2, rule_format, OF e]
  note t4 = t3[THEN conjunct2, THEN conjunct2, THEN conjunct2, rule_format, OF n(1)]
  show ?thesis using c g e n t1 t2 t4 by simp
qed

section \<open>C9: the shape of a snapshot\<close>

text \<open>
  C9 (as amended). Every snapshot the system produces, from a refresh or from the local
  fallback, is an object with exactly the properties \<^verbatim>\<open>meta\<close>, \<^verbatim>\<open>user\<close>, \<^verbatim>\<open>repos\<close>,
  \<^verbatim>\<open>readme\<close> and \<^verbatim>\<open>commit_history\<close>, in this order; its \<^verbatim>\<open>meta\<close> holds exactly
  \<^verbatim>\<open>username\<close> (the configured identity), \<^verbatim>\<open>fetched_at\<close> (the ISO string of the
  time of building), \<^verbatim>\<open>source\<close> (always \<^verbatim>\<open>github-api\<close>) and \<^verbatim>\<open>cache_ttl_minutes\<close>
  (the TTL in minutes, a positive integer). The cached data are these four top-level
  properties beside \<^verbatim>\<open>meta\<close>: there is no \<^verbatim>\<open>payload\<close> object. For a clock between
  the epoch and the end of the year 9999, \<^verbatim>\<open>fetched_at\<close> has the ISO 8601 form
  \<^verbatim>\<open>YYYY-MM-DDTHH:mm:ss.sssZ\<close>.
\<close>

theorem snapshot_shape:
  "fetchFreshPayload cfg w = Inr p \<or>
   (buildFallbackPayloadFromSnapshot cfg w snapshot = Inr p \<and> p \<noteq> JNull) \<longrightarrow>
     keys p = [''meta'', ''user'', ''repos'', ''readme'', ''commit_history''] \<and>
     lookup p ''meta'' =
       JObj [(''username'', JStr (GITHUB_USERNAME cfg)),
             (''fetched_at'', JStr (iso_string (clock w))),
             (''source'', JStr ''github-api''),
             (''cache_ttl_minutes'', JNum (normalizedTtlMinutes cfg))] \<and>
     0 < normalizedTtlMinutes cfg \<and>
     (0 \<le> clock w \<and> clock w \<le> 253402300799999 \<longrightarrow> iso8601_utc (iso_string (clock w)))"
proof
  assume "fetchFreshPayload cfg w = Inr p \<or>
   (buildFallbackPayloadFromSnapshot cfg w snapshot = Inr p \<and> p \<noteq> JNull)"
  then obtain user repos readme history
    where "p = buildPayload cfg w user repos readme history"
    using fetchFreshPayload_result buildFallback_result by blast
  then show "keys p = [''meta'', ''user'', ''repos'', ''readme'', ''commit_history''] \<and>
     lookup p ''meta'' =
       JObj [(''username'', JStr (GITHUB_USERNAME cfg)),
             (''fetched_at'', JStr (iso_string (clock w))),
             (''source'', JStr ''github-api''),
             (''cache_ttl_minutes'', JNum (normalizedTtlMinutes cfg))] \<and>
     0 < normalizedTtlMinutes cfg \<and>
     (0 \<le> clock w \<and> clock w \<le> 253402300799999 \<longrightarrow> iso8601_utc (iso_string (clock w)))"
    by (simp add: buildPayload_keys buildPayload_meta normalizedTtlMinutes_pos iso_string_shape)
qed

text \<open>The snapshots of a refresh and of the fallback at noon on 2 November 2026.\<close>

theorem snapshot_shape_witness:
  "fetchFreshPayload example_config example_world = Inr example_fresh_payload \<and>
   keys example_fresh_payload = [''meta'', ''user'', ''repos'', ''readme'', ''commit_history''] \<and>
   lookup example_fresh_payload ''meta'' =
     JObj [(''username'', JStr ''nyxnix''),
           (''fetched_at'', JStr ''2026-11-02T12:00:00.000Z''),
           (''source'', JStr ''github-api''),
           (''cache_ttl_minutes'', JNum 30)] \<and>
   buildFallbackPayloadFromSnapshot example_config example_world (loadRepoSnapshot example_world) =
     Inr example_fallback_payload \<and>
   example_fallback_payload \<noteq> JNull \<and>
   keys example_fallback_payload = [''meta'', ''user'', ''repos'', ''readme'', ''commit_history''] \<and>
   lookup example_fallback_payload ''meta'' =
     JObj [(''username'', JStr ''nyxnix''),
           (''fetched_at'', JStr ''2026-11-02T12:00:00.000Z''),
           (''source'', JStr ''github-api''),
           (''cache_ttl_minutes'', JNum 30)] \<and>
   0 \<le> clock example_world \<and> clock example_world \<le> 253402300799999 \<and>
   iso8601_utc ''2026-11-02T12:00:00.000Z''"
proof -
  have k: "0 \<le> clock example_world \<and> clock example_world \<le> 253402300799999"
    by (simp add: example_world_def)
  have c: "GITHUB_USERNAME example_config = ''nyxnix''" "normalizedTtlMinutes example_config = 30"
    by (simp_all add: example_config_def normalizedTtlMinutes_def assertPositiveInteger_def)
  note t1 = snapshot_shape[of example_config example_world example_fresh_payload JNull,
      rule_format, OF disjI1, OF example_fresh]
  note t2 = snapshot_shape[of example_config example_world example_fallback_payload
      "loadRepoSnapshot example_world", rule_format, OF disjI2, OF example_fallback]
  note t3 = t1[THEN conjunct2, THEN conjunct2, THEN conjunct2, rule_format, OF k]
  show ?thesis
    using t1 t2 t3 k example_fresh example_fallback by (simp add: c example_clock_iso)
qed

text \<open>
  C9 as stated names the shape \<^verbatim>\<open>{ meta: { identity, fetched_at, source, ttl_minutes },
  payload }\<close>. The snapshot of a successful refresh has no property \<^verbatim>\<open>payload\<close>, and
  its \<^verbatim>\<open>meta\<close> has neither \<^verbatim>\<open>identity\<close> nor \<^verbatim>\<open>ttl_minutes\<close>.
\<close>

theorem snapshot_shape_no_payload_key:
  "fetchFreshPayload example_config example_world = Inr example_fresh_payload \<and>
   lookup example_fresh_payload ''payload'' = JUndefined \<and>
   lookup (lookup example_fresh_payload ''meta'') ''identity'' = JUndefined \<and>
   lookup (lookup example_fresh_payload ''meta'') ''ttl_minutes'' = JUndefined \<and>
   keys example_fresh_payload = [''meta'', ''user'', ''repos'', ''readme'', ''commit_history''] \<and>
   keys (lookup example_fresh_payload ''meta'') =
     [''username'', ''fetched_at'', ''source'', ''cache_ttl_minutes'']"
  by code_simp
section \<open>C10: the zero-filled commit history\<close>

text \<open>
  C10 (as amended). For every positive integer \<open>days\<close> and every clock reading from the
  epoch to the end of the year 9999 such that the earliest day of the history is not
  before 1 January of the year 0 (\<open>days - 1\<close> is at most the current day number plus
  719528), \<^verbatim>\<open>buildEmptyCommitHistory(days)\<close> returns exactly \<open>days\<close> entries. The
  \<open>i\<close>-th entry is for UTC day number \<open>today - (days - 1) + i\<close>: its date is
  \<^verbatim>\<open>YYYY-MM-DD\<close> with the year (0 to 9999), the month (1 to 12) and the day of the month
  (1 to 31) of that day, which determine the day number, and its \<^verbatim>\<open>commit_count\<close> is 0.
  No two entries have the same date, and the last entry is the current UTC date: one
  entry per consecutive UTC calendar day, ascending, ending today.
\<close>

theorem buildEmptyCommitHistory_in_range:
  assumes "0 \<le> now" and "now \<le> 253402300799999" and "0 < days"
    and "days - 1 \<le> now div msPerDay + 719528"
  shows "\<exists>h. buildEmptyCommitHistory days now = Inr h \<and> length h = nat days \<and>
           (\<forall>i < nat days. \<exists>y m d.
              civil_of_day (now div msPerDay - (days - 1) + int i) = (y, m, d) \<and>
              0 \<le> y \<and> y \<le> 9999 \<and> 1 \<le> m \<and> m \<le> 12 \<and> 1 \<le> d \<and> d \<le> 31 \<and>
              day_of_civil (y, m, d) = now div msPerDay - (days - 1) + int i \<and>
              h ! i = JObj [(''date'', JStr (pad4 y @ ''-'' @ pad2 m @ ''-'' @ pad2 d)),
                            (''commit_count'', JNum 0)]) \<and>
           distinct (map (\<lambda>e. lookup e ''date'') h) \<and>
           (\<exists>y m d. civil_of_day (now div msPerDay) = (y, m, d) \<and>
              last h = JObj [(''date'', JStr (pad4 y @ ''-'' @ pad2 m @ ''-'' @ pad2 d)),
                             (''commit_count'', JNum 0)])"
proof -
  define D where "D = now div msPerDay"
  have D: "0 \<le> D" "D \<le> 2932896"
  proof -
    show "0 \<le> D" using assms(1) by (simp add: D_def msPerDay_def pos_imp_zdiv_nonneg_iff)
    have "now div msPerDay \<le> 253402300799999 div msPerDay"
      using assms(2) by (intro zdiv_mono1) (auto simp: msPerDay_def)
    then show "D \<le> 2932896" by (simp add: D_def msPerDay_def)
  qed
  have mx: "now \<le> maxTime" using assms(2) by (simp add: maxTime_def)
  have far: "days - 1 \<le> now div msPerDay + 100000000" using assms(4) by linarith
  have entry: "\<exists>y m d. civil_of_day z = (y, m, d) \<and>
              0 \<le> y \<and> y \<le> 9999 \<and> 1 \<le> m \<and> m \<le> 12 \<and> 1 \<le> d \<and> d \<le> 31 \<and>
              day_of_civil (y, m, d) = z \<and>
              utc_date_string z = pad4 y @ ''-'' @ pad2 m @ ''-'' @ pad2 d"
    if z: "- 719528 \<le> z" "z \<le> 2932896" for z
  proof -
    obtain y m d where c: "civil_of_day z = (y, m, d)" by (cases "civil_of_day z") auto
    have y: "0 \<le> y" "y \<le> 9999" using civil_year_0_to_9999[OF z] c by simp_all
    have r: "day_of_civil (y, m, d) = z" using day_of_civil_of_day[of z] c by simp
    show ?thesis
      using c y civil_of_day_range[OF c] r utc_date_string_civil[OF c y] by blast
  qed
  show ?thesis
  proof (rule exI[of _ "zero_history (now div msPerDay) days"], intro conjI allI impI)
    show "buildEmptyCommitHistory days now = Inr (zero_history (now div msPerDay) days)"
      using assms(1) mx far by (rule buildEmptyCommitHistory_closed)
    show "length (zero_history (now div msPerDay) days) = nat days"
      using assms(3) by (rule zero_history_length)
    show "\<exists>y m d.
              civil_of_day (now div msPerDay - (days - 1) + int i) = (y, m, d) \<and>
              0 \<le> y \<and> y \<le> 9999 \<and> 1 \<le> m \<and> m \<le> 12 \<and> 1 \<le> d \<and> d \<le> 31 \<and>
              day_of_civil (y, m, d) = now div msPerDay - (days - 1) + int i \<and>
              zero_history (now div msPerDay) days ! i =
                JObj [(''date'', JStr (pad4 y @ ''-'' @ pad2 m @ ''-'' @ pad2 d)),
                      (''commit_count'', JNum 0)]" if i: "i < nat days" for i
    proof -
      have z: "- 719528 \<le> now div msPerDay - (days - 1) + int i"
              "now div msPerDay - (days - 1) + int i \<le> 2932896"
        using assms(3,4) i D unfolding D_def by linarith+
      show ?thesis
        using entry[OF z] by (simp only: zero_history_nth[OF assms(3) i]) blast
    qed
    show "distinct (map (\<lambda>e. lookup e ''date'') (zero_history (now div msPerDay) days))"
      using assms(3) D(2) assms(4) unfolding D_def by (rule zero_history_dates_distinct)
    show "\<exists>y m d. civil_of_day (now div msPerDay) = (y, m, d) \<and>
              last (zero_history (now div msPerDay) days) =
                JObj [(''date'', JStr (pad4 y @ ''-'' @ pad2 m @ ''-'' @ pad2 d)),
                      (''commit_count'', JNum 0)]"
    proof -
      have z: "- 719528 \<le> now div msPerDay" "now div msPerDay \<le> 2932896"
        using D unfolding D_def by linarith+
      show ?thesis
        using entry[OF z] by (simp only: zero_history_last[OF assms(3)]) blast
    qed
  qed
qed

text \<open>The history of three days on 2 November 2026.\<close>

theorem buildEmptyCommitHistory_in_range_witness:
  "(0::int) \<le> 1793620800000 \<and> (1793620800000::int) \<le> 253402300799999 \<and> (0::int) < 3 \<and>
   (3::int) - 1 \<le> 1793620800000 div msPerDay + 719528 \<and>
   (\<exists>h. buildEmptyCommitHistory 3 1793620800000 = Inr h \<and> length h = 3 \<and>
      h ! 0 = JObj [(''date'', JStr ''2026-10-31''), (''commit_count'', JNum 0)] \<and>
      h ! 1 = JObj [(''date'', JStr ''2026-11-01''), (''commit_count'', JNum 0)] \<and>
      h ! 2 = JObj [(''date'', JStr ''2026-11-02''), (''commit_count'', JNum 0)] \<and>
      distinct (map (\<lambda>e. lookup e ''date'') h) \<and>
      last h = JObj [(''date'', JStr ''2026-11-02''), (''commit_count'', JNum 0)])"
proof -
  have c0: "civil_of_day 20757 = (2026, 10, 31)" by code_simp
  have c1: "civil_of_day 20758 = (2026, 11, 1)" by code_simp
  have c2: "civil_of_day 20759 = (2026, 11, 2)" by code_simp
  have s0: "pad4 2026 @ CHR ''-'' # pad2 10 @ CHR ''-'' # pad2 31 = ''2026-10-31''" by code_simp
  have s1: "pad4 2026 @ CHR ''-'' # pad2 11 @ CHR ''-'' # pad2 1 = ''2026-11-01''" by code_simp
  have s2: "pad4 2026 @ CHR ''-'' # pad2 11 @ CHR ''-'' # pad2 2 = ''2026-11-02''" by code_simp
  have day: "(1793620800000::int) div msPerDay = 20759" by (simp add: msPerDay_def)
  have pre: "(0::int) \<le> 1793620800000" "(1793620800000::int) \<le> 253402300799999" "(0::int) < 3"
    "(3::int) - 1 \<le> 1793620800000 div msPerDay + 719528"
    by (simp_all add: msPerDay_def)
  obtain h where h: "buildEmptyCommitHistory 3 1793620800000 = Inr h" "length h = nat 3"
    "\<forall>i < nat 3. \<exists>y m d.
        civil_of_day (1793620800000 div msPerDay - (3 - 1) + int i) = (y, m, d) \<and>
        0 \<le> y \<and> y \<le> 9999 \<and> 1 \<le> m \<and> m \<le> 12 \<and> 1 \<le> d \<and> d \<le> 31 \<and>
        day_of_civil (y, m, d) = 1793620800000 div msPerDay - (3 - 1) + int i \<and>
        h ! i = JObj [(''date'', JStr (pad4 y @ ''-'' @ pad2 m @ ''-'' @ pad2 d)),
                      (''commit_count'', JNum 0)]"
    "distinct (map (\<lambda>e. lookup e ''date'') h)"
    "\<exists>y m d. civil_of_day (1793620800000 div msPerDay) = (y, m, d) \<and>
        last h = JObj [(''date'', JStr (pad4 y @ ''-'' @ pad2 m @ ''-'' @ pad2 d)),
                       (''commit_count'', JNum 0)]"
    using buildEmptyCommitHistory_in_range[OF pre] by blast
  have "h ! 0 = JObj [(''date'', JStr ''2026-10-31''), (''commit_count'', JNum 0)]"
    using h(3)[rule_format, of 0] by (auto simp: day c0 s0)
  moreover have "h ! 1 = JObj [(''date'', JStr ''2026-11-01''), (''commit_count'', JNum 0)]"
    using h(3)[rule_format, of 1] by (auto simp: day c1 s1)
  moreover have "h ! 2 = JObj [(''date'', JStr ''2026-11-02''), (''commit_count'', JNum 0)]"
    using h(3)[rule_format, of 2] by (auto simp: day c2 s2)
  moreover have "last h = JObj [(''date'', JStr ''2026-11-02''), (''commit_count'', JNum 0)]"
    using h(5) by (auto simp: day c2 s2)
  ultimately show ?thesis using pre h(1,2,4) by auto
qed

text \<open>
  C10 as stated fails for two kinds of positive integers. With 200,000,000 days the
  first date computed is outside the \<^verbatim>\<open>Date\<close> range and \<^verbatim>\<open>toISOString\<close> throws: no
  list is returned. With 740,290 days on 2 November 2026 the list is returned, but its
  first two entries, for 30 and 31 December of the year before the year 0, carry the
  same text: \<^verbatim>\<open>toISOString\<close> writes such a year with a sign and six digits, and the
  first ten characters stop inside the month.
\<close>

theorem buildEmptyCommitHistory_out_of_range:
  "(0::int) < 200000000 \<and>
   buildEmptyCommitHistory 200000000 1793620800000 = Inl RangeError \<and>
   (0::int) < 740290 \<and>
   map_sum id (take 2) (buildEmptyCommitHistory 740290 1793620800000) =
     Inr [JObj [(''date'', JStr ''-000001-12''), (''commit_count'', JNum 0)],
          JObj [(''date'', JStr ''-000001-12''), (''commit_count'', JNum 0)]] \<and>
   civil_of_day (1793620800000 div msPerDay - (740290 - 1) + 0) = (- 1, 12, 30) \<and>
   civil_of_day (1793620800000 div msPerDay - (740290 - 1) + 1) = (- 1, 12, 31)"
proof -
  have s: "startOfUtcDay (Some 1793620800000) = Some 1793577600000"
    by (simp add: startOfUtcDay_clock maxTime_def msPerDay_def)
  have far: "buildEmptyCommitHistory 200000000 1793620800000 = Inl RangeError"
    unfolding buildEmptyCommitHistory_def s
    by (subst history_loop.simps)
       (simp add: formatUtcDate_def toISOString_def setUTCDate_back_def time_clip_def
          maxTime_def msPerDay_def)
  have day: "(1793620800000::int) div msPerDay = 20759" by (simp add: msPerDay_def)
  have b: "buildEmptyCommitHistory 740290 1793620800000 = Inr (zero_history 20759 740290)"
    using buildEmptyCommitHistory_closed[of 1793620800000 740290]
    by (simp add: maxTime_def day)
  have len: "length (zero_history 20759 740290) = nat 740290"
    by (rule zero_history_length) simp
  have d0: "utc_date_string (- 719530) = ''-000001-12''" by code_simp
  have d1: "utc_date_string (- 719529) = ''-000001-12''" by code_simp
  have n0: "zero_history 20759 740290 ! 0 =
              JObj [(''date'', JStr ''-000001-12''), (''commit_count'', JNum 0)]"
    using zero_history_nth[of 740290 0 20759] by (simp add: d0)
  have n1: "zero_history 20759 740290 ! Suc 0 =
              JObj [(''date'', JStr ''-000001-12''), (''commit_count'', JNum 0)]"
    using zero_history_nth[of 740290 "Suc 0" 20759] by (simp add: d1)
  have "take 2 (zero_history 20759 740290) =
          [zero_history 20759 740290 ! 0, zero_history 20759 740290 ! 1]"
    using len by (simp add: take_Suc_conv_app_nth numeral_2_eq_2)
  then have two: "map_sum id (take 2) (buildEmptyCommitHistory 740290 1793620800000) =
     Inr [JObj [(''date'', JStr ''-000001-12''), (''commit_count'', JNum 0)],
          JObj [(''date'', JStr ''-000001-12''), (''commit_count'', JNum 0)]]"
    by (simp add: b n0 n1)
  have c0: "civil_of_day (1793620800000 div msPerDay - (740290 - 1) + 0) = (- 1, 12, 30)"
    unfolding day by code_simp
  have c1: "civil_of_day (1793620800000 div msPerDay - (740290 - 1) + 1) = (- 1, 12, 31)"
    unfolding day by code_simp
  show ?thesis using far two c0 c1 by simp
qed

end
